(* ===== verification/Ceph_Prelude.thy ===== *)
theory Ceph_Prelude
  imports Complex_Main "HOL-Library.Multiset"
begin

text \<open>
  Shared vocabulary of the development: C++ failures as values of a sum type and the
  sequencing of fallible code, indexing of a \<open>std::vector\<close>, 32-bit range of \<open>int\<close>,
  decimal output of integers, association lists as the insertion history of an
  unordered map, and the generic lemmas every component uses.
\<close>

section \<open>Collections of rewrite rules\<close>

named_theorems res_simps \<open>sequencing of fallible code\<close>

named_theorems text_simps \<open>splitting and printing of strings\<close>

named_theorems frame_simps \<open>what an operation leaves alone\<close>

section \<open>Failures of the C++ code\<close>

text \<open>
  A failure ends the callback it occurs in: an exception that the program does not catch,
  or an access the language leaves undefined. Each is a value, so that every partial
  operation of the source is a branch of its model.
\<close>

datatype cpp_error =
    Bad_Lexical_Cast          \<comment> \<open>\<open>boost::bad_lexical_cast\<close>\<close>
  | Invalid_Argument string   \<comment> \<open>\<open>std::invalid_argument\<close>\<close>
  | Yaml_Exception            \<comment> \<open>\<open>YAML::Exception\<close>\<close>
  | Json_Exception            \<comment> \<open>\<open>Json::LogicError\<close>\<close>
  | Interprocess_Exception    \<comment> \<open>\<open>boost::interprocess::interprocess_exception\<close>\<close>
  | Resources_Error           \<comment> \<open>\<open>Try::get\<close> on an error of the Mesos resource library\<close>
  | Out_Of_Range              \<comment> \<open>\<open>operator[]\<close> past the end of a vector\<close>
  | Null_Dereference
  | Division_By_Zero
  | Buffer_Overread           \<comment> \<open>reading past the end of a \<open>char\<close> array\<close>
  | Use_After_Free

type_synonym 'a res = "cpp_error + 'a"

definition bind_res :: "'a res \<Rightarrow> ('a \<Rightarrow> 'b res) \<Rightarrow> 'b res" where
  "bind_res m f = (case m of Inl e \<Rightarrow> Inl e | Inr x \<Rightarrow> f x)"

lemma bind_res_Inl [simp, res_simps]: "bind_res (Inl e) f = Inl e"
  by (simp add: bind_res_def)

lemma bind_res_Inr [simp, res_simps]: "bind_res (Inr x) f = f x"
  by (simp add: bind_res_def)

lemma bind_res_eq_Inr [res_simps]:
  "bind_res m f = Inr y \<longleftrightarrow> (\<exists>x. m = Inr x \<and> f x = Inr y)"
  by (cases m) auto

lemma bind_res_eq_Inl:
  "bind_res m f = Inl e \<longleftrightarrow> m = Inl e \<or> (\<exists>x. m = Inr x \<and> f x = Inl e)"
  by (cases m) auto

lemma bind_res_assoc: "bind_res (bind_res m f) g = bind_res m (\<lambda>x. bind_res (f x) g)"
  by (cases m) auto

lemma bind_res_cong [fundef_cong]:
  "m = m' \<Longrightarrow> (\<And>x. m' = Inr x \<Longrightarrow> f x = f' x) \<Longrightarrow> bind_res m f = bind_res m' f'"
  by (cases m') auto

lemma bind_resE [elim]:
  assumes "bind_res m f = Inr y"
  obtains x where "m = Inr x" and "f x = Inr y"
  using assms by (auto simp: res_simps)

definition of_option :: "cpp_error \<Rightarrow> 'a option \<Rightarrow> 'a res" where
  "of_option e x = (case x of None \<Rightarrow> Inl e | Some v \<Rightarrow> Inr v)"

lemma of_option_simps [simp]: "of_option e None = Inl e" "of_option e (Some v) = Inr v"
  by (simp_all add: of_option_def)

lemma of_option_eq_Inr [res_simps]: "of_option e x = Inr v \<longleftrightarrow> x = Some v"
  by (cases x) auto

definition vec_at :: "'a list \<Rightarrow> nat \<Rightarrow> 'a res" where
  "vec_at xs i = (if i < length xs then Inr (xs ! i) else Inl Out_Of_Range)"

lemma vec_at_simps [simp]:
  "vec_at [] i = Inl Out_Of_Range"
  "vec_at (x # xs) 0 = Inr x"
  "vec_at (x # xs) (Suc i) = vec_at xs i"
  by (simp_all add: vec_at_def)

lemma vec_at_one [simp]: "vec_at (x # xs) 1 = vec_at xs 0"
  by (simp add: vec_at_def)

lemma take_length_self: "g = take n xs \<Longrightarrow> g = take (length g) xs"
  by (cases "n \<le> length xs") simp_all

section \<open>Integers\<close>

text \<open>The range of the target's \<open>int\<close>, a 32-bit two's complement integer.\<close>

definition is_int32 :: "int \<Rightarrow> bool" where
  "is_int32 n \<longleftrightarrow> - (2 ^ 31) \<le> n \<and> n < 2 ^ 31"

text \<open>The operator \<open>/\<close> on \<open>int\<close> rounds towards zero, where HOL's \<open>div\<close> rounds down; the
callers rule out a zero divisor.\<close>

definition cpp_div :: "int \<Rightarrow> int \<Rightarrow> int" where
  "cpp_div n d =
     (if 0 \<le> n then (if 0 \<le> d then n div d else - (n div (- d)))
      else if 0 \<le> d then - ((- n) div d) else (- n) div (- d))"

lemma cpp_div_nonneg [simp]:
  assumes "0 \<le> n" "0 < d"
  shows "cpp_div n d = n div d"
  using assms by (simp add: cpp_div_def)

text \<open>Decimal output, as \<open>operator<<\<close> prints an integer.\<close>

definition digit :: "nat \<Rightarrow> char" where
  "digit d = char_of (48 + d)"

definition is_digit :: "char \<Rightarrow> bool" where
  "is_digit c \<longleftrightarrow> 48 \<le> (of_char c :: nat) \<and> (of_char c :: nat) \<le> 57"

fun show_nat :: "nat \<Rightarrow> string" where
  "show_nat n = (if n < 10 then [digit n] else show_nat (n div 10) @ [digit (n mod 10)])"

declare show_nat.simps [simp del]

definition show_int :: "int \<Rightarrow> string" where
  "show_int n = (if n < 0 then CHR ''-'' # show_nat (nat (- n)) else show_nat (nat n))"

lemma digit_simps [simp]:
  "digit 0 = CHR ''0''" "digit (Suc 0) = CHR ''1''" "digit 2 = CHR ''2''" "digit 3 = CHR ''3''"
  "digit 4 = CHR ''4''" "digit 5 = CHR ''5''" "digit 6 = CHR ''6''" "digit 7 = CHR ''7''"
  "digit 8 = CHR ''8''" "digit 9 = CHR ''9''"
  by code_simp+

lemma of_char_digit: "d < 10 \<Longrightarrow> (of_char (digit d) :: nat) = 48 + d"
  by (simp add: digit_def)

lemma is_digit_digit [simp]: "d < 10 \<Longrightarrow> is_digit (digit d)"
  by (simp add: is_digit_def of_char_digit)

lemma show_nat_digits: "c \<in> set (show_nat n) \<Longrightarrow> is_digit c"
proof (induction n rule: show_nat.induct)
  case (1 n)
  then show ?case
    by (cases "n < 10") (auto simp: show_nat.simps [of n])
qed

lemma show_nat_nonempty [simp]: "show_nat n \<noteq> []"
  by (subst show_nat.simps) simp

lemma show_int_nonempty [simp]: "show_int n \<noteq> []"
  by (simp add: show_int_def)

lemma show_int_small [simp]:
  "show_int 0 = ''0''" "show_int 1 = ''1''" "show_int 2 = ''2''" "show_int 20 = ''20''"
  "show_int 21 = ''21''"
  by (simp_all add: show_int_def show_nat.simps)

lemma show_nat_hd: "0 < n \<Longrightarrow> hd (show_nat n) \<noteq> CHR ''0''"
proof (induction n rule: show_nat.induct)
  case (1 n)
  show ?case
  proof (cases "n < 10")
    case True
    then have "(of_char (digit n) :: nat) \<noteq> of_char CHR ''0''" using 1(2) by (simp add: of_char_digit)
    with True show ?thesis by (auto simp: show_nat.simps [of n])
  next
    case False
    then show ?thesis using 1 by (simp add: show_nat.simps [of n])
  qed
qed

lemma show_int_chars: "c \<in> set (show_int n) \<Longrightarrow> c = CHR ''-'' \<or> is_digit c"
  by (auto simp: show_int_def dest: show_nat_digits split: if_splits)

lemma show_int_no_delim:
  assumes "\<not> is_digit d" and "d \<noteq> CHR ''-''"
  shows "d \<notin> set (show_int n)"
  using assms show_int_chars by blast

text \<open>Decimal input, the inverse of the printer on its range.\<close>

definition digit_val :: "char \<Rightarrow> nat" where
  "digit_val c = of_char c - 48"

definition read_nat :: "string \<Rightarrow> nat" where
  "read_nat s = foldl (\<lambda>a c. 10 * a + digit_val c) 0 s"

lemma read_nat_snoc: "read_nat (s @ [c]) = 10 * read_nat s + digit_val c"
  by (simp add: read_nat_def)

lemma read_show_nat [simp]: "read_nat (show_nat n) = n"
proof (induction n rule: show_nat.induct)
  case (1 n)
  show ?case
  proof (cases "n < 10")
    case True
    then show ?thesis
      by (simp add: show_nat.simps [of n] read_nat_def digit_val_def of_char_digit)
  next
    case False
    then have "read_nat (show_nat (n div 10)) = n div 10" by (rule "1.IH")
    with False show ?thesis
      by (simp add: show_nat.simps [of n] read_nat_snoc digit_val_def of_char_digit)
  qed
qed

lemma show_nat_inject [simp]: "show_nat m = show_nat n \<longleftrightarrow> m = n"
  by (metis read_show_nat)

lemma show_int_inject [simp]: "show_int m = show_int n \<longleftrightarrow> m = n"
proof
  assume eq: "show_int m = show_int n"
  have minus: "show_nat k \<noteq> CHR ''-'' # s" for k s
    using show_nat_digits [of "CHR ''-''" k] by (auto simp: is_digit_def)
  from eq minus show "m = n"
    by (fastforce simp: show_int_def dest: sym split: if_splits)
qed simp

section \<open>Lists\<close>

lemma takeWhile_no_delim [simp]:
  "d \<notin> set a \<Longrightarrow> takeWhile (\<lambda>c. c \<noteq> d) (a @ d # b) = a"
  by (induction a) auto

lemma dropWhile_no_delim [simp]:
  "d \<notin> set a \<Longrightarrow> dropWhile (\<lambda>c. c \<noteq> d) (a @ d # b) = d # b"
  by (induction a) auto

lemma takeWhile_all_no_delim [simp]: "d \<notin> set a \<Longrightarrow> takeWhile (\<lambda>c. c \<noteq> d) a = a"
  by (induction a) auto

lemma dropWhile_all_no_delim [simp]: "d \<notin> set a \<Longrightarrow> dropWhile (\<lambda>c. c \<noteq> d) a = []"
  by (induction a) auto

lemma append_delim_eqD:
  assumes "a @ d # b = a' @ d # b'" and "d \<notin> set a" and "d \<notin> set a'"
  shows "a = a' \<and> b = b'"
proof -
  have "a = a'"
    using takeWhile_no_delim [OF assms(2), of b] takeWhile_no_delim [OF assms(3), of b'] assms(1)
    by simp
  with assms(1) show ?thesis by simp
qed

section \<open>C strings\<close>

text \<open>A \<open>char\<close> pointer is read up to its first NUL character.\<close>

definition NUL :: char where "NUL = CHR 0x00"

definition c_str :: "string \<Rightarrow> string" where
  "c_str s = takeWhile (\<lambda>c. c \<noteq> NUL) s"

lemma c_str_id [simp]: "NUL \<notin> set s \<Longrightarrow> c_str s = s"
  by (simp add: c_str_def)

lemma c_str_append [simp]: "NUL \<notin> set a \<Longrightarrow> c_str (a @ b) = a @ c_str b"
  by (induction a) (auto simp: c_str_def)

lemma c_str_NUL [simp]: "c_str (NUL # s) = []"
  by (simp add: c_str_def)

lemma c_str_no_nul [simp]: "NUL \<notin> set (c_str s)"
  by (auto simp: c_str_def dest: set_takeWhileD)

section \<open>Unordered maps as insertion histories\<close>

text \<open>
  \<open>boost::unordered_map\<close> is an association list with distinct keys in order of first
  insertion; the order in which the library iterates over it is a function of that
  history that the source cannot see (a parameter wherever the code iterates).
\<close>

fun map_put :: "'k \<Rightarrow> 'v \<Rightarrow> ('k \<times> 'v) list \<Rightarrow> ('k \<times> 'v) list" where
  "map_put k v [] = [(k, v)]"
| "map_put k v ((k', v') # xs) = (if k = k' then (k, v) # xs else (k', v') # map_put k v xs)"

lemma map_of_map_put [simp]: "map_of (map_put k v xs) = (map_of xs)(k \<mapsto> v)"
  by (induction xs) auto

lemma keys_map_put [simp]:
  "map fst (map_put k v xs) =
     (if k \<in> fst ` set xs then map fst xs else map fst xs @ [k])"
  by (induction xs) force+

lemma distinct_map_put: "distinct (map fst xs) \<Longrightarrow> distinct (map fst (map_put k v xs))"
  by auto

lemma set_map_put:
  "distinct (map fst xs) \<Longrightarrow>
   set (map_put k v xs) = insert (k, v) {e \<in> set xs. fst e \<noteq> k}"
proof (induction xs)
  case (Cons e xs)
  obtain k' v' where e: "e = (k', v')" by fastforce
  have other: "e' \<in> set xs \<Longrightarrow> fst e' \<noteq> k'" for e'
    using Cons.prems by (auto simp: e)
  show ?case
    using Cons other by (auto simp: e)
qed simp

text \<open>How many entries satisfy a predicate, and how a write changes that number.\<close>

definition count_vals :: "('v \<Rightarrow> bool) \<Rightarrow> ('k \<times> 'v) list \<Rightarrow> int" where
  "count_vals P xs = int (length (filter (\<lambda>e. P (snd e)) xs))"

lemma count_vals_Nil [simp]: "count_vals P [] = 0"
  by (simp add: count_vals_def)

lemma count_vals_Cons [simp]:
  "count_vals P (e # xs) = (if P (snd e) then 1 else 0) + count_vals P xs"
  by (simp add: count_vals_def)

lemma count_vals_nonneg [simp]: "0 \<le> count_vals P xs"
  by (simp add: count_vals_def)

lemma count_vals_ge_minus_one [simp]: "- 1 \<le> count_vals P xs"
  by (rule order_trans [OF _ count_vals_nonneg]) simp

lemma count_vals_put_new:
  "map_of xs k = None \<Longrightarrow>
   count_vals P (map_put k v xs) = count_vals P xs + (if P v then 1 else 0)"
  by (induction xs) (auto split: if_splits)

lemma count_vals_put_old:
  "map_of xs k = Some w \<Longrightarrow>
   count_vals P (map_put k v xs) =
     count_vals P xs + (if P v then 1 else 0) - (if P w then 1 else 0)"
  by (induction xs) (auto split: if_splits)

lemma count_vals_pos: "map_of xs k = Some v \<Longrightarrow> P v \<Longrightarrow> 1 \<le> count_vals P xs"
  by (induction xs) (auto split: if_splits)

lemma count_vals_0_iff: "count_vals P xs = 0 \<longleftrightarrow> (\<forall>e \<in> set xs. \<not> P (snd e))"
  by (auto simp: count_vals_def filter_empty_conv)

section \<open>Loops without an exit\<close>

text \<open>\<open>while (1) { usleep(...); }\<close> after \<open>n\<close> rounds.\<close>

partial_function (option) sleep_forever :: "nat \<Rightarrow> 'a option" where
  "sleep_forever n = sleep_forever (Suc n)"

lemma sleep_forever_None [simp]: "sleep_forever n = (None :: 'a option)"
proof (cases "sleep_forever n :: 'a option")
  case (Some y)
  show ?thesis
    using sleep_forever.raw_induct [where P = "\<lambda>n y. False", OF _ Some] by blast
qed simp

section \<open>Transition systems\<close>

inductive reach :: "('s \<Rightarrow> bool) \<Rightarrow> ('s \<Rightarrow> 's \<Rightarrow> bool) \<Rightarrow> 's \<Rightarrow> bool" for init step where
  reach_init: "init s \<Longrightarrow> reach init step s"
| reach_step: "reach init step s \<Longrightarrow> step s t \<Longrightarrow> reach init step t"

text \<open>
  The contract of an inductive invariant: it holds initially and every step keeps it. The
  client gets it in every reachable state and along every run.
\<close>

locale step_invariant =
  fixes init :: "'s \<Rightarrow> bool"
    and step :: "'s \<Rightarrow> 's \<Rightarrow> bool"
    and inv :: "'s \<Rightarrow> bool"
  assumes inv_init: "init s \<Longrightarrow> inv s"
    and inv_step: "inv s \<Longrightarrow> step s t \<Longrightarrow> inv t"
begin

lemma inv_reach: "reach init step s \<Longrightarrow> inv s"
  by (induction rule: reach.induct) (auto intro: inv_init inv_step)

lemma inv_run: "step\<^sup>*\<^sup>* s t \<Longrightarrow> inv s \<Longrightarrow> inv t"
  by (induction rule: rtranclp_induct) (auto intro: inv_step)

end

end
