(* ===== verification/Mesos_Messages.thy ===== *)
theory Mesos_Messages
  imports Ceph_Prelude
begin

text \<open>
  The protocol buffers of Mesos that the program builds and reads, with the fields it uses,
  and the calls it makes on its scheduler driver. An optional field that the code tests
  (\<open>has_data\<close>, \<open>has_labels\<close>, \<open>has_message\<close>) is an \<open>option\<close>.
\<close>

record Resource =
  r_name :: string
  r_role :: string
  r_scalar :: real

record Offer =
  o_id :: string
  o_hostname :: string
  o_slave_id :: string
  o_resources :: "Resource list"

record ExecutorInfo =
  ei_executor_id :: string
  ei_name :: string
  ei_uris :: "(string \<times> bool) list"   \<comment> \<open>value and whether it is marked executable\<close>
  ei_command :: string

type_synonym Labels = "(string \<times> string) list"

record TaskInfo =
  ti_name :: string
  ti_data :: "string option"
  ti_task_id :: string
  ti_slave_id :: string
  ti_executor :: ExecutorInfo
  ti_labels :: "Labels option"
  ti_resources :: "Resource list"

datatype task_state =
    TASK_STAGING | TASK_STARTING | TASK_RUNNING | TASK_FINISHED | TASK_FAILED | TASK_KILLED
  | TASK_LOST | TASK_ERROR

record TaskStatus =
  st_task_id :: string
  st_state :: task_state
  st_message :: "string option"

datatype driver_call =
    DeclineOffer string
  | DeclineOfferFor string real                  \<comment> \<open>with \<open>refuse_seconds\<close>\<close>
  | LaunchTasks string "TaskInfo list"
  | SendFrameworkMessage string string string    \<comment> \<open>executor, slave, data\<close>

text \<open>
  What the code uses of the Mesos resource library; \<open>Try::get\<close> on an error is a failure.
\<close>

record resources_lib =
  res_stringify :: "int \<Rightarrow> string"
  res_parse :: "string \<Rightarrow> string \<Rightarrow> Resource list res"      \<comment> \<open>text, default role\<close>
  res_flatten :: "Resource list \<Rightarrow> string \<Rightarrow> Resource list res"
  res_contains :: "Resource list \<Rightarrow> Resource list \<Rightarrow> bool"

text \<open>\<open>gethostname\<close> (return value and buffer) and \<open>gethostbyname\<close> with \<open>inet_ntoa\<close>.\<close>

record net_lib =
  net_gethostname :: "int \<times> string"
  net_gethostbyname :: "string \<Rightarrow> string option"

end
