(* ===== verification/String_Util.thy ===== *)
theory String_Util
  imports Ceph_Prelude
begin

text \<open>
  \<^verbatim>\<open>src/common/StringUtil.hpp\<close>: splitting at a delimiter (\<open>explode\<close>) and
  the test whether an IP address lies in a network (\<open>matchIPToCIDR\<close>).
  \<open>boost::lexical_cast\<close> is a parameter, a record of the two conversions the program uses;
  \<open>lexcast_ok\<close> states what its documentation promises.
\<close>

section \<open>Conversions between integers and text\<close>

record lexcast =
  lc_int :: "string \<Rightarrow> int option"   \<comment> \<open>\<open>lexical_cast<int>\<close>, \<open>None\<close> when it throws\<close>
  lc_str :: "int \<Rightarrow> string"          \<comment> \<open>\<open>lexical_cast<string>\<close> of an integer\<close>

definition lexcast_ok :: "lexcast \<Rightarrow> bool" where
  "lexcast_ok L \<longleftrightarrow>
     (\<forall>n. lc_str L n = show_int n) \<and>
     (\<forall>n. is_int32 n \<longrightarrow> lc_int L (show_int n) = Some n) \<and>
     (\<forall>s n. lc_int L s = Some n \<longrightarrow> is_int32 n)"

lemma lexcast_strD [text_simps]: "lexcast_ok L \<Longrightarrow> lc_str L n = show_int n"
  by (simp add: lexcast_ok_def)

lemma lexcast_intD [text_simps]: "lexcast_ok L \<Longrightarrow> is_int32 n \<Longrightarrow> lc_int L (show_int n) = Some n"
  by (simp add: lexcast_ok_def)

lemma lexcast_rangeD: "lexcast_ok L \<Longrightarrow> lc_int L s = Some n \<Longrightarrow> is_int32 n"
  by (auto simp: lexcast_ok_def)

definition lexical_cast_int :: "lexcast \<Rightarrow> string \<Rightarrow> int res" where
  "lexical_cast_int L s = of_option Bad_Lexical_Cast (lc_int L s)"

lemma lexical_cast_int_show [simp]:
  "lexcast_ok L \<Longrightarrow> is_int32 n \<Longrightarrow> lexical_cast_int L (show_int n) = Inr n"
  by (simp add: lexical_cast_int_def lexcast_intD)

text \<open>A concrete conversion that meets the contract: plain decimal.\<close>

definition read_int :: "string \<Rightarrow> int option" where
  "read_int s =
     (let neg = (s \<noteq> [] \<and> hd s = CHR ''-'');
          ds = (if neg then tl s else s);
          n = (if neg then - int (read_nat ds) else int (read_nat ds))
      in if ds \<noteq> [] \<and> list_all is_digit ds \<and> is_int32 n then Some n else None)"

definition dec_lexcast :: lexcast where
  "dec_lexcast = \<lparr>lc_int = read_int, lc_str = show_int\<rparr>"

lemma list_all_show_nat: "list_all is_digit (show_nat n)"
  using show_nat_digits by (auto simp: list_all_iff)

lemma hd_show_nat: "hd (show_nat n) \<noteq> CHR ''-''"
proof -
  have "is_digit (hd (show_nat n))" by (rule show_nat_digits [of _ n]) simp
  then show ?thesis by (auto simp: is_digit_def)
qed

lemma read_int_show: "is_int32 n \<Longrightarrow> read_int (show_int n) = Some n"
  by (cases "n < 0") (simp_all add: show_int_def read_int_def Let_def list_all_show_nat hd_show_nat)

lemma read_int_range: "read_int s = Some n \<Longrightarrow> is_int32 n"
  by (simp add: read_int_def Let_def split: if_splits)

lemma dec_lexcast_ok: "lexcast_ok dec_lexcast"
  by (auto simp: lexcast_ok_def dec_lexcast_def read_int_show dest: read_int_range)

section \<open>explode\<close>

text \<open>
  \<open>std::getline\<close> on a string stream: a token ends at the delimiter, which is consumed; the
  loop ends when nothing is left, so a trailing delimiter does not give an empty last token.
\<close>

function explode :: "string \<Rightarrow> char \<Rightarrow> string list" where
  "explode s d =
     (if s = [] then []
      else takeWhile (\<lambda>c. c \<noteq> d) s #
        (case dropWhile (\<lambda>c. c \<noteq> d) s of [] \<Rightarrow> [] | _ # rest \<Rightarrow> explode rest d))"
  by pat_completeness auto
termination
proof (relation "measure (\<lambda>(s, d). length s)", goal_cases)
  case (2 s d c rest)
  then show ?case
    using length_dropWhile_le [of "\<lambda>c. c \<noteq> d" s] by simp
qed simp

declare explode.simps [simp del]

text \<open>The second overload copies every token into a C string.\<close>

definition explode_chars :: "string \<Rightarrow> char \<Rightarrow> string list" where
  "explode_chars s d = map c_str (explode s d)"

lemma explode_Nil [simp, text_simps]: "explode [] d = []"
  by (simp add: explode.simps)

lemma explode_eq_Nil [simp]: "explode s d = [] \<longleftrightarrow> s = []"
  by (subst explode.simps) simp

lemma explode_single [text_simps]: "s \<noteq> [] \<Longrightarrow> d \<notin> set s \<Longrightarrow> explode s d = [s]"
  by (subst explode.simps) simp

lemma explode_delim [text_simps]:
  "d \<notin> set a \<Longrightarrow> explode (a @ d # b) d = a # explode b d"
  by (subst explode.simps) simp

lemma explode_no_delim: "t \<in> set (explode s d) \<Longrightarrow> d \<notin> set t"
proof (induction s d rule: explode.induct)
  case (1 s d)
  have tw: "d \<notin> set (takeWhile (\<lambda>c. c \<noteq> d) s)"
    by (auto dest: set_takeWhileD)
  from 1 tw show ?case
    by (auto simp: explode.simps [of s d] dest: sym split: if_splits list.splits)
qed

subsection \<open>The inverse: joining tokens\<close>

fun join :: "char \<Rightarrow> string list \<Rightarrow> string" where
  "join d [] = []"
| "join d [t] = t"
| "join d (t # ts) = t @ d # join d ts"

definition wf_tokens :: "char \<Rightarrow> string list \<Rightarrow> bool" where
  "wf_tokens d ts \<longleftrightarrow> (ts \<noteq> [] \<longrightarrow> last ts \<noteq> []) \<and> (\<forall>t \<in> set ts. d \<notin> set t)"

lemma explode_join: "wf_tokens d ts \<Longrightarrow> explode (join d ts) d = ts"
  by (induction d ts rule: join.induct)
     (auto simp: wf_tokens_def explode_single explode_delim)

lemma join_Cons: "ts \<noteq> [] \<Longrightarrow> join d (t # ts) = t @ d # join d ts"
  by (cases ts) auto

text \<open>Nothing but one trailing delimiter is lost.\<close>

lemma join_explode:
  "join d (explode s d) @ (if s \<noteq> [] \<and> last s = d then [d] else []) = s"
proof (induction s d rule: explode.induct)
  case (1 s d)
  let ?t = "takeWhile (\<lambda>c. c \<noteq> d) s"
  show ?case
  proof (cases "dropWhile (\<lambda>c. c \<noteq> d) s")
    case Nil
    then have all: "d \<notin> set s" by auto
    then have "s \<noteq> [] \<Longrightarrow> last s \<noteq> d" using last_in_set by metis
    with all show ?thesis by (cases "s = []") (simp_all add: explode_single)
  next
    case (Cons c rest)
    then have "c = d" using hd_dropWhile [of "\<lambda>c. c \<noteq> d" s] by auto
    have s: "s = ?t @ d # rest"
      using takeWhile_dropWhile_id [of "\<lambda>c. c \<noteq> d" s] Cons \<open>c = d\<close> by simp
    have ne: "s \<noteq> []" using s by (cases s) auto
    have IH: "join d (explode rest d) @ (if rest \<noteq> [] \<and> last rest = d then [d] else []) = rest"
      using "1.IH" [OF ne Cons] .
    have ex: "explode s d = ?t # explode rest d"
      using ne Cons by (simp add: explode.simps [of s d])
    show ?thesis
    proof (cases "rest = []")
      case True
      then have "last s = d" using s by (metis last_snoc)
      with True ex ne s show ?thesis by simp
    next
      case False
      then have "last s = last rest" using s by (metis last_ConsR last_appendR list.distinct(1))
      moreover have "join d (explode s d) = ?t @ d # join d (explode rest d)"
        using False ex by (simp add: join_Cons)
      ultimately show ?thesis using False IH ne s by simp
    qed
  qed
qed

text \<open>
  What a reader of a delimited message relies on: the writer joined well-formed tokens, and
  splitting gives them back. The program uses such formats with the delimiters
  \<open>.\<close>, \<open>:\<close>, \<open>,\<close> and \<open>/\<close>.
\<close>

locale delimited_format =
  fixes split :: "string \<Rightarrow> string list"
    and glue :: "string list \<Rightarrow> string"
    and wf :: "string list \<Rightarrow> bool"
  assumes split_glue: "wf ts \<Longrightarrow> split (glue ts) = ts"
begin

lemma glue_inject: "wf a \<Longrightarrow> wf b \<Longrightarrow> glue a = glue b \<longleftrightarrow> a = b"
  by (metis split_glue)

lemma field_at: "wf ts \<Longrightarrow> i < length ts \<Longrightarrow> vec_at (split (glue ts)) i = Inr (ts ! i)"
  by (simp add: split_glue vec_at_def)

lemma field_missing: "wf ts \<Longrightarrow> length ts \<le> i \<Longrightarrow> vec_at (split (glue ts)) i = Inl Out_Of_Range"
  by (simp add: split_glue vec_at_def)

end

interpretation dot: delimited_format "\<lambda>s. explode s CHR ''.''" "join CHR ''.''" "wf_tokens CHR ''.''"
  by unfold_locales (rule explode_join)

interpretation slash: delimited_format "\<lambda>s. explode s CHR ''/''" "join CHR ''/''" "wf_tokens CHR ''/''"
  by unfold_locales (rule explode_join)

interpretation comma: delimited_format "\<lambda>s. explode s CHR '',''" "join CHR '',''" "wf_tokens CHR '',''"
  by unfold_locales (rule explode_join)

interpretation colon: delimited_format "\<lambda>s. explode s CHR '':''" "join CHR '':''" "wf_tokens CHR '':''"
  by unfold_locales (rule explode_join)

section \<open>matchIPToCIDR\<close>

fun match_loop :: "string list \<Rightarrow> string list \<Rightarrow> nat list \<Rightarrow> bool res" where
  "match_loop ipTokens subnetTokens [] = Inr True"
| "match_loop ipTokens subnetTokens (i # is) =
     bind_res (vec_at ipTokens i) (\<lambda>a.
     bind_res (vec_at subnetTokens i) (\<lambda>b.
       if a \<noteq> b then Inr False else match_loop ipTokens subnetTokens is))"

definition matchIPToCIDR :: "lexcast \<Rightarrow> string \<Rightarrow> string \<Rightarrow> bool res" where
  "matchIPToCIDR L ip CIDR =
     (let ipTokens = explode ip CHR ''.'';
          tmpTokens = explode CIDR CHR ''/''
      in bind_res (vec_at tmpTokens 0) (\<lambda>subnet.
           let subnetTokens = explode subnet CHR ''.''
           in bind_res (vec_at tmpTokens 1) (\<lambda>len.
              bind_res (lexical_cast_int L len) (\<lambda>netmaskLength.
                match_loop ipTokens subnetTokens [0..<nat (cpp_div netmaskLength 8)]))))"

lemma match_loop_from:
  "k \<le> length xs \<Longrightarrow> k \<le> length ys \<Longrightarrow> j \<le> k \<Longrightarrow>
   match_loop xs ys [j..<k] = Inr (take (k - j) (drop j xs) = take (k - j) (drop j ys))"
proof (induction "k - j" arbitrary: j)
  case 0
  then show ?case by simp
next
  case (Suc n)
  then have lt: "j < k" by simp
  have "drop j xs = xs ! j # drop (Suc j) xs" and "drop j ys = ys ! j # drop (Suc j) ys"
    using lt Suc.prems by (simp_all add: Cons_nth_drop_Suc)
  moreover have "k - j = Suc (k - Suc j)" using lt by simp
  ultimately show ?case
    using Suc.hyps(1) [of "Suc j"] Suc.hyps(2) Suc.prems lt
    by (simp add: upt_conv_Cons vec_at_def)
qed

text \<open>IPv4 addresses: four octets, their dotted notation and their value.\<close>

definition octets :: "nat list \<Rightarrow> bool" where
  "octets xs \<longleftrightarrow> length xs = 4 \<and> (\<forall>x \<in> set xs. x < 256)"

definition dotted :: "nat list \<Rightarrow> string" where
  "dotted xs = join CHR ''.'' (map show_nat xs)"

definition addr_val :: "nat list \<Rightarrow> nat" where
  "addr_val xs = foldl (\<lambda>a x. 256 * a + x) 0 xs"

lemma addr_val_append: "addr_val (xs @ ys) = addr_val xs * 256 ^ length ys + addr_val ys"
proof (induction ys rule: rev_induct)
  case (snoc y ys)
  then show ?case
    by (simp add: addr_val_def algebra_simps flip: append_assoc)
qed (simp add: addr_val_def)

lemma addr_val_less: "\<forall>x \<in> set xs. x < 256 \<Longrightarrow> addr_val xs < 256 ^ length xs"
  by (induction xs rule: rev_induct) (auto simp: addr_val_def)

lemma addr_val_inject:
  "length xs = length ys \<Longrightarrow> \<forall>x \<in> set xs. x < 256 \<Longrightarrow> \<forall>y \<in> set ys. y < 256 \<Longrightarrow>
   addr_val xs = addr_val ys \<Longrightarrow> xs = ys"
proof (induction xs arbitrary: ys rule: rev_induct)
  case (snoc x xs)
  then obtain y zs where ys: "ys = zs @ [y]"
    by (metis length_0_conv rev_exhaust snoc_eq_iff_butlast)
  have "256 * addr_val xs + x = 256 * addr_val zs + y"
    using snoc.prems(4) by (simp add: ys addr_val_def)
  moreover have lt: "x < 256" "y < 256" using snoc.prems by (simp_all add: ys)
  ultimately have "x = y"
    by (metis mod_less mod_mult_self4)
  moreover from this \<open>256 * addr_val xs + x = 256 * addr_val zs + y\<close>
  have "addr_val xs = addr_val zs" by simp
  ultimately show ?case
    using snoc.IH [of zs] snoc.prems ys by simp
qed simp

lemma addr_val_prefix:
  assumes "\<forall>x \<in> set xs. x < 256" and "k \<le> length xs"
  shows "addr_val xs div 256 ^ (length xs - k) = addr_val (take k xs)"
proof -
  have len: "length (drop k xs) = length xs - k" by simp
  have "addr_val (drop k xs) < 256 ^ (length xs - k)"
    using addr_val_less [of "drop k xs"] assms(1) len by (auto dest: in_set_dropD)
  moreover have "addr_val xs = addr_val (take k xs) * 256 ^ (length xs - k) + addr_val (drop k xs)"
    using addr_val_append [of "take k xs" "drop k xs"] len by simp
  ultimately show ?thesis by simp
qed

lemma show_nat_wf: "\<not> is_digit d \<Longrightarrow> wf_tokens d (map show_nat xs)"
  by (cases xs rule: rev_exhaust) (auto simp: wf_tokens_def dest: show_nat_digits)

lemma set_join: "set (join d ts) \<subseteq> insert d (\<Union> (set ` set ts))"
  by (induction d ts rule: join.induct) auto

lemma dotted_no_slash: "CHR ''/'' \<notin> set (dotted xs)"
  using set_join [of "CHR ''.''" "map show_nat xs"]
  by (auto simp: dotted_def is_digit_def dest!: show_nat_digits)

lemma dotted_tokens: "explode (dotted xs) CHR ''.'' = map show_nat xs"
  unfolding dotted_def by (rule explode_join) (simp add: show_nat_wf is_digit_def)

lemma matchIPToCIDR_dotted:
  assumes "lexcast_ok L" and "is_int32 len"
  shows "matchIPToCIDR L (dotted xs) (dotted ys @ CHR ''/'' # show_int len) =
         match_loop (map show_nat xs) (map show_nat ys) [0..<nat (cpp_div len 8)]"
proof -
  have noslash: "CHR ''/'' \<notin> set (show_int len)"
    by (rule show_int_no_delim) (simp_all add: is_digit_def)
  show ?thesis
    using assms noslash
    by (simp add: matchIPToCIDR_def explode_delim explode_single dotted_no_slash dotted_tokens)
qed

lemma prefix_eq_iff:
  assumes "octets xs" and "octets ys" and "k \<le> 4"
  shows "take k (map show_nat xs) = take k (map show_nat ys) \<longleftrightarrow>
         addr_val xs div 2 ^ (32 - 8 * k) = addr_val ys div 2 ^ (32 - 8 * k)"
proof -
  have l: "length xs = 4" "length ys = 4" and b: "\<forall>x \<in> set xs. x < 256" "\<forall>y \<in> set ys. y < 256"
    using assms by (simp_all add: octets_def)
  have pow: "(2::nat) ^ (32 - 8 * k) = 256 ^ (4 - k)"
  proof -
    have "32 - 8 * k = 8 * (4 - k)" by simp
    then show ?thesis by (simp only: power_mult) simp
  qed
  have "take k (map show_nat xs) = take k (map show_nat ys) \<longleftrightarrow> take k xs = take k ys"
    by (simp add: take_map inj_map_eq_map inj_def)
  also have "\<dots> \<longleftrightarrow> addr_val (take k xs) = addr_val (take k ys)"
    using addr_val_inject [of "take k xs" "take k ys"] b l by (auto dest: in_set_takeD)
  also have "\<dots> \<longleftrightarrow> addr_val xs div 256 ^ (4 - k) = addr_val ys div 256 ^ (4 - k)"
    using addr_val_prefix [OF b(1), of k] addr_val_prefix [OF b(2), of k] l assms(3) by simp
  finally show ?thesis by (simp only: pow)
qed

section \<open>Results\<close>

text \<open>
  C38: On dotted IPv4 addresses \<open>matchIPToCIDR\<close> compares the two addresses up to the last
  full octet of the prefix: for a prefix length that is a multiple of eight this is membership
  in the network, otherwise the remaining bits of the prefix are not looked at.
\<close>

theorem matchIPToCIDR_prefix:
  assumes "lexcast_ok L" and "octets ip" and "octets net" and "0 \<le> len" and "len \<le> 32"
  shows "matchIPToCIDR L (dotted ip) (dotted net @ CHR ''/'' # show_int len) =
    Inr (addr_val ip div 2 ^ (32 - 8 * nat (len div 8)) = addr_val net div 2 ^ (32 - 8 * nat (len div 8)))"
proof -
  have k: "nat (cpp_div len 8) = nat (len div 8)" "nat (len div 8) \<le> 4"
    using assms(4,5) by (simp_all add: cpp_div_nonneg)
  have "is_int32 len" using assms(4,5) by (simp add: is_int32_def)
  then show ?thesis
    using matchIPToCIDR_dotted [OF assms(1), of len ip net] k assms(2,3)
      match_loop_from [of "nat (len div 8)" "map show_nat ip" "map show_nat net" 0]
      prefix_eq_iff [OF assms(2,3) k(2)]
    by (simp add: octets_def)
qed

theorem matchIPToCIDR_prefix_witness:
  "matchIPToCIDR dec_lexcast (dotted [10, 0, 31, 5]) (dotted [10, 0, 16, 0] @ CHR ''/'' # show_int 20) = Inr True \<and>
   matchIPToCIDR dec_lexcast (dotted [10, 0, 240, 5]) (dotted [10, 0, 16, 0] @ CHR ''/'' # show_int 20) = Inr True \<and>
   matchIPToCIDR dec_lexcast (dotted [10, 1, 31, 5]) (dotted [10, 0, 16, 0] @ CHR ''/'' # show_int 20) = Inr False"
  using matchIPToCIDR_prefix [OF dec_lexcast_ok, of "[10, 0, 31, 5]" "[10, 0, 16, 0]" 20]
    matchIPToCIDR_prefix [OF dec_lexcast_ok, of "[10, 0, 240, 5]" "[10, 0, 16, 0]" 20]
    matchIPToCIDR_prefix [OF dec_lexcast_ok, of "[10, 1, 31, 5]" "[10, 0, 16, 0]" 20]
  by (simp add: octets_def addr_val_def)

text \<open>
  Splitting gives back the tokens that were joined when none contains the delimiter and
  the last one is not empty; and joining the tokens of any text gives back the text up to one
  delimiter at its end.
\<close>

lemma explode_round_trip:
  "(wf_tokens d ts \<longrightarrow> explode (join d ts) d = ts) \<and>
   join d (explode s d) @ (if s \<noteq> [] \<and> last s = d then [d] else []) = s"
  using explode_join join_explode by blast

end
