(* ===== verification/Task_State.thy ===== *)
theory Task_State
  imports String_Util
begin

text \<open>
  The enumerations and value classes the components exchange:
  \<^verbatim>\<open>src/common/TaskType.hpp\<close>, \<^verbatim>\<open>src/common/FrameworkMessage.hpp\<close>,
  \<^verbatim>\<open>src/state/Status.hpp\<close>, \<^verbatim>\<open>src/state/Phase.hpp\<close> and
  \<^verbatim>\<open>src/state/TaskState.hpp\<close>.
\<close>

section \<open>Enumerations\<close>

datatype TaskType = MON | OSD | RADOSGW

datatype Status =
  STAGING | WAITING_OSDID | STARTING | RUNNING | FAILED | FINISHED | UNKNOWN

datatype Phase =
  RECONCILING_TASKS | BOOTSTRAP_MON | BOOTSTRAP_OSD | BOOTSTRAP_RADOSGW | WAINTING_REQUEST

datatype MessageToScheduler = WAITING_FOR_OSD_NUM | CONSUMED_OSD_ID | DISK_READY

datatype MessageToExecutor = REGISTER_OSD | LAUNCH_OSD

text \<open>\<open>static_cast<int>\<close> of the enumerators.\<close>

fun taskType_int :: "TaskType \<Rightarrow> int" where
  "taskType_int MON = 0"
| "taskType_int OSD = 1"
| "taskType_int RADOSGW = 2"

fun phase_int :: "Phase \<Rightarrow> int" where
  "phase_int RECONCILING_TASKS = 0"
| "phase_int BOOTSTRAP_MON = 1"
| "phase_int BOOTSTRAP_OSD = 2"
| "phase_int BOOTSTRAP_RADOSGW = 3"
| "phase_int WAINTING_REQUEST = 4"

fun toScheduler_int :: "MessageToScheduler \<Rightarrow> int" where
  "toScheduler_int WAITING_FOR_OSD_NUM = 0"
| "toScheduler_int CONSUMED_OSD_ID = 1"
| "toScheduler_int DISK_READY = 2"

fun toExecutor_int :: "MessageToExecutor \<Rightarrow> int" where
  "toExecutor_int REGISTER_OSD = 20"
| "toExecutor_int LAUNCH_OSD = 21"

lemma toScheduler_int_inject [simp]: "toScheduler_int a = toScheduler_int b \<longleftrightarrow> a = b"
  by (cases a; cases b) simp_all

lemma toExecutor_int_inject [simp]: "toExecutor_int a = toExecutor_int b \<longleftrightarrow> a = b"
  by (cases a; cases b) simp_all

lemma taskType_int32 [simp]: "is_int32 (taskType_int t)"
  by (cases t) (simp_all add: is_int32_def)

lemma toScheduler_int32 [simp]: "is_int32 (toScheduler_int m)"
  by (cases m) (simp_all add: is_int32_def)

lemma toExecutor_int32 [simp]: "is_int32 (toExecutor_int m)"
  by (cases m) (simp_all add: is_int32_def)

lemma phase_int_inject [simp]: "phase_int a = phase_int b \<longleftrightarrow> a = b"
  by (cases a; cases b) simp_all

text \<open>Phases are ordered as the underlying \<open>int\<close> is.\<close>

instantiation Phase :: linorder
begin

definition less_eq_Phase :: "Phase \<Rightarrow> Phase \<Rightarrow> bool" where
  "less_eq_Phase a b \<longleftrightarrow> phase_int a \<le> phase_int b"

definition less_Phase :: "Phase \<Rightarrow> Phase \<Rightarrow> bool" where
  "less_Phase a b \<longleftrightarrow> phase_int a < phase_int b"

instance
  by standard (auto simp: less_eq_Phase_def less_Phase_def)

end

section \<open>Label keys\<close>

definition mgmtdevKey :: string where "mgmtdevKey = ''mgmtdev''"
definition datadevKey :: string where "datadevKey = ''datadev''"
definition osddevsKey :: string where "osddevsKey = ''osddevs''"
definition jnldevsKey :: string where "jnldevsKey = ''jnldevs''"
definition jnlPartitionCountKey :: string where "jnlPartitionCountKey = ''jnlpartitioncount''"

lemmas label_keys =
  mgmtdevKey_def datadevKey_def osddevsKey_def jnldevsKey_def jnlPartitionCountKey_def

section \<open>TaskState\<close>

record TaskState =
  taskId :: string
  executorId :: string
  taskType :: TaskType
  hostName :: string
  slaveId :: string
  currentStatus :: Status

text \<open>
  The default constructor leaves the two enumerators indeterminate; the model takes their
  values as arguments.
\<close>

definition TaskState_default :: "TaskType \<Rightarrow> Status \<Rightarrow> TaskState" where
  "TaskState_default ty st =
     \<lparr>taskId = [], executorId = [], taskType = ty, hostName = [], slaveId = [], currentStatus = st\<rparr>"

definition TaskState_new ::
  "string \<Rightarrow> string \<Rightarrow> TaskType \<Rightarrow> string \<Rightarrow> string \<Rightarrow> Status \<Rightarrow> TaskState" where
  "TaskState_new tid eid ty host sid st =
     \<lparr>taskId = tid, executorId = eid, taskType = ty, hostName = host, slaveId = sid,
      currentStatus = st\<rparr>"

fun taskType_name :: "TaskType \<Rightarrow> string" where
  "taskType_name MON = ''MON''"
| "taskType_name OSD = ''OSD''"
| "taskType_name RADOSGW = ''RADOSGW''"

fun status_name :: "Status \<Rightarrow> string" where
  "status_name STAGING = ''STAGING''"
| "status_name WAITING_OSDID = ''WAITING_OSDID''"
| "status_name STARTING = ''STARTING''"
| "status_name RUNNING = ''RUNNING''"
| "status_name FAILED = ''FAILED''"
| "status_name FINISHED = ''FINISHED''"
| "status_name UNKNOWN = ''UNKNOWN''"

definition TaskState_toString :: "TaskState \<Rightarrow> string" where
  "TaskState_toString t =
     ''taskId: '' @ taskId t
     @ '', executorId: '' @ executorId t
     @ '', taskType: '' @ taskType_name (taskType t)
     @ '', hostName: '' @ hostName t
     @ '', slaveId: '' @ slaveId t
     @ '', currentStatus: '' @ status_name (currentStatus t)"

lemma TaskState_new_sel [simp]:
  "taskId (TaskState_new tid eid ty host sid st) = tid"
  "executorId (TaskState_new tid eid ty host sid st) = eid"
  "taskType (TaskState_new tid eid ty host sid st) = ty"
  "hostName (TaskState_new tid eid ty host sid st) = host"
  "slaveId (TaskState_new tid eid ty host sid st) = sid"
  "currentStatus (TaskState_new tid eid ty host sid st) = st"
  by (simp_all add: TaskState_new_def)

end
