(* ===== verification/Config_File.thy ===== *)
theory Config_File
  imports Ceph_Prelude
begin

text \<open>
  \<^verbatim>\<open>src/common/Config.hpp\<close> and \<^verbatim>\<open>src/common/Config.cpp\<close>: the configuration
  record, the YAML file of the framework, the per-host files and how they are merged.
  The YAML library, the command line flags after parsing and the file system are
  parameters, the record \<open>config_env\<close>.
\<close>

section \<open>Data\<close>

record Config =
  cfg_id :: string
  cfg_role :: string
  cfg_master :: string
  cfg_zookeeper :: string
  cfg_restport :: int
  cfg_fileport :: int
  cfg_fileroot :: string
  cfg_mgmtdev :: string
  cfg_datadev :: string
  cfg_osddevs :: "string list"
  cfg_jnldevs :: "string list"
  cfg_jnlparts :: int

record Flags =
  FLAGS_config :: string
  FLAGS_id :: string
  FLAGS_role :: string
  FLAGS_master :: string
  FLAGS_zookeeper :: string
  FLAGS_restport :: int
  FLAGS_fileport :: int
  FLAGS_jnlparts :: int
  FLAGS_fileroot :: string

text \<open>The values the flags have when the command line sets none.\<close>

definition default_flags :: Flags where
  "default_flags =
     \<lparr>FLAGS_config = ''/etc/cephmesos/cephmesos.yml'', FLAGS_id = [], FLAGS_role = [],
      FLAGS_master = [], FLAGS_zookeeper = [], FLAGS_restport = 0, FLAGS_fileport = 0,
      FLAGS_jnlparts = 4, FLAGS_fileroot = []\<rparr>"

text \<open>
  What the code uses of yaml-cpp: \<open>YAML::Load\<close>, \<open>Node::operator[]\<close> (which may
  throw, and otherwise gives a node that is defined or not) and the three conversions.
\<close>

record 'y yaml_lib =
  y_load :: "string \<Rightarrow> 'y option"
  y_index :: "'y \<Rightarrow> string \<Rightarrow> 'y option res"
  y_string :: "'y \<Rightarrow> string option"
  y_int :: "'y \<Rightarrow> int option"
  y_strings :: "'y \<Rightarrow> string list option"

record 'y config_env =
  ce_flags :: Flags
  ce_yaml :: "'y yaml_lib"
  ce_file :: "string \<Rightarrow> string option"   \<comment> \<open>contents of the files that can be opened\<close>

definition hostConfigFolder :: string where "hostConfigFolder = ''cephmesos.d''"

section \<open>Strings\<close>

text \<open>\<open>std::string::find\<close> of a substring and \<open>find_last_of\<close> of a character.\<close>

fun has_sub :: "string \<Rightarrow> string \<Rightarrow> bool" where
  "has_sub pat [] \<longleftrightarrow> pat = []"
| "has_sub pat (c # s) \<longleftrightarrow> take (length pat) (c # s) = pat \<or> has_sub pat s"

definition find_last_of :: "string \<Rightarrow> char \<Rightarrow> int" where
  "find_last_of s c =
     (if c \<in> set s then int (length s) - 1 - int (length (takeWhile (\<lambda>x. x \<noteq> c) (rev s))) else - 1)"

lemma has_sub_append: "has_sub pat (a @ pat @ b)"
proof (induction a)
  case Nil
  have "take (length pat) (pat @ b) = pat" by simp
  then show ?case by (cases "pat @ b") auto
qed simp

section \<open>Operations\<close>

definition is_host_config :: "string \<Rightarrow> bool" where
  "is_host_config filename = has_sub hostConfigFolder filename"

definition get_file_contents :: "'y config_env \<Rightarrow> string \<Rightarrow> string res" where
  "get_file_contents E filename =
     (case ce_file E filename of
        Some contents \<Rightarrow> Inr contents
      | None \<Rightarrow>
          if \<not> is_host_config filename
          then Inl (Invalid_Argument ''Default YAML config file does not exist.'')
          else Inr [])"

definition get_config_path_by_hostname :: "'y config_env \<Rightarrow> string \<Rightarrow> string" where
  "get_config_path_by_hostname E hostname =
     (let cfgfile = FLAGS_config (ce_flags E);
          pathIndex = find_last_of cfgfile CHR ''/'';
          path = (if pathIndex \<noteq> - 1 then take (nat pathIndex) cfgfile @ ''/'' else [])
      in path @ hostConfigFolder @ ''/'' @ hostname @ ''.yml'')"

text \<open>\<open>config[key] ? config[key].as<T>() : dflt\<close>\<close>

definition yaml_get :: "'y yaml_lib \<Rightarrow> ('y \<Rightarrow> 'a option) \<Rightarrow> 'y \<Rightarrow> string \<Rightarrow> 'a \<Rightarrow> 'a res" where
  "yaml_get Y conv node key dflt =
     bind_res (y_index Y node key) (\<lambda>v.
       case v of None \<Rightarrow> Inr dflt | Some n \<Rightarrow> of_option Yaml_Exception (conv n))"

definition parse_config_string :: "'y config_env \<Rightarrow> string \<Rightarrow> Config res" where
  "parse_config_string E input =
     (let Y = ce_yaml E; F = ce_flags E
      in bind_res (of_option Yaml_Exception (y_load Y input)) (\<lambda>config.
         bind_res (yaml_get Y (y_string Y) config ''id'' (FLAGS_id F)) (\<lambda>id'.
         bind_res (yaml_get Y (y_string Y) config ''role'' (FLAGS_role F)) (\<lambda>role.
         bind_res (yaml_get Y (y_string Y) config ''master'' (FLAGS_master F)) (\<lambda>master.
         bind_res (yaml_get Y (y_string Y) config ''zookeeper'' (FLAGS_zookeeper F)) (\<lambda>zookeeper.
         bind_res (yaml_get Y (y_int Y) config ''restport'' (FLAGS_restport F)) (\<lambda>restport.
         bind_res (yaml_get Y (y_int Y) config ''fileport'' (FLAGS_fileport F)) (\<lambda>fileport.
         bind_res (yaml_get Y (y_string Y) config ''fileroot'' (FLAGS_fileroot F)) (\<lambda>fileroot.
         bind_res (yaml_get Y (y_string Y) config ''mgmtdev'' []) (\<lambda>mgmtdev.
         bind_res (yaml_get Y (y_string Y) config ''datadev'' []) (\<lambda>datadev.
         bind_res (yaml_get Y (y_strings Y) config ''osddevs'' []) (\<lambda>osddevs.
         bind_res (yaml_get Y (y_strings Y) config ''jnldevs'' []) (\<lambda>jnldevs.
         bind_res (yaml_get Y (y_int Y) config ''jnlparts'' (FLAGS_jnlparts F)) (\<lambda>jnlparts.
           Inr \<lparr>cfg_id = id', cfg_role = role, cfg_master = master, cfg_zookeeper = zookeeper,
                cfg_restport = restport, cfg_fileport = fileport, cfg_fileroot = fileroot,
                cfg_mgmtdev = mgmtdev, cfg_datadev = datadev, cfg_osddevs = osddevs,
                cfg_jnldevs = jnldevs, cfg_jnlparts = jnlparts\<rparr>))))))))))))))"

definition merge_config :: "Flags \<Rightarrow> Config \<Rightarrow> Config \<Rightarrow> Config" where
  "merge_config F defaultConfig hostConfig =
     \<lparr>cfg_id = FLAGS_id F,
      cfg_role = FLAGS_role F,
      cfg_master = FLAGS_master F,
      cfg_zookeeper = FLAGS_zookeeper F,
      cfg_restport = FLAGS_restport F,
      cfg_fileport = FLAGS_fileport F,
      cfg_fileroot = FLAGS_fileroot F,
      cfg_mgmtdev = (if cfg_mgmtdev hostConfig = [] then cfg_mgmtdev defaultConfig else cfg_mgmtdev hostConfig),
      cfg_datadev = (if cfg_datadev hostConfig = [] then cfg_datadev defaultConfig else cfg_datadev hostConfig),
      cfg_osddevs = (if cfg_osddevs hostConfig = [] then cfg_osddevs defaultConfig else cfg_osddevs hostConfig),
      cfg_jnldevs = (if cfg_jnldevs hostConfig = [] then cfg_jnldevs defaultConfig else cfg_jnldevs hostConfig),
      cfg_jnlparts = (if cfg_jnlparts hostConfig = 4 then cfg_jnlparts defaultConfig else cfg_jnlparts hostConfig)\<rparr>"

text \<open>The command line wins over the file; required fields must not be empty.\<close>

definition override_config :: "Flags \<Rightarrow> Config \<Rightarrow> Config" where
  "override_config F config =
     \<lparr>cfg_id = (if FLAGS_id F = [] then cfg_id config else FLAGS_id F),
      cfg_role = (if FLAGS_role F = [] then cfg_role config else FLAGS_role F),
      cfg_master = (if FLAGS_master F = [] then cfg_master config else FLAGS_master F),
      cfg_zookeeper = (if FLAGS_zookeeper F = [] then cfg_zookeeper config else FLAGS_zookeeper F),
      cfg_restport = (if FLAGS_restport F = 0 then cfg_restport config else FLAGS_restport F),
      cfg_fileport = (if FLAGS_fileport F = 0 then cfg_fileport config else FLAGS_fileport F),
      cfg_fileroot = (if FLAGS_fileroot F = [] then cfg_fileroot config else FLAGS_fileroot F),
      cfg_mgmtdev = cfg_mgmtdev config,
      cfg_datadev = cfg_datadev config,
      cfg_osddevs = cfg_osddevs config,
      cfg_jnldevs = cfg_jnldevs config,
      cfg_jnlparts = (if FLAGS_jnlparts F = 4 then cfg_jnlparts config else FLAGS_jnlparts F)\<rparr>"

definition config_incomplete :: "Config \<Rightarrow> bool" where
  "config_incomplete cfg \<longleftrightarrow>
     cfg_id cfg = [] \<or> cfg_role cfg = [] \<or> cfg_master cfg = [] \<or> cfg_zookeeper cfg = [] \<or>
     cfg_restport cfg = 0 \<or> cfg_fileport cfg = 0 \<or> cfg_fileroot cfg = []"

definition get_config :: "'y config_env \<Rightarrow> Config res" where
  "get_config E =
     bind_res (get_file_contents E (c_str (FLAGS_config (ce_flags E)))) (\<lambda>input.
     bind_res (parse_config_string E input) (\<lambda>config.
       let cfg = override_config (ce_flags E) config
       in if config_incomplete cfg
          then Inl (Invalid_Argument ''Invalid value in default YAML config file.'')
          else Inr cfg))"

definition get_config_by_hostname :: "'y config_env \<Rightarrow> string \<Rightarrow> Config res" where
  "get_config_by_hostname E hostname =
     bind_res (get_file_contents E (c_str (FLAGS_config (ce_flags E)))) (\<lambda>defaultContents.
     bind_res (parse_config_string E defaultContents) (\<lambda>defaultConfig.
     bind_res (get_file_contents E (c_str (get_config_path_by_hostname E hostname))) (\<lambda>hostContents.
     bind_res (parse_config_string E hostContents) (\<lambda>hostConfig.
       Inr (merge_config (ce_flags E) defaultConfig hostConfig)))))"

section \<open>Properties\<close>

lemma host_path_is_host_config:
  assumes "NUL \<notin> set (FLAGS_config (ce_flags E))" and "NUL \<notin> set hostname"
  shows "is_host_config (c_str (get_config_path_by_hostname E hostname))"
proof -
  let ?p = "get_config_path_by_hostname E hostname"
  obtain path where path: "?p = path @ hostConfigFolder @ ''/'' @ hostname @ ''.yml''"
      and sub: "set path \<subseteq> insert CHR ''/'' (set (FLAGS_config (ce_flags E)))"
    by (auto simp: get_config_path_by_hostname_def Let_def dest: in_set_takeD)
  have "NUL \<notin> set ?p"
    using assms sub by (auto simp: path hostConfigFolder_def NUL_def)
  then show ?thesis
    using has_sub_append [of hostConfigFolder path] by (simp add: is_host_config_def path)
qed

text \<open>An empty document: what the library gives for a host that has no file of its own.\<close>

definition yaml_null_ok :: "'y yaml_lib \<Rightarrow> bool" where
  "yaml_null_ok Y \<longleftrightarrow> (\<exists>n. y_load Y [] = Some n \<and> (\<forall>k. y_index Y n k = Inr None))"

definition empty_config :: "Flags \<Rightarrow> Config" where
  "empty_config F =
     \<lparr>cfg_id = FLAGS_id F, cfg_role = FLAGS_role F, cfg_master = FLAGS_master F,
      cfg_zookeeper = FLAGS_zookeeper F, cfg_restport = FLAGS_restport F,
      cfg_fileport = FLAGS_fileport F, cfg_fileroot = FLAGS_fileroot F,
      cfg_mgmtdev = [], cfg_datadev = [], cfg_osddevs = [], cfg_jnldevs = [],
      cfg_jnlparts = FLAGS_jnlparts F\<rparr>"

lemma parse_empty:
  "yaml_null_ok (ce_yaml E) \<Longrightarrow> parse_config_string E [] = Inr (empty_config (ce_flags E))"
  by (auto simp: yaml_null_ok_def parse_config_string_def yaml_get_def empty_config_def Let_def)

lemma get_config_by_hostname_no_file:
  assumes "yaml_null_ok (ce_yaml E)"
    and "NUL \<notin> set (FLAGS_config (ce_flags E))" and "NUL \<notin> set hostname"
    and "ce_file E (c_str (get_config_path_by_hostname E hostname)) = None"
  shows "get_config_by_hostname E hostname =
     bind_res (get_file_contents E (FLAGS_config (ce_flags E))) (\<lambda>s.
     bind_res (parse_config_string E s) (\<lambda>d.
       Inr (merge_config (ce_flags E) d (empty_config (ce_flags E)))))"
  using assms host_path_is_host_config [OF assms(2,3)]
  by (simp add: get_config_by_hostname_def get_file_contents_def parse_empty)

section \<open>Results\<close>


text \<open>A concrete setting: everything on the command line, an empty file.\<close>

definition full_flags :: Flags where
  "full_flags = default_flags\<lparr>FLAGS_id := ''myceph'', FLAGS_role := ''ceph'', FLAGS_master := ''m:5050'',
     FLAGS_zookeeper := ''zk'', FLAGS_restport := 8889, FLAGS_fileport := 8888, FLAGS_fileroot := ''./''\<rparr>"

definition empty_yaml :: "unit yaml_lib" where
  "empty_yaml = \<lparr>y_load = (\<lambda>s. Some ()), y_index = (\<lambda>n k. Inr None), y_string = (\<lambda>n. None),
     y_int = (\<lambda>n. None), y_strings = (\<lambda>n. None)\<rparr>"

definition full_env :: "unit config_env" where
  "full_env = \<lparr>ce_flags = full_flags, ce_yaml = empty_yaml,
     ce_file = (\<lambda>f. if f = ''/etc/cephmesos/cephmesos.yml'' then Some [] else None)\<rparr>"

lemma full_env_yaml: "yaml_null_ok (ce_yaml full_env)"
  by (simp add: yaml_null_ok_def full_env_def empty_yaml_def)

lemma full_env_file: "get_file_contents full_env (c_str (FLAGS_config (ce_flags full_env))) = Inr []"
  by (simp add: get_file_contents_def full_env_def full_flags_def default_flags_def c_str_def NUL_def)


text \<open>
  A host without a file of its own gets the devices and networks of the common file; its
  id, role, ports and the like are those of the command line, whatever the common file says.
\<close>

lemma host_without_file:
  assumes "yaml_null_ok (ce_yaml E)"
    and "NUL \<notin> set (FLAGS_config (ce_flags E))" and "NUL \<notin> set hostname"
    and "ce_file E (c_str (get_config_path_by_hostname E hostname)) = None"
    and "get_file_contents E (FLAGS_config (ce_flags E)) = Inr input" and "parse_config_string E input = Inr common"
  shows "\<exists>cfg. get_config_by_hostname E hostname = Inr cfg \<and>
    cfg_mgmtdev cfg = cfg_mgmtdev common \<and> cfg_datadev cfg = cfg_datadev common \<and>
    cfg_osddevs cfg = cfg_osddevs common \<and> cfg_jnldevs cfg = cfg_jnldevs common \<and>
    cfg_role cfg = FLAGS_role (ce_flags E) \<and> cfg_fileport cfg = FLAGS_fileport (ce_flags E)"
  using get_config_by_hostname_no_file [OF assms(1-4)] assms(5,6)
  by (simp add: merge_config_def empty_config_def)

end
