(* ===== verification/Host_Config.thy ===== *)
theory Host_Config
  imports Config_File String_Util
begin

text \<open>
  \<^verbatim>\<open>src/state/HostConfig.hpp\<close>: what the scheduler knows of one host, its raw devices
  and the partitions it may hand to OSD tasks. The two partition lists are stacks with one
  interface, the locale \<open>partition_pool\<close>.
\<close>

section \<open>State\<close>

record HostConfig =
  doneDiskPreparationFlag :: bool
  isPreparingDiskFlag :: bool
  hc_pendingOSDDevs :: "string list"
  hc_pendingJNLDevs :: "string list"
  jnlPartsCount :: int
  hc_failedOSDDevs :: "string list"
  hc_failedJNLDevs :: "string list"
  osdPartitions :: "string list"
  jnlPartitions :: "string list"
  originalConfig :: Config
  hc_hostname :: string

definition HostConfig_by_hostname :: "'y config_env \<Rightarrow> string \<Rightarrow> HostConfig res" where
  "HostConfig_by_hostname E hostname =
     bind_res (get_config_by_hostname E hostname) (\<lambda>config.
       Inr \<lparr>doneDiskPreparationFlag = False, isPreparingDiskFlag = False,
            hc_pendingOSDDevs = cfg_osddevs config,
            hc_pendingJNLDevs = cfg_jnldevs config,
            jnlPartsCount = cfg_jnlparts config,
            hc_failedOSDDevs = [], hc_failedJNLDevs = [],
            osdPartitions = [], jnlPartitions = [],
            originalConfig = config, hc_hostname = hostname\<rparr>)"

text \<open>The constructor from a configuration leaves the partition count indeterminate (\<open>indet\<close>).\<close>

definition HostConfig_by_config :: "int \<Rightarrow> Config \<Rightarrow> HostConfig" where
  "HostConfig_by_config indet config =
     \<lparr>doneDiskPreparationFlag = False, isPreparingDiskFlag = False,
      hc_pendingOSDDevs = [], hc_pendingJNLDevs = [], jnlPartsCount = indet,
      hc_failedOSDDevs = [], hc_failedJNLDevs = [], osdPartitions = [], jnlPartitions = [],
      originalConfig = config, hc_hostname = []\<rparr>"

text \<open>
  The destructor overwrites the pointer to the configuration before it deletes it: the new value of
  the pointer and the objects that are freed.
\<close>

definition HostConfig_delete :: "HostConfig \<Rightarrow> Config option \<times> Config list" where
  "HostConfig_delete h =
     (let originalConfig_ptr = None
      in (originalConfig_ptr, case originalConfig_ptr of None \<Rightarrow> [] | Some c \<Rightarrow> [c]))"

section \<open>Operations\<close>

definition getMgmtDev :: "HostConfig \<Rightarrow> string" where
  "getMgmtDev h = cfg_mgmtdev (originalConfig h)"

definition getDataDev :: "HostConfig \<Rightarrow> string" where
  "getDataDev h = cfg_datadev (originalConfig h)"

definition HostConfig_toString :: "HostConfig \<Rightarrow> string" where
  "HostConfig_toString h =
     (let r = ''hostname:'' @ hc_hostname h @ ''; mgmtdev: '' @ getMgmtDev h
              @ ''; datadev: '' @ getDataDev h;
          app = (\<lambda>ds s. foldl (\<lambda>s d. s @ d @ '','') s ds);
          osds_str = app (hc_pendingJNLDevs h) (app (hc_pendingOSDDevs h) []);
          jnls_str = [];
          r = r @ ''; pendingosdsdev: '' @ osds_str @ '' pendingjnldev: '' @ jnls_str;
          osds_str = app (jnlPartitions h) (app (osdPartitions h) [])
      in r @ ''; osdPartitions: '' @ osds_str @ '' jnlPartitions: '' @ jnls_str)"

text \<open>\<open>reload\<close> is an empty body.\<close>

definition HostConfig_reload :: "HostConfig \<Rightarrow> HostConfig" where
  "HostConfig_reload h = h"

definition popOSDPartition :: "HostConfig \<Rightarrow> string \<times> HostConfig" where
  "popOSDPartition h =
     (if osdPartitions h \<noteq> []
      then (last (osdPartitions h), h\<lparr>osdPartitions := butlast (osdPartitions h)\<rparr>)
      else ([], h))"

definition popJournalPartition :: "HostConfig \<Rightarrow> string \<times> HostConfig" where
  "popJournalPartition h =
     (if jnlPartitions h \<noteq> []
      then (last (jnlPartitions h), h\<lparr>jnlPartitions := butlast (jnlPartitions h)\<rparr>)
      else ([], h))"

definition addOSDPartition :: "string \<Rightarrow> HostConfig \<Rightarrow> HostConfig" where
  "addOSDPartition par h = h\<lparr>osdPartitions := osdPartitions h @ [par]\<rparr>"

definition addJNLPartition :: "string \<Rightarrow> HostConfig \<Rightarrow> HostConfig" where
  "addJNLPartition par h = h\<lparr>jnlPartitions := jnlPartitions h @ [par]\<rparr>"

fun hc_contains :: "string list \<Rightarrow> string \<Rightarrow> bool" where
  "hc_contains [] searchStr = False"
| "hc_contains (x # origin) searchStr = (searchStr = x \<or> hc_contains origin searchStr)"

fun osd_dev_loop :: "string list \<Rightarrow> string list \<Rightarrow> HostConfig \<Rightarrow> HostConfig" where
  "osd_dev_loop failedDevs [] h = h"
| "osd_dev_loop failedDevs (d # ds) h =
     (if hc_contains failedDevs d
      then osd_dev_loop failedDevs ds (h\<lparr>hc_failedOSDDevs := hc_failedOSDDevs h @ [d]\<rparr>)
      else osd_dev_loop failedDevs ds (addOSDPartition (d @ ''1'') h))"

fun jnl_dev_loop :: "lexcast \<Rightarrow> string list \<Rightarrow> int \<Rightarrow> string list \<Rightarrow> HostConfig \<Rightarrow> HostConfig" where
  "jnl_dev_loop L failedDevs n [] h = h"
| "jnl_dev_loop L failedDevs n (d # ds) h =
     (if hc_contains failedDevs d
      then jnl_dev_loop L failedDevs n ds (h\<lparr>hc_failedJNLDevs := hc_failedJNLDevs h @ [d]\<rparr>)
      else jnl_dev_loop L failedDevs n ds
             (fold (\<lambda>j. addJNLPartition (d @ lc_str L j)) [1..n] h))"

definition updateDiskPartition :: "lexcast \<Rightarrow> string list \<Rightarrow> int \<Rightarrow> HostConfig \<Rightarrow> HostConfig" where
  "updateDiskPartition L failedDevs jnlPartitionCount h =
     (let h = osd_dev_loop failedDevs (hc_pendingOSDDevs h) h;
          h = jnl_dev_loop L failedDevs jnlPartitionCount (hc_pendingJNLDevs h) h
      in h\<lparr>hc_pendingOSDDevs := [], hc_pendingJNLDevs := []\<rparr>)"

definition havePendingOSDDevs :: "HostConfig \<Rightarrow> bool" where
  "havePendingOSDDevs h \<longleftrightarrow> hc_pendingOSDDevs h \<noteq> []"

definition havePendingJNLDevs :: "HostConfig \<Rightarrow> bool" where
  "havePendingJNLDevs h \<longleftrightarrow> hc_pendingJNLDevs h \<noteq> []"

definition getPendingOSDDevs :: "HostConfig \<Rightarrow> string list" where
  "getPendingOSDDevs h = hc_pendingOSDDevs h"

definition getPendingJNLDevs :: "HostConfig \<Rightarrow> string list" where
  "getPendingJNLDevs h = hc_pendingJNLDevs h"

definition isPreparingDisk :: "HostConfig \<Rightarrow> bool" where
  "isPreparingDisk h = isPreparingDiskFlag h"

definition haveDoneDiskPreparation :: "HostConfig \<Rightarrow> bool" where
  "haveDoneDiskPreparation h = doneDiskPreparationFlag h"

definition setDiskPreparationOnGoing :: "HostConfig \<Rightarrow> HostConfig" where
  "setDiskPreparationOnGoing h = h\<lparr>isPreparingDiskFlag := True, doneDiskPreparationFlag := False\<rparr>"

definition setDiskPreparationDone :: "HostConfig \<Rightarrow> HostConfig" where
  "setDiskPreparationDone h = h\<lparr>isPreparingDiskFlag := False, doneDiskPreparationFlag := True\<rparr>"

definition getJnlPartitionCount :: "HostConfig \<Rightarrow> int" where
  "getJnlPartitionCount h = jnlPartsCount h"

declare getPendingOSDDevs_def [simp] getPendingJNLDevs_def [simp]

section \<open>Partition pools\<close>

text \<open>\<open>n\<close> requests to a pool, one after the other.\<close>

fun pops :: "('h \<Rightarrow> string \<times> 'h) \<Rightarrow> nat \<Rightarrow> 'h \<Rightarrow> string list \<times> 'h" where
  "pops pop 0 h = ([], h)"
| "pops pop (Suc n) h =
     (let (p, h1) = pop h; (ps, h2) = pops pop n h1 in (p # ps, h2))"

locale partition_pool =
  fixes pop :: "'h \<Rightarrow> string \<times> 'h"
    and add :: "string \<Rightarrow> 'h \<Rightarrow> 'h"
    and parts :: "'h \<Rightarrow> string list"
  assumes pop_empty: "parts h = [] \<Longrightarrow> pop h = ([], h)"
    and pop_last: "parts h \<noteq> [] \<Longrightarrow> fst (pop h) = last (parts h)"
    and parts_pop: "parts (snd (pop h)) = butlast (parts h)"
    and parts_add: "parts (add p h) = parts h @ [p]"
begin

lemma pop_add: "fst (pop (add p h)) = p" "parts (snd (pop (add p h))) = parts h"
  by (simp_all add: pop_last parts_add parts_pop)

lemma parts_fold_add: "parts (fold (\<lambda>x. add (f x)) xs h) = parts h @ map f xs"
  by (induction xs arbitrary: h) (simp_all add: parts_add)

lemma pops_eq:
  "fst (pops pop n h) = take n (rev (parts h)) @ replicate (n - length (parts h)) []"
proof (induction n arbitrary: h)
  case (Suc n)
  show ?case
  proof (cases "parts h = []")
    case True
    then show ?thesis
      using Suc.IH [of h] by (auto simp: pop_empty split: prod.splits)
  next
    case False
    then obtain ps p where ps: "parts h = ps @ [p]" by (metis rev_exhaust)
    have "parts (snd (pop h)) = ps" using parts_pop [of h] by (simp add: ps)
    moreover have "fst (pop h) = p" using pop_last [OF False] by (simp add: ps)
    ultimately show ?thesis
      using Suc.IH [of "snd (pop h)"] by (auto simp: ps split: prod.splits)
  qed
qed simp

lemma pops_distinct:
  assumes "distinct (parts h)"
  shows "distinct (filter (\<lambda>p. p \<noteq> []) (fst (pops pop n h)))"
  using assms by (simp add: pops_eq distinct_filter)

lemma pops_nonempty_in_parts:
  "p \<in> set (fst (pops pop n h)) \<Longrightarrow> p \<noteq> [] \<Longrightarrow> p \<in> set (parts h)"
  by (auto simp: pops_eq dest: in_set_takeD)

end

interpretation osd_pool: partition_pool popOSDPartition addOSDPartition osdPartitions
  by unfold_locales (auto simp: popOSDPartition_def addOSDPartition_def)

interpretation jnl_pool: partition_pool popJournalPartition addJNLPartition jnlPartitions
  by unfold_locales (auto simp: popJournalPartition_def addJNLPartition_def)

section \<open>updateDiskPartition\<close>

lemma hc_contains_iff [simp]: "hc_contains xs x \<longleftrightarrow> x \<in> set xs"
  by (induction xs) auto

lemma osd_dev_loop_eq:
  "osd_dev_loop F ds h =
     h\<lparr>osdPartitions := osdPartitions h @ map (\<lambda>d. d @ ''1'') (filter (\<lambda>d. d \<notin> set F) ds),
       hc_failedOSDDevs := hc_failedOSDDevs h @ filter (\<lambda>d. d \<in> set F) ds\<rparr>"
  by (induction ds arbitrary: h) (simp_all add: addOSDPartition_def)

definition jnl_names :: "lexcast \<Rightarrow> int \<Rightarrow> string list \<Rightarrow> string list" where
  "jnl_names L n ds = concat (map (\<lambda>d. map (\<lambda>j. d @ lc_str L j) [1..n]) ds)"

lemma fold_addJNL:
  "fold (\<lambda>j. addJNLPartition (f j)) js h = h\<lparr>jnlPartitions := jnlPartitions h @ map f js\<rparr>"
  by (induction js arbitrary: h) (simp_all add: addJNLPartition_def)

lemma jnl_dev_loop_eq:
  "jnl_dev_loop L F n ds h =
     h\<lparr>jnlPartitions := jnlPartitions h @ jnl_names L n (filter (\<lambda>d. d \<notin> set F) ds),
       hc_failedJNLDevs := hc_failedJNLDevs h @ filter (\<lambda>d. d \<in> set F) ds\<rparr>"
  by (induction ds arbitrary: h) (simp_all add: fold_addJNL jnl_names_def)

lemma updateDiskPartition_eq:
  "updateDiskPartition L F n h =
     h\<lparr>osdPartitions := osdPartitions h @ map (\<lambda>d. d @ ''1'') (filter (\<lambda>d. d \<notin> set F) (hc_pendingOSDDevs h)),
       hc_failedOSDDevs := hc_failedOSDDevs h @ filter (\<lambda>d. d \<in> set F) (hc_pendingOSDDevs h),
       jnlPartitions := jnlPartitions h @ jnl_names L n (filter (\<lambda>d. d \<notin> set F) (hc_pendingJNLDevs h)),
       hc_failedJNLDevs := hc_failedJNLDevs h @ filter (\<lambda>d. d \<in> set F) (hc_pendingJNLDevs h),
       hc_pendingOSDDevs := [], hc_pendingJNLDevs := []\<rparr>"
  by (simp add: updateDiskPartition_def osd_dev_loop_eq jnl_dev_loop_eq Let_def)

subsection \<open>Names of partitions\<close>

definition dev_name_ok :: "string \<Rightarrow> bool" where
  "dev_name_ok d \<longleftrightarrow> d \<noteq> [] \<and> \<not> is_digit (last d)"

lemma dev_name_split:
  assumes "dev_name_ok d" and "list_all is_digit ds"
  shows "takeWhile is_digit (rev (d @ ds)) = rev ds"
proof -
  obtain d' c where d: "d = d' @ [c]" and c: "\<not> is_digit c"
    using assms(1) by (cases d rule: rev_exhaust) (auto simp: dev_name_ok_def)
  have "takeWhile is_digit (rev ds @ c # rev d') = rev ds"
    using c assms(2) by (subst takeWhile_append2) (auto simp: list_all_iff)
  then show ?thesis by (simp add: d)
qed

lemma part_name_inject:
  assumes "dev_name_ok d" "dev_name_ok d'" "0 \<le> i" "0 \<le> j"
  shows "d @ show_int i = d' @ show_int j \<longleftrightarrow> d = d' \<and> i = j"
proof
  assume eq: "d @ show_int i = d' @ show_int j"
  have dig: "list_all is_digit (show_int k)" if "0 \<le> k" for k
    using that show_nat_digits by (auto simp: show_int_def list_all_iff)
  have "show_int i = show_int j"
    using dev_name_split [OF assms(1) dig [OF assms(3)]]
      dev_name_split [OF assms(2) dig [OF assms(4)]] eq by simp
  with eq show "d = d' \<and> i = j" by simp
qed simp

lemma jnl_names_distinct:
  assumes "lexcast_ok L" and "distinct ds" and "\<forall>d \<in> set ds. dev_name_ok d"
  shows "distinct (jnl_names L n ds)"
  using assms(2,3)
proof (induction ds)
  case (Cons d ds)
  have head: "distinct (map (\<lambda>j. d @ lc_str L j) [1..n])"
    using assms(1) by (simp add: distinct_map inj_on_def lexcast_strD)
  have "set (map (\<lambda>j. d @ lc_str L j) [1..n]) \<inter> set (jnl_names L n ds) = {}"
  proof (rule ccontr)
    assume "\<not> ?thesis"
    then obtain i j d' where *: "d' \<in> set ds" "1 \<le> i" "1 \<le> j" "d @ show_int i = d' @ show_int j"
      using assms(1) by (auto simp: jnl_names_def lexcast_strD)
    then show False
      using part_name_inject [of d d' i j] Cons.prems by auto
  qed
  with head Cons show ?case by (simp add: jnl_names_def)
qed (simp add: jnl_names_def)

lemma length_jnl_names: "length (jnl_names L n ds) = nat n * length ds"
  by (induction ds) (simp_all add: jnl_names_def algebra_simps)

lemma osd_names_distinct: "distinct ds \<Longrightarrow> distinct (map (\<lambda>d. d @ ''1'') ds)"
  by (simp add: distinct_map inj_on_def)

section \<open>Results\<close>


definition demo_host :: HostConfig where
  "demo_host = (HostConfig_by_config 4 \<lparr>cfg_id = [], cfg_role = [], cfg_master = [], cfg_zookeeper = [],
     cfg_restport = 0, cfg_fileport = 0, cfg_fileroot = [], cfg_mgmtdev = [], cfg_datadev = [],
     cfg_osddevs = [], cfg_jnldevs = [], cfg_jnlparts = 4\<rparr>)
     \<lparr>hc_pendingOSDDevs := [''sdb'', ''sdc''], hc_pendingJNLDevs := [''sdd'']\<rparr>"


text \<open>
  A sequence of OSD launches on a host takes its OSD partitions from the back, each at most
  once; when they are used up the launches get the empty name. The same holds for the journals.
\<close>

lemma partitions_handed_out:
  "fst (pops popOSDPartition k h) = take k (rev (osdPartitions h)) @ replicate (k - length (osdPartitions h)) [] \<and>
   fst (pops popJournalPartition k h) = take k (rev (jnlPartitions h)) @ replicate (k - length (jnlPartitions h)) []"
  using osd_pool.pops_eq jnl_pool.pops_eq by blast

end
