(* ===== verification/State_Machine.thy ===== *)
theory State_Machine
  imports Task_State Host_Config
begin

text \<open>
  \<^verbatim>\<open>src/state/StateMachine.hpp\<close> and \<^verbatim>\<open>src/state/StateMachine.cpp\<close>: the task
  table, the running and staging counters per task type, the bootstrap phase derived from
  them, and the decision \<open>nextMove\<close> what an offer is used for. What the counters mean,
  and that every operation keeps that meaning, is in \<open>Task_Counters\<close>.
\<close>

section \<open>State\<close>

record StateMachine =
  taskMap :: "(string \<times> TaskState) list"
  hostConfigMap :: "string \<Rightarrow> HostConfig option"
  pendingOSDID :: "int list"
  currentPhase :: Phase
  monRunningNum :: int
  monStagingNum :: int
  monIndex :: int
  osdRunningNum :: int
  osdStagingNum :: int
  osdIndex :: int
  radosgwRunningNum :: int
  radosgwStagingNum :: int
  radosgwIndex :: int
  sm_config :: Config
  defaultHostConfig :: HostConfig

definition StateMachine_new :: "int \<Rightarrow> Config \<Rightarrow> StateMachine" where
  "StateMachine_new indet config =
     \<lparr>taskMap = [], hostConfigMap = (\<lambda>_. None), pendingOSDID = [],
      currentPhase = BOOTSTRAP_MON,
      monRunningNum = 0, monStagingNum = 0, monIndex = 0,
      osdRunningNum = 0, osdStagingNum = 0, osdIndex = 0,
      radosgwRunningNum = 0, radosgwStagingNum = 0, radosgwIndex = 0,
      sm_config = config, defaultHostConfig = HostConfig_by_config indet config\<rparr>"

text \<open>The default constructor leaves the two configurations indeterminate.\<close>

definition StateMachine_default :: "Config \<Rightarrow> HostConfig \<Rightarrow> StateMachine" where
  "StateMachine_default config hc =
     \<lparr>taskMap = [], hostConfigMap = (\<lambda>_. None), pendingOSDID = [],
      currentPhase = BOOTSTRAP_MON,
      monRunningNum = 0, monStagingNum = 0, monIndex = 0,
      osdRunningNum = 0, osdStagingNum = 0, osdIndex = 0,
      radosgwRunningNum = 0, radosgwStagingNum = 0, radosgwIndex = 0,
      sm_config = config, defaultHostConfig = hc\<rparr>"

section \<open>Operations\<close>

text \<open>What is logged after the counters were updated.\<close>

definition printCounters :: "StateMachine \<Rightarrow> string list" where
  "printCounters s =
     [''Current Counters:'',
      ''monRunningNum: '' @ show_int (monRunningNum s),
      ''monStagingNum: '' @ show_int (monStagingNum s),
      ''osdRunningNum: '' @ show_int (osdRunningNum s),
      ''osdStagingNum: '' @ show_int (osdStagingNum s),
      ''radosgwRunningNum: '' @ show_int (radosgwRunningNum s),
      ''radosgwStagingNum: '' @ show_int (radosgwStagingNum s)]"

definition addStagingTask ::
  "string \<Rightarrow> string \<Rightarrow> TaskType \<Rightarrow> string \<Rightarrow> string \<Rightarrow> StateMachine \<Rightarrow> StateMachine" where
  "addStagingTask tid eid ty host sid s =
     (let s = (case ty of
                 MON \<Rightarrow> s\<lparr>monStagingNum := monStagingNum s + 1\<rparr>
               | OSD \<Rightarrow> s\<lparr>osdStagingNum := osdStagingNum s + 1\<rparr>
               | RADOSGW \<Rightarrow> s\<lparr>radosgwStagingNum := radosgwStagingNum s + 1\<rparr>)
      in s\<lparr>taskMap := map_put tid (TaskState_new tid eid ty host sid STAGING) (taskMap s)\<rparr>)"

definition updateCounters :: "TaskType \<Rightarrow> Status \<Rightarrow> Status \<Rightarrow> StateMachine \<Rightarrow> StateMachine" where
  "updateCounters ty oldStatus newStatus s =
     (let s = (if (oldStatus = STAGING \<or> oldStatus = STARTING) \<and> newStatus = RUNNING then
                 (case ty of
                    MON \<Rightarrow> s\<lparr>monRunningNum := monRunningNum s + 1, monStagingNum := monStagingNum s - 1\<rparr>
                  | OSD \<Rightarrow> s\<lparr>osdRunningNum := osdRunningNum s + 1, osdStagingNum := osdStagingNum s - 1\<rparr>
                  | RADOSGW \<Rightarrow> s\<lparr>radosgwRunningNum := radosgwRunningNum s + 1,
                                 radosgwStagingNum := radosgwStagingNum s - 1\<rparr>)
               else s);
          s = (if oldStatus = STAGING \<and> newStatus = FAILED then
                 (case ty of
                    MON \<Rightarrow> s\<lparr>monStagingNum := monStagingNum s - 1\<rparr>
                  | OSD \<Rightarrow> s\<lparr>osdStagingNum := osdStagingNum s - 1\<rparr>
                  | RADOSGW \<Rightarrow> s\<lparr>radosgwStagingNum := radosgwStagingNum s - 1\<rparr>)
               else s)
      in (if oldStatus = RUNNING \<and> newStatus = FAILED then
            (case ty of
               MON \<Rightarrow> s\<lparr>monRunningNum := monRunningNum s - 1\<rparr>
             | OSD \<Rightarrow> s\<lparr>osdRunningNum := osdRunningNum s - 1\<rparr>
             | RADOSGW \<Rightarrow> s\<lparr>radosgwRunningNum := radosgwRunningNum s - 1\<rparr>)
          else s))"

definition moveState :: "StateMachine \<Rightarrow> StateMachine" where
  "moveState s =
     (if monRunningNum s < 1 then s\<lparr>currentPhase := BOOTSTRAP_MON\<rparr>
      else if osdRunningNum s < 3 then s\<lparr>currentPhase := BOOTSTRAP_OSD\<rparr>
      else if radosgwRunningNum s < 1 then s\<lparr>currentPhase := BOOTSTRAP_RADOSGW\<rparr>
      else s\<lparr>currentPhase := WAINTING_REQUEST\<rparr>)"

definition decreaseOSDIndex :: "StateMachine \<Rightarrow> StateMachine" where
  "decreaseOSDIndex s = s\<lparr>osdIndex := osdIndex s - 1\<rparr>"

definition updateTaskToRunning :: "string \<Rightarrow> StateMachine \<Rightarrow> StateMachine" where
  "updateTaskToRunning tid s =
     (case map_of (taskMap s) tid of
        Some t \<Rightarrow>
          (let s = updateCounters (taskType t) (currentStatus t) RUNNING s;
               s = s\<lparr>taskMap := map_put tid (t\<lparr>currentStatus := RUNNING\<rparr>) (taskMap s)\<rparr>
           in moveState s)
      | None \<Rightarrow> s)"

definition updateTaskToWaitingOSDID :: "string \<Rightarrow> StateMachine \<Rightarrow> StateMachine" where
  "updateTaskToWaitingOSDID tid s =
     (case map_of (taskMap s) tid of
        Some t \<Rightarrow>
          (let s = updateCounters (taskType t) (currentStatus t) WAITING_OSDID s
           in s\<lparr>taskMap := map_put tid (t\<lparr>currentStatus := WAITING_OSDID\<rparr>) (taskMap s)\<rparr>)
      | None \<Rightarrow> s)"

definition updateTaskToStarting :: "string \<Rightarrow> StateMachine \<Rightarrow> StateMachine" where
  "updateTaskToStarting tid s =
     (case map_of (taskMap s) tid of
        Some t \<Rightarrow>
          (let s = updateCounters (taskType t) (currentStatus t) STARTING s
           in s\<lparr>taskMap := map_put tid (t\<lparr>currentStatus := STARTING\<rparr>) (taskMap s)\<rparr>)
      | None \<Rightarrow> s)"

definition updateTaskToFailed :: "string \<Rightarrow> StateMachine \<Rightarrow> StateMachine" where
  "updateTaskToFailed tid s =
     (case map_of (taskMap s) tid of
        Some t \<Rightarrow>
          (let s = updateCounters (taskType t) (currentStatus t) FAILED s;
               s = s\<lparr>taskMap := map_put tid (t\<lparr>currentStatus := FAILED\<rparr>) (taskMap s)\<rparr>
           in moveState s)
      | None \<Rightarrow> s)"

definition getPendingOSDID :: "StateMachine \<Rightarrow> int list" where
  "getPendingOSDID s = pendingOSDID s"

declare getPendingOSDID_def [simp]

definition addConfig :: "'y config_env \<Rightarrow> string \<Rightarrow> StateMachine \<Rightarrow> StateMachine res" where
  "addConfig E hostname s =
     (case hostConfigMap s hostname of
        Some hc \<Rightarrow> (let _ = HostConfig_reload hc in Inr s)   \<comment> \<open>reloads a copy\<close>
      | None \<Rightarrow>
          bind_res (HostConfig_by_hostname E hostname) (\<lambda>hc.
            Inr (s\<lparr>hostConfigMap := (hostConfigMap s)(hostname \<mapsto> hc)\<rparr>)))"

text \<open>
  \<open>getConfig\<close> returns a pointer: to the host's entry, or to the default configuration.
  \<open>setConfig\<close> is a write through that pointer.
\<close>

definition getConfig :: "StateMachine \<Rightarrow> string \<Rightarrow> HostConfig" where
  "getConfig s hostname =
     (case hostConfigMap s hostname of Some hc \<Rightarrow> hc | None \<Rightarrow> defaultHostConfig s)"

definition setConfig :: "string \<Rightarrow> HostConfig \<Rightarrow> StateMachine \<Rightarrow> StateMachine" where
  "setConfig hostname hc s =
     (case hostConfigMap s hostname of
        Some _ \<Rightarrow> s\<lparr>hostConfigMap := (hostConfigMap s)(hostname \<mapsto> hc)\<rparr>
      | None \<Rightarrow> s\<lparr>defaultHostConfig := hc\<rparr>)"

text \<open>\<open>taskType\<close> and \<open>token\<close> are in-out parameters of \<open>nextMove\<close>.\<close>

definition nextMove ::
  "TaskType \<Rightarrow> int \<Rightarrow> string \<Rightarrow> StateMachine \<Rightarrow> bool \<times> TaskType \<times> int \<times> StateMachine" where
  "nextMove ty token host s =
     (if isPreparingDisk (getConfig s host) then (False, ty, token, s)
      else if currentPhase s = RECONCILING_TASKS \<or> currentPhase s = BOOTSTRAP_MON then
        if monStagingNum s < 1 \<and> monStagingNum s + monRunningNum s < 1
        then (True, MON, monIndex s, s\<lparr>monIndex := monIndex s + 1\<rparr>)
        else (False, MON, token, s)
      else if currentPhase s = BOOTSTRAP_OSD then
        if osdStagingNum s < 3 \<and> osdStagingNum s + osdRunningNum s < 3
        then (True, OSD, osdIndex s, s\<lparr>osdIndex := osdIndex s + 1\<rparr>)
        else (False, OSD, token, s)
      else if currentPhase s = BOOTSTRAP_RADOSGW then
        if radosgwStagingNum s < 1
        then (True, RADOSGW, radosgwIndex s, s\<lparr>radosgwIndex := radosgwIndex s + 1\<rparr>)
        else (False, RADOSGW, token, s)
      else (True, OSD, osdIndex s, s\<lparr>osdIndex := osdIndex s + 1\<rparr>))"

text \<open>\<open>iter\<close> is the order in which the library iterates over the task table.\<close>

type_synonym map_order = "(string \<times> TaskState) list \<Rightarrow> (string \<times> TaskState) list"

definition map_order_ok :: "map_order \<Rightarrow> bool" where
  "map_order_ok iter \<longleftrightarrow> (\<forall>m. mset (iter m) = mset m)"

fun initial_mon_loop :: "TaskState \<Rightarrow> (string \<times> TaskState) list \<Rightarrow> TaskState" where
  "initial_mon_loop cur [] = cur"
| "initial_mon_loop cur ((k, t) # es) =
     (if take (length ''mon0'') (taskId t) = ''mon0'' then t else initial_mon_loop t es)"

definition getInitialMon :: "map_order \<Rightarrow> TaskState \<Rightarrow> StateMachine \<Rightarrow> TaskState" where
  "getInitialMon iter indet s = initial_mon_loop indet (iter (taskMap s))"

definition getWaitingOSDTask :: "map_order \<Rightarrow> StateMachine \<Rightarrow> TaskState list" where
  "getWaitingOSDTask iter s =
     filter (\<lambda>t. taskType t = OSD \<and> currentStatus t = WAITING_OSDID) (map snd (iter (taskMap s)))"

definition addPendingOSDID :: "int \<Rightarrow> StateMachine \<Rightarrow> StateMachine" where
  "addPendingOSDID osdID s = s\<lparr>pendingOSDID := pendingOSDID s @ [osdID]\<rparr>"

definition getCurrentPhase :: "StateMachine \<Rightarrow> Phase" where
  "getCurrentPhase s = currentPhase s"

end
