(* ===== verification/Event_Loop.thy ===== *)
theory Event_Loop
  imports Ceph_Prelude
begin

text \<open>
  \<^verbatim>\<open>src/common/JsonUtil.hpp\<close>, \<^verbatim>\<open>src/scheduler/EventLoop.cpp\<close>: the thread that takes
  flex-up requests from the message queue and appends their instance counts to
  \<open>pendingOSD\<close>. The JSON library is a parameter; the message queue appears through the
  results of \<open>try_receive\<close>, one per round of the loop.
\<close>

section \<open>JsonUtil\<close>

record 'j json_lib =
  j_parse :: "string \<Rightarrow> 'j option"                  \<comment> \<open>\<open>Json::Reader::parse\<close>\<close>
  j_get :: "'j \<Rightarrow> string \<Rightarrow> 'j option res"          \<comment> \<open>member of an object, or absent\<close>
  j_asInt :: "'j \<Rightarrow> int option"                     \<comment> \<open>\<open>None\<close>: not convertible\<close>
  j_asString :: "'j \<Rightarrow> string option"

definition json_instances :: "'j json_lib \<Rightarrow> 'j \<Rightarrow> int res" where
  "json_instances J v =
     bind_res (j_get J v ''instances'') (\<lambda>m.
       case m of None \<Rightarrow> Inr 0 | Some x \<Rightarrow> of_option Json_Exception (j_asInt J x))"

definition json_profile :: "'j json_lib \<Rightarrow> 'j \<Rightarrow> string res" where
  "json_profile J v =
     bind_res (j_get J v ''profile'') (\<lambda>m.
       case m of None \<Rightarrow> Inr ''error'' | Some x \<Rightarrow> of_option Json_Exception (j_asString J x))"

section \<open>EventLoop\<close>

definition processData :: "'j json_lib \<Rightarrow> string \<Rightarrow> int list \<Rightarrow> int list res" where
  "processData J data pendingOSD =
     (case j_parse J (c_str data) of
        Some v \<Rightarrow>
          bind_res (json_profile J v) (\<lambda>p.
            if ''osd'' = p
            then bind_res (json_instances J v) (\<lambda>n. Inr (pendingOSD @ [n]))
            else Inr pendingOSD)
      | None \<Rightarrow> Inr pendingOSD)"

text \<open>
  \<open>event_data\<close> is an uninitialised array of 256 characters: the receiver copies the
  message over its beginning and converts the array to a string, up to the first NUL.
\<close>

definition buffer_string :: "string \<Rightarrow> string \<Rightarrow> string res" where
  "buffer_string msg stale =
     (let event_data = msg @ drop (length msg) stale
      in if NUL \<in> set event_data then Inr (c_str event_data) else Inl Buffer_Overread)"

datatype receive = MQ_Empty | MQ_Message string | MQ_Exception

text \<open>
  One list element per round of the \<open>while\<close> loop: what \<open>try_receive\<close> gave and what the
  array held before; the list ends where the destructor clears \<open>loopTag\<close>. An exception, also
  one of \<open>processData\<close>, is caught outside the loop and ends it.
\<close>

fun recvData :: "'j json_lib \<Rightarrow> (receive \<times> string) list \<Rightarrow> int list \<Rightarrow> int list res" where
  "recvData J [] pendingOSD = Inr pendingOSD"
| "recvData J ((MQ_Empty, stale) # rounds) pendingOSD = recvData J rounds pendingOSD"
| "recvData J ((MQ_Exception, stale) # rounds) pendingOSD = Inr pendingOSD"
| "recvData J ((MQ_Message msg, stale) # rounds) pendingOSD =
     bind_res (buffer_string msg stale) (\<lambda>data.
       case processData J data pendingOSD of
         Inl e \<Rightarrow> Inr pendingOSD
       | Inr pendingOSD' \<Rightarrow> recvData J rounds pendingOSD')"

section \<open>Properties\<close>

lemma buffer_string_eq:
  assumes "NUL \<notin> set msg"
  shows "buffer_string msg stale =
    (if NUL \<in> set (drop (length msg) stale)
     then Inr (msg @ c_str (drop (length msg) stale)) else Inl Buffer_Overread)"
  using assms by (auto simp: buffer_string_def Let_def)

lemma buffer_string_clean:
  assumes "NUL \<notin> set msg" and "length msg < length stale" and "stale ! length msg = NUL"
  shows "buffer_string msg stale = Inr msg"
proof -
  have "drop (length msg) stale = NUL # drop (Suc (length msg)) stale"
    using assms(2,3) by (metis Cons_nth_drop_Suc)
  then show ?thesis
    using assms(1) by (simp add: buffer_string_eq)
qed

text \<open>What one request means: an OSD request for \<open>n\<close> instances.\<close>

definition osd_request :: "'j json_lib \<Rightarrow> string \<Rightarrow> int \<Rightarrow> bool" where
  "osd_request J msg n \<longleftrightarrow>
     (\<exists>v. j_parse J msg = Some v \<and> json_profile J v = Inr ''osd'' \<and> json_instances J v = Inr n)"

lemma processData_osd:
  "osd_request J msg n \<Longrightarrow> NUL \<notin> set msg \<Longrightarrow> processData J msg p = Inr (p @ [n])"
  by (auto simp: osd_request_def processData_def)

lemma processData_appends:
  "processData J data p = Inr p' \<Longrightarrow> p' = p \<or> (\<exists>n. p' = p @ [n])"
  by (auto simp: processData_def res_simps split: option.splits if_splits)

lemma recvData_osd_requests:
  assumes "list_all2 (\<lambda>(m, stale) n. osd_request J m n \<and> NUL \<notin> set m \<and>
     length m < length stale \<and> stale ! length m = NUL) ms ns"
  shows "recvData J (map (\<lambda>(m, stale). (MQ_Message m, stale)) ms @ rounds) p =
         recvData J rounds (p @ ns)"
  using assms
proof (induction ms ns arbitrary: p rule: list_all2_induct)
  case (Cons e ms n ns)
  obtain m stale where e: "e = (m, stale)" by fastforce
  with Cons.hyps show ?case
    by (simp add: buffer_string_clean processData_osd [of J m n] Cons.IH)
qed simp

text \<open>A concrete JSON library that knows one document, a request for two OSDs.\<close>

definition demo_body :: string where
  "demo_body = ''{instances:2,profile:osd}''"

definition demo_json :: "(string \<times> int) json_lib" where
  "demo_json = \<lparr>j_parse = (\<lambda>s. if s = demo_body then Some (''osd'', 2) else None),
     j_get = (\<lambda>v key. Inr (if key = ''instances'' \<or> key = ''profile'' then Some v else None)),
     j_asInt = (\<lambda>v. Some (snd v)), j_asString = (\<lambda>v. Some (fst v))\<rparr>"

lemma demo_osd_request: "osd_request demo_json demo_body 2"
  by (simp add: osd_request_def demo_json_def json_profile_def json_instances_def)

lemma demo_body_no_nul: "NUL \<notin> set demo_body"
  by (simp add: demo_body_def NUL_def)

section \<open>Results\<close>



end
