(* ===== verification/Scheduler_Agent.thy ===== *)
theory Scheduler_Agent
  imports Mesos_Messages State_Machine Event_Loop
begin

text \<open>
  \<^verbatim>\<open>src/scheduler/CephSchedulerAgent.hpp\<close>: the callbacks of the Mesos scheduler. The agent
  holds the configuration, the state machine and the requests of the event loop; the calls
  on the driver are recorded in order (\<open>ag_driver\<close>). \<^verbatim>\<open>src/scheduler/CephScheduler.cpp\<close>
  only forwards to these callbacks. \<open>time\<close> is read at most once per offer that is acted on, so
  every offer comes with the value it reads.
\<close>

section \<open>State and environment\<close>

record agent =
  ag_config :: Config
  ag_sm :: StateMachine
  ag_pendingOSD :: "int list"
  ag_driver :: "driver_call list"

record 'y agent_env =
  ae_config :: "'y config_env"
  ae_lc :: lexcast
  ae_iter :: map_order
  ae_indet_type :: TaskType        \<comment> \<open>indeterminate members of a default \<open>TaskState\<close>\<close>
  ae_indet_status :: Status
  ae_net :: net_lib
  ae_res :: resources_lib

definition CephSchedulerAgent_new :: "int \<Rightarrow> Config \<Rightarrow> agent" where
  "CephSchedulerAgent_new indet config =
     \<lparr>ag_config = config, ag_sm = StateMachine_new indet config, ag_pendingOSD = [], ag_driver = []\<rparr>"

definition callDriver :: "driver_call \<Rightarrow> agent \<Rightarrow> agent" where
  "callDriver c ag = ag\<lparr>ag_driver := ag_driver ag @ [c]\<rparr>"

definition onSM :: "(StateMachine \<Rightarrow> StateMachine) \<Rightarrow> agent \<Rightarrow> agent" where
  "onSM f ag = ag\<lparr>ag_sm := f (ag_sm ag)\<rparr>"

definition initialMon :: "'y agent_env \<Rightarrow> agent \<Rightarrow> TaskState" where
  "initialMon E ag =
     getInitialMon (ae_iter E) (TaskState_default (ae_indet_type E) (ae_indet_status E)) (ag_sm ag)"

section \<open>Helpers of the callbacks\<close>

definition getLocalIP :: "net_lib \<Rightarrow> string res" where
  "getLocalIP N =
     (let (r, hostname) = net_gethostname N
      in of_option Null_Dereference (net_gethostbyname N (c_str hostname)))"

definition getIPByHostname :: "net_lib \<Rightarrow> string \<Rightarrow> string res" where
  "getIPByHostname N hostname = of_option Null_Dereference (net_gethostbyname N (c_str hostname))"

definition getFileServerIP :: "'y agent_env \<Rightarrow> string res" where
  "getFileServerIP E = getLocalIP (ae_net E)"

definition offerNotEnoughResources :: "'y agent_env \<Rightarrow> agent \<Rightarrow> Offer \<Rightarrow> TaskType \<Rightarrow> bool res" where
  "offerNotEnoughResources E ag offer ty =
     (let R = ae_res E; role = cfg_role (ag_config ag); cpus = 1; mems = 1024
      in bind_res (res_parse R (''cpus:'' @ res_stringify R cpus @ '';mem:'' @ res_stringify R mems) role)
           (\<lambda>neededResources.
         bind_res (res_flatten R (o_resources offer) role) (\<lambda>resRole.
           if res_contains R resRole neededResources then Inr False else Inr True)))"

definition hasRole :: "Offer \<Rightarrow> string \<Rightarrow> bool" where
  "hasRole offer role = list_ex (\<lambda>resource. role = r_role resource) (o_resources offer)"

definition createTaskName :: "'y agent_env \<Rightarrow> TaskType \<Rightarrow> int \<Rightarrow> string" where
  "createTaskName E ty token =
     (case ty of MON \<Rightarrow> ''mon'' | OSD \<Rightarrow> ''osd'' | RADOSGW \<Rightarrow> ''radosgw'') @ lc_str (ae_lc E) token"

definition createExecutor ::
  "'y agent_env \<Rightarrow> int \<Rightarrow> string \<Rightarrow> TaskType \<Rightarrow> int \<Rightarrow> int \<Rightarrow> agent \<Rightarrow> (string \<times> ExecutorInfo) res" where
  "createExecutor E now executorName ty token isInitialMonNode ag =
     (let L = ae_lc E;
          name = executorName @ ''.'' @ lc_str L (taskType_int ty) @ ''.'' @ lc_str L token;
          eid = name @ ''.'' @ lc_str L now
      in bind_res (getFileServerIP E) (\<lambda>ip.
           let binary_uri = ''http://'' @ ip @ '':'' @ lc_str L (cfg_fileport (ag_config ag))
                              @ ''/'' @ executorName;
               prefix = ''http://'' @ hostName (initialMon E ag) @ '':7777/'';
               configUris = (if isInitialMonNode = 0
                             then map (\<lambda>f. (prefix @ f, False))
                                    [''ceph.client.admin.keyring'', ''ceph.conf'', ''ceph.mon.keyring'',
                                     ''monmap'', ''ceph.keyring.osd'', ''ceph.keyring.rgw'',
                                     ''ceph.keyring.mds'']
                             else [])
           in Inr (eid, \<lparr>ei_executor_id = eid, ei_name = name,
                          ei_uris = (binary_uri, True) # configUris,
                          ei_command = ''./'' @ executorName\<rparr>)))"

definition addHostConfig :: "TaskType \<Rightarrow> string \<Rightarrow> agent \<Rightarrow> Labels \<times> agent" where
  "addHostConfig ty hostname ag =
     (let hostconfig = getConfig (ag_sm ag) hostname;
          labels = [(mgmtdevKey, getMgmtDev hostconfig), (datadevKey, getDataDev hostconfig)]
      in if ty = OSD
         then let (osddisk, hostconfig) = popOSDPartition hostconfig;
                  (journaldisk, hostconfig) = popJournalPartition hostconfig
              in (labels @ [(osddevsKey, osddisk), (jnldevsKey, journaldisk)],
                  onSM (setConfig hostname hostconfig) ag)
         else (labels, ag))"

definition launch_resources :: "string \<Rightarrow> real \<Rightarrow> Resource list" where
  "launch_resources role mem =
     [\<lparr>r_name = ''cpus'', r_role = role, r_scalar = 1\<rparr>, \<lparr>r_name = ''mem'', r_role = role, r_scalar = mem\<rparr>]"

definition node_task ::
  "'y agent_env \<Rightarrow> Offer \<Rightarrow> TaskType \<Rightarrow> int \<Rightarrow> int \<Rightarrow> string \<Rightarrow> ExecutorInfo \<Rightarrow> Labels \<Rightarrow> TaskInfo" where
  "node_task E offer ty token isInitialMonNode role executor labels =
     (let L = ae_lc E; name = createTaskName E ty token
      in \<lparr>ti_name = name,
          ti_data = Some (lc_str L isInitialMonNode @ ''.'' @ lc_str L (taskType_int ty)),
          ti_task_id = name @ ''.'' @ o_hostname offer @ ''.'' @ o_slave_id offer,
          ti_slave_id = o_slave_id offer, ti_executor = executor,
          ti_labels = Some labels, ti_resources = launch_resources role 1024\<rparr>)"

definition launchNode ::
  "'y agent_env \<Rightarrow> int \<Rightarrow> Offer \<Rightarrow> TaskType \<Rightarrow> int \<Rightarrow> int \<Rightarrow> agent \<Rightarrow> (string \<times> string \<times> agent) res" where
  "launchNode E now offer ty token isInitialMonNode ag =
     bind_res (createExecutor E now ''ceph-mesos-executor'' ty token isInitialMonNode ag)
       (\<lambda>(eid, executor).
         let (labels, ag) = addHostConfig ty (o_hostname offer) ag;
             task = node_task E offer ty token isInitialMonNode (cfg_role (ag_config ag)) executor labels
         in Inr (ti_task_id task, eid, callDriver (LaunchTasks (o_id offer) [task]) ag))"

definition disk_labels :: "lexcast \<Rightarrow> HostConfig \<Rightarrow> Labels" where
  "disk_labels L hostconfig =
     map (\<lambda>d. (osddevsKey, d)) (getPendingOSDDevs hostconfig)
     @ map (\<lambda>d. (jnldevsKey, d)) (getPendingJNLDevs hostconfig)
     @ [(jnlPartitionCountKey, lc_str L (getJnlPartitionCount hostconfig))]"

definition disk_task ::
  "'y agent_env \<Rightarrow> int \<Rightarrow> Offer \<Rightarrow> Config \<Rightarrow> HostConfig \<Rightarrow> string \<Rightarrow> TaskInfo" where
  "disk_task E now offer config hostconfig ip =
     (let L = ae_lc E;
          binary = ''ceph-mesos-disk-executor'';
          eid = binary @ ''.'' @ lc_str L now;
          binary_uri = ''http://'' @ ip @ '':'' @ lc_str L (cfg_fileport config) @ ''/'' @ binary
      in \<lparr>ti_name = eid, ti_data = None,
          ti_task_id = eid @ ''.'' @ o_hostname offer @ ''.'' @ o_slave_id offer,
          ti_slave_id = o_slave_id offer,
          ti_executor = \<lparr>ei_executor_id = eid, ei_name = eid, ei_uris = [(binary_uri, True)],
                         ei_command = ''./'' @ binary\<rparr>,
          ti_labels = Some (disk_labels L hostconfig),
          ti_resources = launch_resources (cfg_role config) 256\<rparr>)"

definition tryLaunchDiskTask :: "'y agent_env \<Rightarrow> int \<Rightarrow> Offer \<Rightarrow> string \<Rightarrow> agent \<Rightarrow> agent res" where
  "tryLaunchDiskTask E now offer hostname ag =
     (let hostconfig = getConfig (ag_sm ag) hostname
      in if isPreparingDisk hostconfig then Inr ag
         else if \<not> havePendingOSDDevs hostconfig \<and> \<not> havePendingJNLDevs hostconfig then Inr ag
         else bind_res (offerNotEnoughResources E ag offer OSD) (\<lambda>notEnough.
           if notEnough then Inr ag
           else bind_res (getFileServerIP E) (\<lambda>ip.
             let task = disk_task E now offer (ag_config ag) hostconfig ip;
                 ag = callDriver (LaunchTasks (o_id offer) [task]) ag
             in Inr (onSM (setConfig hostname (setDiskPreparationOnGoing hostconfig)) ag))))"

text \<open>The vector of pending requests is the only state \<open>fetchPendingRESTfulRequest\<close> touches.\<close>

definition fetchPendingRESTfulRequest :: "int list \<Rightarrow> bool \<times> int list" where
  "fetchPendingRESTfulRequest OSDRequests =
     (case OSDRequests of
        [] \<Rightarrow> (False, [])
      | r # rs \<Rightarrow>
          (let OSDInstanceCount = r - 1
           in if 0 = OSDInstanceCount then (True, rs) else (True, OSDInstanceCount # rs)))"

definition launchOSD_message :: "lexcast \<Rightarrow> int \<Rightarrow> string" where
  "launchOSD_message L osdID = lc_str L (toExecutor_int LAUNCH_OSD) @ ''.'' @ lc_str L osdID"

fun waiting_loop :: "lexcast \<Rightarrow> TaskState list \<Rightarrow> agent \<Rightarrow> agent" where
  "waiting_loop L [] ag = ag"
| "waiting_loop L (t # ts) ag =
     (let OSDIDs = getPendingOSDID (ag_sm ag)
      in if OSDIDs \<noteq> [] then
           let Id = last OSDIDs;
               ag = onSM (\<lambda>s. s\<lparr>pendingOSDID := butlast OSDIDs\<rparr>) ag;
               ag = callDriver (SendFrameworkMessage (executorId t) (slaveId t) (launchOSD_message L Id)) ag
           in waiting_loop L ts (onSM (updateTaskToStarting (taskId t)) ag)
         else ag)"

definition handleWaitingOSDTasks :: "'y agent_env \<Rightarrow> agent \<Rightarrow> agent" where
  "handleWaitingOSDTasks E ag = waiting_loop (ae_lc E) (getWaitingOSDTask (ae_iter E) (ag_sm ag)) ag"

section \<open>Callbacks\<close>

definition diskReady :: "'y agent_env \<Rightarrow> string \<Rightarrow> agent \<Rightarrow> agent res" where
  "diskReady E failedDevsStr ag =
     (let failedDevs = explode failedDevsStr CHR '':''
      in bind_res (vec_at failedDevs 0) (\<lambda>hostname.
         bind_res (vec_at failedDevs 1) (\<lambda>list.
           let devs = [];
               _ = (if ''-'' \<noteq> list then explode list CHR '','' else []);  \<comment> \<open>a second \<open>devs\<close>, in an inner scope\<close>
               hostconfig = getConfig (ag_sm ag) hostname;
               hostconfig = updateDiskPartition (ae_lc E) devs (getJnlPartitionCount hostconfig) hostconfig;
               hostconfig = setDiskPreparationDone hostconfig
           in Inr (onSM (setConfig hostname hostconfig) ag))))"

definition statusUpdate :: "'y agent_env \<Rightarrow> TaskStatus \<Rightarrow> agent \<Rightarrow> agent res" where
  "statusUpdate E status ag =
     (let tid = st_task_id status
      in if st_state status = TASK_RUNNING then
           let ag = onSM (updateTaskToRunning tid) ag
           in case st_message status of
                None \<Rightarrow> Inr ag
              | Some msg \<Rightarrow>
                  (let tokens = explode msg CHR ''.''
                   in bind_res (vec_at tokens 0) (\<lambda>t0.
                      bind_res (lexical_cast_int (ae_lc E) t0) (\<lambda>code.
                        if code = toScheduler_int CONSUMED_OSD_ID
                        then bind_res (vec_at tokens 1) (\<lambda>consumedOSDId. Inr ag)
                        else Inr ag)))
         else if st_state status = TASK_STARTING then Inr (onSM (updateTaskToWaitingOSDID tid) ag)
         else if st_state status = TASK_FAILED then Inr (onSM (updateTaskToFailed tid) ag)
         else if st_state status = TASK_FINISHED then
           (case st_message status of
              None \<Rightarrow> Inr ag
            | Some msg \<Rightarrow>
                (let tokens = explode msg CHR ''.''
                 in bind_res (vec_at tokens 0) (\<lambda>t0.
                    bind_res (lexical_cast_int (ae_lc E) t0) (\<lambda>code.
                      if code = toScheduler_int DISK_READY
                      then bind_res (vec_at tokens 1) (\<lambda>failedDevsStr. diskReady E failedDevsStr ag)
                      else Inr ag))))
         else Inr ag)"

definition frameworkMessage :: "'y agent_env \<Rightarrow> string \<Rightarrow> string \<Rightarrow> agent \<Rightarrow> agent res" where
  "frameworkMessage E eid data ag =
     (if executorId (initialMon E ag) = eid
      then bind_res (lexical_cast_int (ae_lc E) data) (\<lambda>n. Inr (onSM (addPendingOSDID n) ag))
      else Inr ag)"

text \<open>
  The body of the loop over the offers. \<open>taskType\<close>, \<open>token\<close> and \<open>isInitialMonNode\<close> are
  local variables of \<open>resourceOffers\<close> that survive from one round to the next.
\<close>

type_synonym ro_locals = "TaskType \<times> int \<times> int"

definition accept_offer ::
  "'y agent_env \<Rightarrow> Offer \<Rightarrow> int \<Rightarrow> ro_locals \<Rightarrow> agent \<Rightarrow> (ro_locals \<times> agent) res" where
  "accept_offer E offer now = (\<lambda>(ty, token, isInitialMonNode) ag.
     (let isInitialMonNode = (if ty = MON \<and> token = 0 then 1 else isInitialMonNode)
      in bind_res (launchNode E now offer ty token isInitialMonNode ag) (\<lambda>(tid, eid, ag).
           let ag = onSM (addStagingTask tid eid ty (o_hostname offer) (o_slave_id offer)) ag;
               ag = (if isInitialMonNode = 0 \<and> ty = OSD
                     then let mon = initialMon E ag
                          in callDriver (SendFrameworkMessage (executorId mon) (slaveId mon)
                               (lc_str (ae_lc E) (toExecutor_int REGISTER_OSD))) ag
                     else ag)
           in Inr ((ty, token, isInitialMonNode), ag))))"

definition offer_decide ::
  "'y agent_env \<Rightarrow> Phase \<Rightarrow> Offer \<Rightarrow> int \<Rightarrow> bool \<Rightarrow> ro_locals \<Rightarrow> agent \<Rightarrow> (ro_locals \<times> agent) res" where
  "offer_decide E phase offer now accept = (\<lambda>(ty, token, isInitialMonNode) ag.
     if \<not> accept
     then Inr ((ty, token, isInitialMonNode), callDriver (DeclineOffer (o_id offer)) ag)
     else bind_res (offerNotEnoughResources E ag offer ty) (\<lambda>notEnough.
       if notEnough
       then Inr ((ty, token, isInitialMonNode), callDriver (DeclineOffer (o_id offer)) ag)
       else if phase = WAINTING_REQUEST
       then let (accept, reqs) = fetchPendingRESTfulRequest (ag_pendingOSD ag);
                ag = ag\<lparr>ag_pendingOSD := reqs\<rparr>
            in if \<not> accept
               then Inr ((ty, token, isInitialMonNode),
                         onSM decreaseOSDIndex (callDriver (DeclineOffer (o_id offer)) ag))
               else accept_offer E offer now (ty, token, isInitialMonNode) ag
       else accept_offer E offer now (ty, token, isInitialMonNode) ag))"

definition offer_step ::
  "'y agent_env \<Rightarrow> Phase \<Rightarrow> Offer \<times> int \<Rightarrow> ro_locals \<times> agent \<Rightarrow> (ro_locals \<times> agent) res" where
  "offer_step E phase = (\<lambda>(offer, now) ((ty, token, isInitialMonNode), ag).
     if \<not> hasRole offer (cfg_role (ag_config ag))
     then Inr ((ty, token, isInitialMonNode), callDriver (DeclineOfferFor (o_id offer) 86400) ag)
     else
       bind_res (addConfig (ae_config E) (o_hostname offer) (ag_sm ag)) (\<lambda>sm.
       bind_res (tryLaunchDiskTask E now offer (o_hostname offer) (ag\<lparr>ag_sm := sm\<rparr>)) (\<lambda>ag.
         let (accept, ty, token, sm) = nextMove ty token (o_hostname offer) (ag_sm ag)
         in offer_decide E phase offer now accept (ty, token, isInitialMonNode) (ag\<lparr>ag_sm := sm\<rparr>))))"

fun offers_loop ::
  "'y agent_env \<Rightarrow> Phase \<Rightarrow> (Offer \<times> int) list \<Rightarrow> ro_locals \<times> agent \<Rightarrow> (ro_locals \<times> agent) res" where
  "offers_loop E phase [] st = Inr st"
| "offers_loop E phase (offer # offers) st =
     bind_res (offer_step E phase offer st) (offers_loop E phase offers)"

text \<open>\<open>ty0\<close> and \<open>token0\<close> are the indeterminate initial values of the two locals.\<close>

definition resourceOffers ::
  "'y agent_env \<Rightarrow> TaskType \<Rightarrow> int \<Rightarrow> (Offer \<times> int) list \<Rightarrow> agent \<Rightarrow> agent res" where
  "resourceOffers E ty0 token0 offers ag =
     (let ag = handleWaitingOSDTasks E ag;
          phase = getCurrentPhase (ag_sm ag)
      in bind_res (offers_loop E phase offers ((ty0, token0, 0), ag)) (\<lambda>(locals, ag). Inr ag))"

end
