(* ===== verification/Task_Counters.thy ===== *)
theory Task_Counters
  imports State_Machine
begin

text \<open>
  What the counters of the state machine mean. The invariant \<open>sm_inv\<close> relates every
  counter to the task table and the phase to the counters; every operation keeps it when
  status changes follow the protocol of the executors (\<open>expected\<close>).
\<close>

section \<open>Counters and counts\<close>

fun stagingNum :: "TaskType \<Rightarrow> StateMachine \<Rightarrow> int" where
  "stagingNum MON s = monStagingNum s"
| "stagingNum OSD s = osdStagingNum s"
| "stagingNum RADOSGW s = radosgwStagingNum s"

fun runningNum :: "TaskType \<Rightarrow> StateMachine \<Rightarrow> int" where
  "runningNum MON s = monRunningNum s"
| "runningNum OSD s = osdRunningNum s"
| "runningNum RADOSGW s = radosgwRunningNum s"

fun indexNum :: "TaskType \<Rightarrow> StateMachine \<Rightarrow> int" where
  "indexNum MON s = monIndex s"
| "indexNum OSD s = osdIndex s"
| "indexNum RADOSGW s = radosgwIndex s"

definition is_pending :: "Status \<Rightarrow> bool" where
  "is_pending st \<longleftrightarrow> st = STAGING \<or> st = WAITING_OSDID \<or> st = STARTING"

definition nRun :: "TaskType \<Rightarrow> StateMachine \<Rightarrow> int" where
  "nRun ty s = count_vals (\<lambda>t. taskType t = ty \<and> currentStatus t = RUNNING) (taskMap s)"

definition nPend :: "TaskType \<Rightarrow> StateMachine \<Rightarrow> int" where
  "nPend ty s = count_vals (\<lambda>t. taskType t = ty \<and> is_pending (currentStatus t)) (taskMap s)"

definition nFail :: "TaskType \<Rightarrow> StateMachine \<Rightarrow> int" where
  "nFail ty s = count_vals (\<lambda>t. taskType t = ty \<and> currentStatus t = FAILED) (taskMap s)"

lemmas n_defs = nRun_def nPend_def nFail_def

definition phase_of :: "StateMachine \<Rightarrow> Phase" where
  "phase_of s =
     (if runningNum MON s < 1 then BOOTSTRAP_MON
      else if runningNum OSD s < 3 then BOOTSTRAP_OSD
      else if runningNum RADOSGW s < 1 then BOOTSTRAP_RADOSGW
      else WAINTING_REQUEST)"

text \<open>Two state machines that agree on tasks, counters and phase.\<close>

definition same_tasks :: "StateMachine \<Rightarrow> StateMachine \<Rightarrow> bool" where
  "same_tasks s s' \<longleftrightarrow>
     taskMap s' = taskMap s \<and> currentPhase s' = currentPhase s \<and>
     (\<forall>ty. stagingNum ty s' = stagingNum ty s \<and> runningNum ty s' = runningNum ty s)"

lemma same_tasks_refl [simp]: "same_tasks s s"
  by (simp add: same_tasks_def)

lemma same_tasks_trans: "same_tasks s t \<Longrightarrow> same_tasks t u \<Longrightarrow> same_tasks s u"
  by (simp add: same_tasks_def)

lemma same_tasksD:
  assumes "same_tasks s s'"
  shows "taskMap s' = taskMap s" "currentPhase s' = currentPhase s"
    "stagingNum ty s' = stagingNum ty s" "runningNum ty s' = runningNum ty s"
  using assms by (simp_all add: same_tasks_def)

section \<open>Effect of the operations on the counters\<close>

lemma moveState_frame [simp, frame_simps]:
  "taskMap (moveState s) = taskMap s"
  "stagingNum ty (moveState s) = stagingNum ty s"
  "runningNum ty (moveState s) = runningNum ty s"
  "indexNum ty (moveState s) = indexNum ty s"
  "hostConfigMap (moveState s) = hostConfigMap s"
  "defaultHostConfig (moveState s) = defaultHostConfig s"
  "pendingOSDID (moveState s) = pendingOSDID s"
  by (cases ty; simp add: moveState_def)+

lemma currentPhase_moveState [simp]: "currentPhase (moveState s) = phase_of s"
  by (simp add: moveState_def phase_of_def)

lemma phase_of_eq:
  "(\<And>ty. runningNum ty s' = runningNum ty s) \<Longrightarrow> phase_of s' = phase_of s"
  unfolding phase_of_def by presburger

lemma phase_of_moveState [simp]: "phase_of (moveState s) = phase_of s"
  by (rule phase_of_eq) simp

lemma updateCounters_frame [simp, frame_simps]:
  "taskMap (updateCounters ty old new s) = taskMap s"
  "currentPhase (updateCounters ty old new s) = currentPhase s"
  "indexNum ty' (updateCounters ty old new s) = indexNum ty' s"
  "hostConfigMap (updateCounters ty old new s) = hostConfigMap s"
  "defaultHostConfig (updateCounters ty old new s) = defaultHostConfig s"
  "pendingOSDID (updateCounters ty old new s) = pendingOSDID s"
  by (cases ty; cases ty'; simp add: updateCounters_def Let_def)+

lemma stagingNum_updateCounters [simp]:
  "stagingNum ty' (updateCounters ty old new s) =
     stagingNum ty' s -
       (if ty' = ty \<and> (old \<in> {STAGING, STARTING} \<and> new = RUNNING \<or> old = STAGING \<and> new = FAILED)
        then 1 else 0)"
  by (cases ty; cases ty'; simp add: updateCounters_def Let_def)

lemma runningNum_updateCounters [simp]:
  "runningNum ty' (updateCounters ty old new s) =
     runningNum ty' s
       + (if ty' = ty \<and> old \<in> {STAGING, STARTING} \<and> new = RUNNING then 1 else 0)
       - (if ty' = ty \<and> old = RUNNING \<and> new = FAILED then 1 else 0)"
  by (cases ty; cases ty'; simp add: updateCounters_def Let_def)

lemma num_taskMap_update [simp]:
  "stagingNum ty (s\<lparr>taskMap := m\<rparr>) = stagingNum ty s"
  "runningNum ty (s\<lparr>taskMap := m\<rparr>) = runningNum ty s"
  "indexNum ty (s\<lparr>taskMap := m\<rparr>) = indexNum ty s"
  by (cases ty; simp)+

lemma addStagingTask_frame [simp, frame_simps]:
  "taskMap (addStagingTask tid eid ty host sid s) =
     map_put tid (TaskState_new tid eid ty host sid STAGING) (taskMap s)"
  "currentPhase (addStagingTask tid eid ty host sid s) = currentPhase s"
  "runningNum ty' (addStagingTask tid eid ty host sid s) = runningNum ty' s"
  "indexNum ty' (addStagingTask tid eid ty host sid s) = indexNum ty' s"
  "hostConfigMap (addStagingTask tid eid ty host sid s) = hostConfigMap s"
  "defaultHostConfig (addStagingTask tid eid ty host sid s) = defaultHostConfig s"
  "pendingOSDID (addStagingTask tid eid ty host sid s) = pendingOSDID s"
  by (cases ty; cases ty'; simp add: addStagingTask_def Let_def)+

lemma stagingNum_addStagingTask [simp]:
  "stagingNum ty' (addStagingTask tid eid ty host sid s) =
     stagingNum ty' s + (if ty' = ty then 1 else 0)"
  by (cases ty; cases ty'; simp add: addStagingTask_def Let_def)

section \<open>Invariant\<close>

text \<open>
  The status changes the executors send: an OSD is staged, waits for its OSD id, starts and
  runs; a MON or a RADOSGW is staged and runs; anything may fail.
\<close>

fun expected :: "TaskState \<Rightarrow> Status \<Rightarrow> bool" where
  "expected t RUNNING \<longleftrightarrow>
     currentStatus t = RUNNING \<or> currentStatus t = (if taskType t = OSD then STARTING else STAGING)"
| "expected t WAITING_OSDID \<longleftrightarrow>
     taskType t = OSD \<and> (currentStatus t = STAGING \<or> currentStatus t = WAITING_OSDID)"
| "expected t STARTING \<longleftrightarrow>
     taskType t = OSD \<and> (currentStatus t = WAITING_OSDID \<or> currentStatus t = STARTING)"
| "expected t FAILED \<longleftrightarrow> True"
| "expected t _ \<longleftrightarrow> False"

definition task_ok :: "TaskState \<Rightarrow> bool" where
  "task_ok t \<longleftrightarrow>
     (is_pending (currentStatus t) \<or> currentStatus t = RUNNING \<or> currentStatus t = FAILED) \<and>
     (taskType t \<noteq> OSD \<longrightarrow> currentStatus t \<noteq> WAITING_OSDID \<and> currentStatus t \<noteq> STARTING)"

definition counters_ok :: "TaskType \<Rightarrow> StateMachine \<Rightarrow> bool" where
  "counters_ok ty s \<longleftrightarrow>
     runningNum ty s = nRun ty s \<and>
     nPend ty s \<le> stagingNum ty s \<and> stagingNum ty s \<le> nPend ty s + nFail ty s \<and>
     (ty \<noteq> OSD \<longrightarrow> stagingNum ty s = nPend ty s)"

definition sm_inv :: "StateMachine \<Rightarrow> bool" where
  "sm_inv s \<longleftrightarrow>
     distinct (map fst (taskMap s)) \<and>
     (\<forall>k t. map_of (taskMap s) k = Some t \<longrightarrow> taskId t = k \<and> task_ok t) \<and>
     currentPhase s = phase_of s \<and>
     (\<forall>ty. counters_ok ty s)"

lemma n_nonneg [simp]: "0 \<le> nRun ty s" "0 \<le> nPend ty s" "0 \<le> nFail ty s"
  by (simp_all add: n_defs)

lemma counters_nonneg: "sm_inv s \<Longrightarrow> 0 \<le> stagingNum ty s \<and> 0 \<le> runningNum ty s"
  using order_trans [OF n_nonneg(2) [of ty s]] by (simp add: sm_inv_def counters_ok_def)

lemma sm_inv_new: "sm_inv (StateMachine_new indet config)"
proof -
  have "counters_ok ty (StateMachine_new indet config)" for ty
    by (cases ty) (simp_all add: counters_ok_def n_defs StateMachine_new_def)
  then show ?thesis
    by (simp add: sm_inv_def phase_of_def) (simp add: StateMachine_new_def)
qed

lemma sm_inv_same_tasks: "sm_inv s \<Longrightarrow> same_tasks s s' \<Longrightarrow> sm_inv s'"
  using phase_of_eq [of s' s]
  by (simp add: sm_inv_def counters_ok_def n_defs same_tasks_def)

lemma sm_inv_addStagingTask:
  assumes "sm_inv s" and "map_of (taskMap s) tid = None"
  shows "sm_inv (addStagingTask tid eid ty host sid s)"
proof -
  let ?s = "addStagingTask tid eid ty host sid s"
  have "counters_ok ty' s" for ty' using assms(1) by (simp add: sm_inv_def)
  then have "counters_ok ty' ?s" for ty'
    using assms(2) unfolding counters_ok_def
    by (auto simp: n_defs count_vals_put_new is_pending_def)
  moreover have "phase_of ?s = phase_of s" by (rule phase_of_eq) simp
  ultimately show ?thesis
    using assms by (auto simp: sm_inv_def task_ok_def is_pending_def distinct_map_put
        simp del: keys_map_put)
qed

text \<open>One status change, with the counters updated as \<open>updateCounters\<close> does.\<close>

lemma counters_ok_set_status:
  assumes "counters_ok ty s" and t: "map_of (taskMap s) tid = Some t"
    and "task_ok t" and "expected t new"
    and s': "taskMap s' = map_put tid (t\<lparr>currentStatus := new\<rparr>) (taskMap s)"
      "stagingNum ty s' = stagingNum ty (updateCounters (taskType t) (currentStatus t) new s)"
      "runningNum ty s' = runningNum ty (updateCounters (taskType t) (currentStatus t) new s)"
  shows "counters_ok ty s'"
  using assms(1,3,4) unfolding counters_ok_def s'(2,3)
  by (cases new; cases "currentStatus t")
     (auto simp: n_defs s'(1) count_vals_put_old [OF t] task_ok_def is_pending_def split: if_splits)

lemma task_ok_set_status: "task_ok t \<Longrightarrow> expected t new \<Longrightarrow> task_ok (t\<lparr>currentStatus := new\<rparr>)"
  by (cases new) (auto simp: task_ok_def is_pending_def split: if_splits)

lemma sm_inv_set_status:
  assumes inv: "sm_inv s" and t: "map_of (taskMap s) tid = Some t" and ex: "expected t new"
    and s': "taskMap s' = map_put tid (t\<lparr>currentStatus := new\<rparr>) (taskMap s)"
      "\<And>ty. stagingNum ty s' = stagingNum ty (updateCounters (taskType t) (currentStatus t) new s)"
      "\<And>ty. runningNum ty s' = runningNum ty (updateCounters (taskType t) (currentStatus t) new s)"
      "currentPhase s' = phase_of s'"
  shows "sm_inv s'"
proof -
  from inv t have ok: "taskId t = tid" "task_ok t" by (auto simp: sm_inv_def)
  have "counters_ok ty s'" for ty
    using counters_ok_set_status [OF _ t ok(2) ex s'(1-3)] inv by (simp add: sm_inv_def)
  moreover have "task_ok (t\<lparr>currentStatus := new\<rparr>)" using ok(2) ex by (rule task_ok_set_status)
  ultimately show ?thesis
    using inv ok s'(1,4) by (auto simp: sm_inv_def distinct_map_put simp del: keys_map_put)
qed

text \<open>Writing only statuses that do not touch a running task leaves the phase alone.\<close>

lemma runningNum_no_run:
  "new \<noteq> RUNNING \<Longrightarrow> new \<noteq> FAILED \<Longrightarrow>
   runningNum ty (updateCounters ty' old new s) = runningNum ty s"
  by simp

lemma sm_inv_updateTaskToRunning:
  assumes "sm_inv s"
    and "\<And>t. map_of (taskMap s) tid = Some t \<Longrightarrow> expected t RUNNING"
  shows "sm_inv (updateTaskToRunning tid s)"
proof (cases "map_of (taskMap s) tid")
  case (Some t)
  show ?thesis
    by (rule sm_inv_set_status [OF assms(1) Some assms(2) [OF Some]])
       (simp_all add: updateTaskToRunning_def Some Let_def)
qed (simp add: assms(1) updateTaskToRunning_def)

lemma sm_inv_updateTaskToFailed:
  assumes "sm_inv s"
  shows "sm_inv (updateTaskToFailed tid s)"
proof (cases "map_of (taskMap s) tid")
  case (Some t)
  show ?thesis
    by (rule sm_inv_set_status [OF assms Some, of FAILED])
       (simp_all add: updateTaskToFailed_def Some Let_def)
qed (simp add: assms updateTaskToFailed_def)

lemma phase_of_update_quiet:
  assumes "new \<noteq> RUNNING" "new \<noteq> FAILED"
  shows "phase_of (updateCounters ty old new s\<lparr>taskMap := m\<rparr>) = phase_of s"
  by (rule phase_of_eq) (simp add: assms)

lemma sm_inv_updateTaskToWaitingOSDID:
  assumes "sm_inv s"
    and "\<And>t. map_of (taskMap s) tid = Some t \<Longrightarrow> expected t WAITING_OSDID"
  shows "sm_inv (updateTaskToWaitingOSDID tid s)"
proof (cases "map_of (taskMap s) tid")
  case (Some t)
  have "currentPhase s = phase_of s" using assms(1) by (simp add: sm_inv_def)
  then show ?thesis
    by (intro sm_inv_set_status [OF assms(1) Some assms(2) [OF Some]])
       (simp_all add: updateTaskToWaitingOSDID_def Some Let_def phase_of_update_quiet)
qed (simp add: assms(1) updateTaskToWaitingOSDID_def)

lemma sm_inv_updateTaskToStarting:
  assumes "sm_inv s"
    and "\<And>t. map_of (taskMap s) tid = Some t \<Longrightarrow> expected t STARTING"
  shows "sm_inv (updateTaskToStarting tid s)"
proof (cases "map_of (taskMap s) tid")
  case (Some t)
  have "currentPhase s = phase_of s" using assms(1) by (simp add: sm_inv_def)
  then show ?thesis
    by (intro sm_inv_set_status [OF assms(1) Some assms(2) [OF Some]])
       (simp_all add: updateTaskToStarting_def Some Let_def phase_of_update_quiet)
qed (simp add: assms(1) updateTaskToStarting_def)

section \<open>Operations that leave the tasks alone\<close>

lemma same_tasks_decreaseOSDIndex [simp]: "same_tasks s (decreaseOSDIndex s)"
proof -
  have "stagingNum ty (decreaseOSDIndex s) = stagingNum ty s \<and>
        runningNum ty (decreaseOSDIndex s) = runningNum ty s" for ty
    by (cases ty) (simp_all add: decreaseOSDIndex_def)
  then show ?thesis by (simp add: same_tasks_def) (simp add: decreaseOSDIndex_def)
qed

lemma same_tasks_addPendingOSDID [simp]: "same_tasks s (addPendingOSDID i s)"
proof -
  have "stagingNum ty (addPendingOSDID i s) = stagingNum ty s \<and>
        runningNum ty (addPendingOSDID i s) = runningNum ty s" for ty
    by (cases ty) (simp_all add: addPendingOSDID_def)
  then show ?thesis by (simp add: same_tasks_def) (simp add: addPendingOSDID_def)
qed

lemma same_tasks_pendingOSDID [simp]: "same_tasks s (s\<lparr>pendingOSDID := ids\<rparr>)"
proof -
  have "stagingNum ty (s\<lparr>pendingOSDID := ids\<rparr>) = stagingNum ty s \<and>
        runningNum ty (s\<lparr>pendingOSDID := ids\<rparr>) = runningNum ty s" for ty
    by (cases ty) simp_all
  then show ?thesis by (simp add: same_tasks_def)
qed

lemma same_tasks_hostConfigMap [simp]: "same_tasks s (s\<lparr>hostConfigMap := m\<rparr>)"
proof -
  have "stagingNum ty (s\<lparr>hostConfigMap := m\<rparr>) = stagingNum ty s \<and>
        runningNum ty (s\<lparr>hostConfigMap := m\<rparr>) = runningNum ty s" for ty
    by (cases ty) simp_all
  then show ?thesis by (simp add: same_tasks_def)
qed

lemma same_tasks_setConfig [simp]: "same_tasks s (setConfig h hc s)"
proof -
  have "stagingNum ty (setConfig h hc s) = stagingNum ty s \<and>
        runningNum ty (setConfig h hc s) = runningNum ty s" for ty
    by (cases ty) (simp_all add: setConfig_def split: option.splits)
  then show ?thesis
    by (simp add: same_tasks_def) (simp add: setConfig_def split: option.splits)
qed

lemma same_tasks_addConfig: "addConfig E h s = Inr s' \<Longrightarrow> same_tasks s s'"
  by (auto simp: addConfig_def res_simps split: option.splits)

lemma same_tasks_nextMove:
  "nextMove ty tok h s = (b, ty', tok', s') \<Longrightarrow> same_tasks s s'"
proof -
  assume nm: "nextMove ty tok h s = (b, ty', tok', s')"
  have "stagingNum t s' = stagingNum t s \<and> runningNum t s' = runningNum t s" for t
    using nm by (cases t) (auto simp: nextMove_def split: if_splits)
  with nm show ?thesis
    by (auto simp: same_tasks_def nextMove_def split: if_splits)
qed

end
