(* ===== verification/Scheduler_Steps.thy ===== *)
theory Scheduler_Steps
  imports Scheduler_Agent Task_Counters
begin

text \<open>
  What each helper of the scheduler's callbacks changes: the task table and counters, the
  indices that number the tasks, the requests and the calls on the driver. The lemma
  \<open>offer_step_cases\<close> sums up one round of the loop over the offers.
\<close>

section \<open>Frames\<close>

definition same_index :: "StateMachine \<Rightarrow> StateMachine \<Rightarrow> bool" where
  "same_index s s' \<longleftrightarrow> (\<forall>ty. indexNum ty s' = indexNum ty s)"

lemma same_index_refl [simp]: "same_index s s"
  by (simp add: same_index_def)

lemma same_index_setConfig [simp]: "same_index s (setConfig h hc s)"
  unfolding same_index_def
proof
  show "indexNum ty (setConfig h hc s) = indexNum ty s" for ty
    by (cases ty) (simp_all add: setConfig_def split: option.splits)
qed

lemma same_index_hostConfigMap [simp]: "same_index s (s\<lparr>hostConfigMap := m\<rparr>)"
  unfolding same_index_def
proof
  show "indexNum ty (s\<lparr>hostConfigMap := m\<rparr>) = indexNum ty s" for ty by (cases ty) simp_all
qed

lemma same_index_addConfig: "addConfig E h s = Inr s' \<Longrightarrow> same_index s s'"
  by (auto simp: addConfig_def res_simps split: option.splits)

lemma agent_frame [simp]:
  "ag_sm (callDriver c ag) = ag_sm ag"
  "ag_config (callDriver c ag) = ag_config ag"
  "ag_pendingOSD (callDriver c ag) = ag_pendingOSD ag"
  "ag_driver (callDriver c ag) = ag_driver ag @ [c]"
  "ag_sm (onSM f ag) = f (ag_sm ag)"
  "ag_config (onSM f ag) = ag_config ag"
  "ag_pendingOSD (onSM f ag) = ag_pendingOSD ag"
  "ag_driver (onSM f ag) = ag_driver ag"
  by (simp_all add: callDriver_def onSM_def)

text \<open>Only host configurations and the record of driver calls may differ.\<close>

definition same_core :: "agent \<Rightarrow> agent \<Rightarrow> bool" where
  "same_core ag ag' \<longleftrightarrow>
     same_tasks (ag_sm ag) (ag_sm ag') \<and> same_index (ag_sm ag) (ag_sm ag') \<and>
     ag_config ag' = ag_config ag \<and> ag_pendingOSD ag' = ag_pendingOSD ag"

lemma same_core_refl [simp]: "same_core ag ag"
  by (simp add: same_core_def)

section \<open>Launching\<close>

lemma addHostConfig_core:
  "addHostConfig ty h ag = (labels, ag') \<Longrightarrow> same_core ag ag' \<and> ag_driver ag' = ag_driver ag"
  by (auto simp: addHostConfig_def same_core_def Let_def split: if_splits prod.splits)

definition task_id_of :: "'y agent_env \<Rightarrow> TaskType \<Rightarrow> int \<Rightarrow> Offer \<Rightarrow> string" where
  "task_id_of E ty token offer =
     createTaskName E ty token @ ''.'' @ o_hostname offer @ ''.'' @ o_slave_id offer"

lemma node_task_sel [simp]:
  "ti_task_id (node_task E offer ty token ini role executor labels) = task_id_of E ty token offer"
  "ti_name (node_task E offer ty token ini role executor labels) = createTaskName E ty token"
  "ti_executor (node_task E offer ty token ini role executor labels) = executor"
  "ti_labels (node_task E offer ty token ini role executor labels) = Some labels"
  "ti_data (node_task E offer ty token ini role executor labels) =
     Some (lc_str (ae_lc E) ini @ ''.'' @ lc_str (ae_lc E) (taskType_int ty))"
  by (simp_all add: node_task_def task_id_of_def Let_def)

text \<open>The id that \<open>createExecutor\<close> gives to the executor of a node.\<close>

definition executor_id_of :: "'y agent_env \<Rightarrow> TaskType \<Rightarrow> int \<Rightarrow> int \<Rightarrow> string" where
  "executor_id_of E ty token now =
     ''ceph-mesos-executor'' @ ''.'' @ lc_str (ae_lc E) (taskType_int ty) @ ''.'' @ lc_str (ae_lc E) token
       @ ''.'' @ lc_str (ae_lc E) now"

definition node_executor :: "string \<Rightarrow> ExecutorInfo \<Rightarrow> bool" where
  "node_executor eid executor \<longleftrightarrow>
     ei_executor_id executor = eid \<and> ei_command executor = ''./ceph-mesos-executor''"

lemma createExecutor_node:
  assumes "createExecutor E now ''ceph-mesos-executor'' ty token ini ag = Inr (eid, executor)"
  shows "eid = executor_id_of E ty token now \<and> node_executor eid executor"
  using assms by (auto simp: createExecutor_def executor_id_of_def node_executor_def Let_def elim!: bind_resE)

lemma launchNode_effect:
  assumes "launchNode E now offer ty token ini ag = Inr (tid, eid, ag')"
  obtains executor labels ag1 where
    "tid = task_id_of E ty token offer" and "eid = executor_id_of E ty token now"
    and "node_executor eid executor" and "addHostConfig ty (o_hostname offer) ag = (labels, ag1)"
    and "same_core ag ag1"
    and "ag' = callDriver (LaunchTasks (o_id offer)
           [node_task E offer ty token ini (cfg_role (ag_config ag)) executor labels]) ag1"
    and "ag_driver ag1 = ag_driver ag"
proof -
  obtain labels ag1 where hc: "addHostConfig ty (o_hostname offer) ag = (labels, ag1)"
    by fastforce
  note core = addHostConfig_core [OF hc]
  obtain executor where ex: "createExecutor E now ''ceph-mesos-executor'' ty token ini ag = Inr (eid, executor)"
    and eq: "tid = task_id_of E ty token offer"
      "ag' = callDriver (LaunchTasks (o_id offer)
         [node_task E offer ty token ini (cfg_role (ag_config ag1)) executor labels]) ag1"
    using assms unfolding launchNode_def hc
    by (elim bind_resE) (auto simp: Let_def split: prod.splits)
  show thesis
    using createExecutor_node [OF ex] core eq(2)
    by (intro that [OF eq(1) _ _ hc]) (auto simp: same_core_def)
qed

text \<open>The disk task goes out exactly when the host has raw devices that nobody prepares yet.\<close>

lemma tryLaunchDiskTask_cases:
  assumes "tryLaunchDiskTask E now offer h ag = Inr ag'"
  obtains (skip) "ag' = ag"
  | (launch) ip where
      "ag' = onSM (setConfig h (setDiskPreparationOnGoing (getConfig (ag_sm ag) h)))
               (callDriver (LaunchTasks (o_id offer)
                  [disk_task E now offer (ag_config ag) (getConfig (ag_sm ag) h) ip]) ag)"
  using assms
  by (auto simp: tryLaunchDiskTask_def Let_def split: if_splits elim!: bind_resE)

lemma getConfig_setConfig [simp]: "getConfig (setConfig h hc s) h = hc"
  by (simp add: getConfig_def setConfig_def split: option.splits)

lemma tryLaunchDiskTask_core:
  assumes "tryLaunchDiskTask E now offer h ag = Inr ag'"
  shows "same_core ag ag'"
  using assms by (cases rule: tryLaunchDiskTask_cases) (auto simp: same_core_def)

text \<open>A task for the disk executor, and how it and its executor are named.\<close>

definition disk_named :: "string \<Rightarrow> bool" where
  "disk_named s \<longleftrightarrow> take 24 s = ''ceph-mesos-disk-executor''"

definition disk_launch :: "TaskInfo \<Rightarrow> bool" where
  "disk_launch task \<longleftrightarrow>
     ei_command (ti_executor task) = ''./ceph-mesos-disk-executor'' \<and>
     disk_named (ti_task_id task) \<and> disk_named (ei_executor_id (ti_executor task))"

lemma tryLaunchDiskTask_driver:
  assumes "tryLaunchDiskTask E now offer h ag = Inr ag'"
  shows "ag' = ag \<or>
    (\<exists>task. ag_driver ag' = ag_driver ag @ [LaunchTasks (o_id offer) [task]] \<and> ti_data task = None \<and>
       disk_launch task) \<and>
    isPreparingDisk (getConfig (ag_sm ag') h)"
  using assms
  by (cases rule: tryLaunchDiskTask_cases)
     (auto simp: isPreparingDisk_def setDiskPreparationOnGoing_def disk_task_def disk_launch_def
       disk_named_def Let_def)

section \<open>nextMove\<close>

fun may_launch :: "TaskType \<Rightarrow> StateMachine \<Rightarrow> bool" where
  "may_launch MON s \<longleftrightarrow>
     (currentPhase s = RECONCILING_TASKS \<or> currentPhase s = BOOTSTRAP_MON) \<and>
     stagingNum MON s < 1 \<and> stagingNum MON s + runningNum MON s < 1"
| "may_launch OSD s \<longleftrightarrow>
     currentPhase s = BOOTSTRAP_OSD \<and> stagingNum OSD s < 3 \<and> stagingNum OSD s + runningNum OSD s < 3 \<or>
     currentPhase s = WAINTING_REQUEST"
| "may_launch RADOSGW s \<longleftrightarrow> currentPhase s = BOOTSTRAP_RADOSGW \<and> stagingNum RADOSGW s < 1"

lemma may_launch_same_tasks: "same_tasks s s' \<Longrightarrow> may_launch ty s' = may_launch ty s"
  unfolding same_tasks_def by (cases ty) (simp_all only: may_launch.simps)

lemma nextMove_accept:
  assumes "nextMove ty tok h s = (True, ty', tok', s')"
  shows "may_launch ty' s" "tok' = indexNum ty' s"
    "indexNum t s' = indexNum t s + (if t = ty' then 1 else 0)"
    "\<not> isPreparingDisk (getConfig s h)"
  using assms by (cases t; cases "currentPhase s"; auto simp: nextMove_def split: if_splits)+

lemma nextMove_decline:
  "nextMove ty tok h s = (False, ty', tok', s') \<Longrightarrow> s' = s"
  by (auto simp: nextMove_def split: if_splits)

section \<open>One offer\<close>

text \<open>A call that answers an offer.\<close>

fun answers :: "string \<Rightarrow> driver_call \<Rightarrow> bool" where
  "answers oid (DeclineOffer i) \<longleftrightarrow> i = oid"
| "answers oid (DeclineOfferFor i secs) \<longleftrightarrow> i = oid"
| "answers oid (LaunchTasks i tasks) \<longleftrightarrow> i = oid"
| "answers oid (SendFrameworkMessage eid sid msg) \<longleftrightarrow> False"

text \<open>A call that launches no Ceph node: node tasks, and only they, carry data.\<close>

fun no_node :: "driver_call \<Rightarrow> bool" where
  "no_node (LaunchTasks i tasks) \<longleftrightarrow> (\<forall>t \<in> set tasks. ti_data t = None)"
| "no_node _ \<longleftrightarrow> True"

text \<open>The message that asks the initial MON for an OSD id.\<close>

definition register_call :: "'y agent_env \<Rightarrow> driver_call \<Rightarrow> bool" where
  "register_call E c \<longleftrightarrow>
     (\<exists>eid sid. c = SendFrameworkMessage eid sid (lc_str (ae_lc E) (toExecutor_int REGISTER_OSD)))"

lemma accept_offer_effect:
  assumes "accept_offer E offer now (ty, token, ini) ag = Inr (loc', ag')"
  obtains ini' eid ag1 executor labels cs where
    "ini' = (if ty = MON \<and> token = 0 then 1 else ini)" and "loc' = (ty, token, ini')"
    and "same_core ag ag1"
    and "ag_sm ag' = addStagingTask (task_id_of E ty token offer) eid ty
                       (o_hostname offer) (o_slave_id offer) (ag_sm ag1)"
    and "ag_config ag' = ag_config ag" and "ag_pendingOSD ag' = ag_pendingOSD ag"
    and "ag_driver ag' = ag_driver ag @
           LaunchTasks (o_id offer)
             [node_task E offer ty token ini' (cfg_role (ag_config ag)) executor labels] # cs"
    and "\<forall>c \<in> set cs. register_call E c"
    and "eid = executor_id_of E ty token now" and "node_executor eid executor"
    and "addHostConfig ty (o_hostname offer) ag = (labels, ag1)"
proof -
  let ?ini = "if ty = MON \<and> token = 0 then 1 else ini"
  obtain tid eid ag2 where
    ln: "launchNode E now offer ty token ?ini ag = Inr (tid, eid, ag2)"
    using assms by (auto simp: accept_offer_def Let_def elim!: bind_resE)
  let ?ag2 = "onSM (addStagingTask tid eid ty (o_hostname offer) (o_slave_id offer)) ag2"
  obtain cs where cs: "ag_driver ag' = ag_driver ?ag2 @ cs" "\<forall>c \<in> set cs. register_call E c"
    and rest: "loc' = (ty, token, ?ini)" "ag_sm ag' = ag_sm ?ag2"
      "ag_config ag' = ag_config ?ag2" "ag_pendingOSD ag' = ag_pendingOSD ?ag2"
    using assms ln by (auto simp: accept_offer_def register_call_def Let_def split: if_splits)
  from ln show thesis
  proof (cases rule: launchNode_effect)
    case (1 executor labels ag1)
    show thesis
      using that [OF refl rest(1) 1(5) _ _ _ _ cs(2) 1(2,3,4)] rest cs 1(1,5-7) by (simp add: same_core_def)
  qed
qed

section \<open>Host configurations\<close>

text \<open>What two configurations of one host have in common while no partition is made or taken.\<close>

definition same_pools :: "HostConfig \<Rightarrow> HostConfig \<Rightarrow> bool" where
  "same_pools hc hc' \<longleftrightarrow>
     hc_pendingOSDDevs hc' = hc_pendingOSDDevs hc \<and> hc_pendingJNLDevs hc' = hc_pendingJNLDevs hc \<and>
     jnlPartsCount hc' = jnlPartsCount hc \<and> osdPartitions hc' = osdPartitions hc \<and>
     jnlPartitions hc' = jnlPartitions hc"

lemma same_pools_refl [simp]: "same_pools hc hc"
  by (simp add: same_pools_def)

lemma same_pools_ongoing [simp]: "same_pools hc (setDiskPreparationOnGoing hc)"
  by (simp add: same_pools_def setDiskPreparationOnGoing_def)

lemma same_pools_trans: "same_pools a b \<Longrightarrow> same_pools b c \<Longrightarrow> same_pools a c"
  by (simp add: same_pools_def)

text \<open>No host is dropped, the pools of the known ones stay, and a new one is as its file says.\<close>

definition host_from :: "'y agent_env \<Rightarrow> StateMachine \<Rightarrow> string \<Rightarrow> HostConfig \<Rightarrow> bool" where
  "host_from E s h hc' \<longleftrightarrow>
     (case hostConfigMap s h of
        Some hc \<Rightarrow> same_pools hc hc'
      | None \<Rightarrow> \<exists>hc. HostConfig_by_hostname (ae_config E) h = Inr hc \<and> same_pools hc hc')"

definition hosts_step :: "'y agent_env \<Rightarrow> StateMachine \<Rightarrow> StateMachine \<Rightarrow> bool" where
  "hosts_step E s s' \<longleftrightarrow>
     dom (hostConfigMap s) \<subseteq> dom (hostConfigMap s') \<and>
     (\<forall>h hc'. hostConfigMap s' h = Some hc' \<longrightarrow> host_from E s h hc')"

lemma host_from_None:
  "hostConfigMap s h = None \<Longrightarrow>
   host_from E s h hc' \<longleftrightarrow> (\<exists>hc. HostConfig_by_hostname (ae_config E) h = Inr hc \<and> same_pools hc hc')"
  by (simp add: host_from_def)

lemma host_from_Some: "hostConfigMap s h = Some hc \<Longrightarrow> host_from E s h hc' \<longleftrightarrow> same_pools hc hc'"
  by (simp add: host_from_def)

lemma host_from_pools: "host_from E s h hc \<Longrightarrow> same_pools hc hc' \<Longrightarrow> host_from E s h hc'"
  by (cases "hostConfigMap s h") (auto simp: host_from_None host_from_Some intro: same_pools_trans)

lemma hosts_step_same: "hostConfigMap s' = hostConfigMap s \<Longrightarrow> hosts_step E s s'"
  by (simp add: hosts_step_def host_from_Some)

lemma hosts_step_trans:
  assumes "hosts_step E s s'" and "hosts_step E s' s''"
  shows "hosts_step E s s''"
proof -
  have "host_from E s h hc''" if h: "hostConfigMap s'' h = Some hc''" for h hc''
  proof -
    have from': "host_from E s' h hc''" using assms(2) h by (simp add: hosts_step_def)
    show ?thesis
    proof (cases "hostConfigMap s' h")
      case None
      then have "hostConfigMap s h = None" using assms(1) by (auto simp: hosts_step_def)
      with from' None show ?thesis by (simp add: host_from_None)
    next
      case (Some hc')
      then have "same_pools hc' hc''" using from' by (simp add: host_from_Some)
      moreover have "host_from E s h hc'" using Some assms(1) by (simp add: hosts_step_def)
      ultimately show ?thesis by (rule host_from_pools [rotated])
    qed
  qed
  moreover have "dom (hostConfigMap s) \<subseteq> dom (hostConfigMap s'')" using assms unfolding hosts_step_def by blast
  ultimately show ?thesis by (simp add: hosts_step_def)
qed

lemma hosts_step_upd:
  assumes "hostConfigMap s' = (hostConfigMap s)(h \<mapsto> hc)" and "host_from E s h hc"
  shows "hosts_step E s s'"
  using assms by (auto simp: hosts_step_def host_from_Some)

lemma hosts_step_addConfig:
  assumes "addConfig (ae_config E) h s = Inr s'"
  shows "hosts_step E s s'" and "h \<in> dom (hostConfigMap s')"
proof -
  have "hosts_step E s s' \<and> h \<in> dom (hostConfigMap s')"
  proof (cases "hostConfigMap s h")
    case None
    with assms obtain hc where "HostConfig_by_hostname (ae_config E) h = Inr hc"
        "s' = s\<lparr>hostConfigMap := (hostConfigMap s)(h \<mapsto> hc)\<rparr>"
      by (auto simp: addConfig_def res_simps)
    with None show ?thesis by (intro conjI hosts_step_upd [of _ _ h hc]) (simp_all add: host_from_None)
  qed (use assms in \<open>auto simp: addConfig_def hosts_step_same\<close>)
  then show "hosts_step E s s'" and "h \<in> dom (hostConfigMap s')" by simp_all
qed

lemma hosts_step_setConfig:
  assumes "same_pools (getConfig s h) hc"
  shows "hosts_step E s (setConfig h hc s)"
proof (cases "hostConfigMap s h")
  case (Some hc0)
  with assms show ?thesis
    by (intro hosts_step_upd [of _ _ h hc]) (simp_all add: setConfig_def getConfig_def host_from_Some)
qed (simp add: setConfig_def hosts_step_same)

lemma hosts_step_disk:
  assumes "tryLaunchDiskTask E now offer h ag = Inr ag'"
  shows "hosts_step E (ag_sm ag) (ag_sm ag')"
  using assms by (cases rule: tryLaunchDiskTask_cases) (simp_all add: hosts_step_same hosts_step_setConfig)

lemma hostConfigMap_nextMove: "nextMove ty tok h s = (acc, t1, k, s') \<Longrightarrow> hostConfigMap s' = hostConfigMap s"
  by (auto simp: nextMove_def split: if_splits)

text \<open>The calls of a round that launches no node: an answer, or a task for the disk executor.\<close>

fun disk_call :: "driver_call \<Rightarrow> bool" where
  "disk_call (LaunchTasks i tasks) \<longleftrightarrow> (\<forall>task \<in> set tasks. disk_launch task)"
| "disk_call (SendFrameworkMessage eid sid msg) \<longleftrightarrow> False"
| "disk_call _ \<longleftrightarrow> True"

text \<open>One round of the loop either answers without a new task or launches exactly one.\<close>

lemma offer_step_cases:
  assumes "offer_step E phase (offer, now) ((ty, tok, ini), ag) = Inr (loc', ag')"
    and ph: "phase = currentPhase (ag_sm ag)"
  obtains (declined)
      "same_tasks (ag_sm ag) (ag_sm ag')"
      "\<forall>t. indexNum t (ag_sm ag) \<le> indexNum t (ag_sm ag')"
      "ag_config ag' = ag_config ag" "ag_pendingOSD ag' = ag_pendingOSD ag"
      "snd (snd loc') = ini"
      "\<exists>cs. ag_driver ag' = ag_driver ag @ cs \<and> (\<exists>c \<in> set cs. answers (o_id offer) c) \<and>
         (\<forall>c \<in> set cs. no_node c \<and> disk_call c)"
      "hosts_step E (ag_sm ag) (ag_sm ag')"
      "\<forall>t. indexNum t (ag_sm ag') \<le> indexNum t (ag_sm ag) + 1"
  | (launched) t1 k eid ini' executor labels cs and ag1 ag0 :: agent where
      "may_launch t1 (ag_sm ag)" "k = indexNum t1 (ag_sm ag)"
      "same_tasks (ag_sm ag) (ag_sm ag1)"
      "\<forall>t. indexNum t (ag_sm ag1) = indexNum t (ag_sm ag) + (if t = t1 then 1 else 0)"
      "ag_sm ag' = addStagingTask (task_id_of E t1 k offer) eid t1
                     (o_hostname offer) (o_slave_id offer) (ag_sm ag1)"
      "ag_config ag' = ag_config ag"
      "if phase = WAINTING_REQUEST
       then fetchPendingRESTfulRequest (ag_pendingOSD ag) = (True, ag_pendingOSD ag')
       else ag_pendingOSD ag' = ag_pendingOSD ag"
      "ini' = (if t1 = MON \<and> k = 0 then 1 else ini)" "loc' = (t1, k, ini')"
      "ag_driver ag' = ag_driver ag @
         LaunchTasks (o_id offer)
           [node_task E offer t1 k ini' (cfg_role (ag_config ag)) executor labels] # cs"
      "\<forall>c \<in> set cs. register_call E c"
      "eid = executor_id_of E t1 k now" "node_executor eid executor"
      "hosts_step E (ag_sm ag) (ag_sm ag0)" "o_hostname offer \<in> dom (hostConfigMap (ag_sm ag0))"
      "addHostConfig t1 (o_hostname offer) ag0 = (labels, ag1)"
proof (cases "hasRole offer (cfg_role (ag_config ag))")
  case False
  with assms(1) show thesis by (intro declined) (auto simp: offer_step_def hosts_step_same)
next
  case True
  obtain sm ag2 where ac: "addConfig (ae_config E) (o_hostname offer) (ag_sm ag) = Inr sm"
    and td: "tryLaunchDiskTask E now offer (o_hostname offer) (ag\<lparr>ag_sm := sm\<rparr>) = Inr ag2"
    using assms(1) True by (auto simp: offer_step_def elim!: bind_resE)
  obtain acc t1 k s3 where nm: "nextMove ty tok (o_hostname offer) (ag_sm ag2) = (acc, t1, k, s3)"
    by (cases "nextMove ty tok (o_hostname offer) (ag_sm ag2)")
  have core: "same_core (ag\<lparr>ag_sm := sm\<rparr>) ag2" by (rule tryLaunchDiskTask_core [OF td])
  have st: "same_tasks (ag_sm ag) (ag_sm ag2)" and si: "same_index (ag_sm ag) (ag_sm ag2)"
    using same_tasks_addConfig [OF ac] same_index_addConfig [OF ac] core
    by (auto simp: same_core_def same_index_def intro: same_tasks_trans)
  have cfg: "ag_config ag2 = ag_config ag" "ag_pendingOSD ag2 = ag_pendingOSD ag"
    using core by (simp_all add: same_core_def)
  have st3: "same_tasks (ag_sm ag) s3"
    using st same_tasks_nextMove [OF nm] by (rule same_tasks_trans)
  obtain cs2 where drv: "ag_driver ag2 = ag_driver ag @ cs2"
    and prep: "cs2 = [] \<or> isPreparingDisk (getConfig (ag_sm ag2) (o_hostname offer))"
    and nn: "\<forall>c \<in> set cs2. no_node c \<and> disk_call c"
    using tryLaunchDiskTask_driver [OF td] by fastforce
  have hs2: "hosts_step E (ag_sm ag) (ag_sm ag2)"
    using hosts_step_trans [OF hosts_step_addConfig(1) [OF ac]] hosts_step_disk [OF td] by simp
  have hs3: "hosts_step E (ag_sm ag) s3" "o_hostname offer \<in> dom (hostConfigMap s3)"
    using hosts_step_trans [OF hs2 hosts_step_same [OF hostConfigMap_nextMove [OF nm]]]
      hosts_step_addConfig(2) [OF ac] hosts_step_disk [OF td] hostConfigMap_nextMove [OF nm]
    by (auto simp: hosts_step_def)
  have unf: "offer_decide E phase offer now acc (t1, k, ini) (ag2\<lparr>ag_sm := s3\<rparr>) = Inr (loc', ag')"
    using assms(1) True ac td nm by (simp add: offer_step_def)
  show thesis
  proof (cases acc)
    case False
    with unf nm nextMove_decline [of ty tok "o_hostname offer" "ag_sm ag2" t1 k s3] st si cfg drv nn hs2
    show thesis by (intro declined) (auto simp: offer_decide_def same_index_def)
  next
    case acc: True
    have nm': "nextMove ty tok (o_hostname offer) (ag_sm ag2) = (True, t1, k, s3)"
      using nm acc by simp
    note na = nextMove_accept [OF nm']
    have idx: "\<forall>t. indexNum t s3 = indexNum t (ag_sm ag) + (if t = t1 then 1 else 0)"
      using na(3) si by (simp add: same_index_def)
    have "cs2 = []" using prep na(4) by simp
    have k: "k = indexNum t1 (ag_sm ag)" using na(2) si by (simp add: same_index_def)
    have ml: "may_launch t1 (ag_sm ag)" using na(1) may_launch_same_tasks [OF st] by simp
    let ?ag3 = "ag2\<lparr>ag_sm := s3\<rparr>"
    obtain ne where ne: "offerNotEnoughResources E ?ag3 offer t1 = Inr ne"
      using unf acc by (auto simp: offer_decide_def elim!: bind_resE)
    obtain b reqs where f: "fetchPendingRESTfulRequest (ag_pendingOSD ag) = (b, reqs)" by fastforce
    consider (poor) ne | (idle) "\<not> ne" "phase = WAINTING_REQUEST" "\<not> b"
      | (go) ag4 where "\<not> ne" "accept_offer E offer now (t1, k, ini) ag4 = Inr (loc', ag')"
          "ag4 = (if phase = WAINTING_REQUEST then ?ag3\<lparr>ag_pendingOSD := reqs\<rparr> else ?ag3)"
          "phase = WAINTING_REQUEST \<longrightarrow> b"
      using unf acc ne f cfg(2) by (auto simp: offer_decide_def Let_def split: if_splits)
    then show thesis
    proof cases
      case poor
      with unf acc ne idx st3 cfg drv nn hs3(1) show thesis
        by (intro declined) (auto simp: offer_decide_def)
    next
      case idle
      have "reqs = ag_pendingOSD ag"
        using f idle(3) by (auto simp: fetchPendingRESTfulRequest_def Let_def split: list.splits if_splits)
      moreover have "\<forall>t. indexNum t (decreaseOSDIndex s3) = indexNum t (ag_sm ag)"
      proof
        fix t show "indexNum t (decreaseOSDIndex s3) = indexNum t (ag_sm ag)"
          using idx [rule_format, of t] ml ph idle(2)
          by (cases t; cases t1) (auto simp: decreaseOSDIndex_def)
      qed
      ultimately show thesis
        using unf acc ne idle f cfg drv nn st3 hosts_step_trans [OF hs3(1) hosts_step_same, of "decreaseOSDIndex s3"]
        by (intro declined)
           (auto simp: offer_decide_def Let_def decreaseOSDIndex_def [of s3]
             intro: same_tasks_trans [OF _ same_tasks_decreaseOSDIndex [unfolded decreaseOSDIndex_def]])
    next
      case (go ag4)
      have same: "ag_sm ag4 = s3" "ag_config ag4 = ag_config ag" "ag_driver ag4 = ag_driver ag"
        "ag_pendingOSD ag4 = (if phase = WAINTING_REQUEST then reqs else ag_pendingOSD ag)"
        using go(3) cfg drv \<open>cs2 = []\<close> by auto
      from go(2) show thesis
      proof (cases rule: accept_offer_effect)
        case (1 ini' eid ag1 executor labels cs)
        have "same_tasks (ag_sm ag) (ag_sm ag1)"
          using st3 1(3) same(1) by (auto simp: same_core_def intro: same_tasks_trans)
        moreover have "\<forall>t. indexNum t (ag_sm ag1) = indexNum t (ag_sm ag) + (if t = t1 then 1 else 0)"
          using idx 1(3) same(1) by (simp add: same_core_def same_index_def)
        ultimately show thesis
          using 1 same ml k f go(4) hs3 by (intro launched [of t1 k ag1 eid ini' executor labels cs ag4]) auto
      qed
    qed
  qed
qed

lemma offer_step_phase:
  assumes "offer_step E phase off (loc, ag) = Inr (loc', ag')" and "phase = currentPhase (ag_sm ag)"
  shows "currentPhase (ag_sm ag') = phase"
proof -
  obtain offer now ty tok ini where eqs: "off = (offer, now)" "loc = (ty, tok, ini)"
    by (cases off, cases loc) auto
  show ?thesis
    using assms(1) [unfolded eqs] assms(2)
    by (cases rule: offer_step_cases) (simp_all add: same_tasks_def assms(2))
qed

text \<open>Induction over the offers of one batch, with the phase known to stay the same.\<close>

lemma offers_loop_induct:
  assumes "offers_loop E phase offers (loc, ag) = Inr (loc', ag')"
    and "phase = currentPhase (ag_sm ag)" and "P [] loc ag"
    and step: "\<And>offer now pre ty tok ini ag1 loc2 ag2.
       offer_step E phase (offer, now) ((ty, tok, ini), ag1) = Inr (loc2, ag2) \<Longrightarrow>
       phase = currentPhase (ag_sm ag1) \<Longrightarrow> P pre (ty, tok, ini) ag1 \<Longrightarrow>
       P (pre @ [(offer, now)]) loc2 ag2"
  shows "P offers loc' ag'"
proof -
  have "P (pre @ offers) loc' ag'" if "P pre loc ag" for pre
    using assms(1,2) that
  proof (induction offers arbitrary: loc ag pre)
    case (Cons off offers)
    obtain loc1 ag1 where s: "offer_step E phase off (loc, ag) = Inr (loc1, ag1)"
      and r: "offers_loop E phase offers (loc1, ag1) = Inr (loc', ag')"
      using Cons.prems(1) by (auto elim!: bind_resE)
    obtain offer now ty tok ini where eqs: "off = (offer, now)" "loc = (ty, tok, ini)"
      by (cases off, cases loc) auto
    have "P (pre @ [off]) loc1 ag1"
      using step [OF s [unfolded eqs] Cons.prems(2)] Cons.prems(3) by (simp add: eqs)
    then show ?case
      using Cons.IH [OF r, of "pre @ [off]"] offer_step_phase [OF s Cons.prems(2)] by simp
  qed simp
  from this [OF assms(3)] show ?thesis by simp
qed

section \<open>handleWaitingOSDTasks\<close>

lemma updateTaskToStarting_frame [simp]:
  "stagingNum ty (updateTaskToStarting tid s) = stagingNum ty s"
  "runningNum ty (updateTaskToStarting tid s) = runningNum ty s"
  "indexNum ty (updateTaskToStarting tid s) = indexNum ty s"
  "currentPhase (updateTaskToStarting tid s) = currentPhase s"
  "pendingOSDID (updateTaskToStarting tid s) = pendingOSDID s"
  "hostConfigMap (updateTaskToStarting tid s) = hostConfigMap s"
  "defaultHostConfig (updateTaskToStarting tid s) = defaultHostConfig s"
  by (simp_all add: updateTaskToStarting_def Let_def split: option.splits)

lemma num_pendingOSDID [simp]:
  "stagingNum ty (s\<lparr>pendingOSDID := ids\<rparr>) = stagingNum ty s"
  "runningNum ty (s\<lparr>pendingOSDID := ids\<rparr>) = runningNum ty s"
  "indexNum ty (s\<lparr>pendingOSDID := ids\<rparr>) = indexNum ty s"
  by (cases ty; simp)+

lemma waiting_loop_frame:
  "stagingNum ty (ag_sm (waiting_loop L ts ag)) = stagingNum ty (ag_sm ag) \<and>
   runningNum ty (ag_sm (waiting_loop L ts ag)) = runningNum ty (ag_sm ag) \<and>
   indexNum ty (ag_sm (waiting_loop L ts ag)) = indexNum ty (ag_sm ag) \<and>
   currentPhase (ag_sm (waiting_loop L ts ag)) = currentPhase (ag_sm ag) \<and>
   ag_config (waiting_loop L ts ag) = ag_config ag \<and>
   ag_pendingOSD (waiting_loop L ts ag) = ag_pendingOSD ag"
  by (induction ts arbitrary: ag) (simp_all add: Let_def)

lemma handleWaiting_frame [simp]:
  "stagingNum ty (ag_sm (handleWaitingOSDTasks E ag)) = stagingNum ty (ag_sm ag)"
  "runningNum ty (ag_sm (handleWaitingOSDTasks E ag)) = runningNum ty (ag_sm ag)"
  "indexNum ty (ag_sm (handleWaitingOSDTasks E ag)) = indexNum ty (ag_sm ag)"
  "currentPhase (ag_sm (handleWaitingOSDTasks E ag)) = currentPhase (ag_sm ag)"
  "ag_config (handleWaitingOSDTasks E ag) = ag_config ag"
  "ag_pendingOSD (handleWaitingOSDTasks E ag) = ag_pendingOSD ag"
  by (simp_all add: handleWaitingOSDTasks_def waiting_loop_frame)

lemma waiting_loop_driver:
  "\<exists>cs. ag_driver (waiting_loop L ts ag) = ag_driver ag @ cs \<and>
        (\<forall>c \<in> set cs. \<exists>e s m. c = SendFrameworkMessage e s m)"
proof (induction ts arbitrary: ag)
  case (Cons t ts)
  show ?case
  proof (cases "pendingOSDID (ag_sm ag) = []")
    case False
    let ?c = "SendFrameworkMessage (executorId t) (slaveId t)
          (launchOSD_message L (last (pendingOSDID (ag_sm ag))))"
    let ?ag = "onSM (updateTaskToStarting (taskId t)) (callDriver ?c
        (onSM (\<lambda>s. s\<lparr>pendingOSDID := butlast (pendingOSDID (ag_sm ag))\<rparr>) ag))"
    obtain cs where "ag_driver (waiting_loop L ts ?ag) = ag_driver ?ag @ cs"
        "\<forall>c \<in> set cs. \<exists>e s m. c = SendFrameworkMessage e s m"
      using Cons.IH [of ?ag] by blast
    with False show ?thesis by (intro exI [of _ "?c # cs"]) (simp add: Let_def)
  qed simp
qed simp

section \<open>The queue of flex-up requests\<close>

text \<open>
  What the scheduler relies on: a request of \<open>n\<close> instances lets exactly \<open>n\<close> later fetches
  succeed.
\<close>

locale request_queue =
  fixes push :: "int \<Rightarrow> 'q \<Rightarrow> 'q"
    and fetch :: "'q \<Rightarrow> bool \<times> 'q"
    and amount :: "'q \<Rightarrow> int"
    and ok :: "'q \<Rightarrow> bool"
  assumes ok_push: "ok q \<Longrightarrow> 1 \<le> n \<Longrightarrow> ok (push n q)"
    and amount_push: "amount (push n q) = amount q + n"
    and fetch_empty: "ok q \<Longrightarrow> amount q \<le> 0 \<Longrightarrow> fetch q = (False, q)"
    and fetch_some: "ok q \<Longrightarrow> 0 < amount q \<Longrightarrow>
      \<exists>q'. fetch q = (True, q') \<and> ok q' \<and> amount q' = amount q - 1"
    and amount_nonneg: "ok q \<Longrightarrow> 0 \<le> amount q"
begin

lemma fetch_True:
  assumes "ok q" and "fetch q = (True, q')"
  shows "ok q' \<and> amount q' = amount q - 1"
  using assms fetch_empty [of q] fetch_some [of q] by (cases "0 < amount q") auto

lemma fetch_iff: "ok q \<Longrightarrow> fst (fetch q) \<longleftrightarrow> 0 < amount q"
  using fetch_empty [of q] fetch_some [of q] by (cases "0 < amount q") auto

end

lemma sum_list_pos_nonneg: "\<forall>n \<in> set ns. 1 \<le> n \<Longrightarrow> 0 \<le> sum_list (ns :: int list)"
  by (induction ns) auto

interpretation requests: request_queue "\<lambda>n q. q @ [n]" fetchPendingRESTfulRequest sum_list
  "\<lambda>q. \<forall>n \<in> set q. 1 \<le> n"
proof unfold_locales
  fix q :: "int list"
  assume ok: "\<forall>n \<in> set q. 1 \<le> n"
  show "0 \<le> sum_list q" using ok by (rule sum_list_pos_nonneg)
  show "fetchPendingRESTfulRequest q = (False, q)" if "sum_list q \<le> 0"
  proof (cases q)
    case (Cons n ns)
    with ok sum_list_pos_nonneg [of ns] that show ?thesis by auto
  qed (simp add: fetchPendingRESTfulRequest_def)
  show "\<exists>q'. fetchPendingRESTfulRequest q = (True, q') \<and> (\<forall>n \<in> set q'. 1 \<le> n) \<and>
          sum_list q' = sum_list q - 1" if "0 < sum_list q"
    using that ok by (cases q) (auto simp: fetchPendingRESTfulRequest_def Let_def)
qed auto

end
