(* ===== verification/Scheduler_Invariants.thy ===== *)
theory Scheduler_Invariants
  imports Scheduler_Steps
begin

text \<open>
  The scheduler as a transition system: its callbacks and the event loop's requests are the
  steps (\<open>agent_step\<close>). The invariant \<open>agent_inv\<close> says that the counters describe the task
  table, that task ids are numbered without repetition and that at most one MON and one
  RADOSGW are staged or running; it holds in every reachable state.
\<close>

section \<open>Names of tasks\<close>

definition env_ok :: "'y agent_env \<Rightarrow> bool" where
  "env_ok E \<longleftrightarrow> lexcast_ok (ae_lc E) \<and> map_order_ok (ae_iter E)"

lemma createTaskName_eq:
  assumes "lexcast_ok (ae_lc E)" and "0 \<le> k" and "0 \<le> k'"
  shows "createTaskName E ty k = createTaskName E ty' k' \<longleftrightarrow> ty = ty' \<and> k = k'"
proof -
  define pre where "pre ty = (case ty of MON \<Rightarrow> ''mon'' | OSD \<Rightarrow> ''osd'' | RADOSGW \<Rightarrow> ''radosgw'')" for ty
  have ok: "dev_name_ok (pre ty)" for ty
    by (cases ty) (simp_all add: pre_def dev_name_ok_def is_digit_def)
  have inj: "pre ty = pre ty' \<longleftrightarrow> ty = ty'"
    by (cases ty; cases ty') (simp_all add: pre_def)
  have eq: "createTaskName E ty k = pre ty @ show_int k" for ty k
    using assms(1) by (simp add: createTaskName_def pre_def lexcast_strD)
  show ?thesis
    using part_name_inject [OF ok ok assms(2,3), of ty ty'] by (simp add: eq inj)
qed

lemma createTaskName_no_dot:
  assumes "lexcast_ok (ae_lc E)"
  shows "CHR ''.'' \<notin> set (createTaskName E ty k)"
proof -
  have "CHR ''.'' \<notin> set (show_int k)" by (rule show_int_no_delim) (simp_all add: is_digit_def)
  then show ?thesis
    using assms by (cases ty) (simp_all add: createTaskName_def lexcast_strD)
qed

lemma task_id_of_eqD:
  assumes "lexcast_ok (ae_lc E)" "0 \<le> k" "0 \<le> k'"
    and "task_id_of E ty k offer = task_id_of E ty' k' offer'"
  shows "ty = ty' \<and> k = k'"
proof -
  have "createTaskName E ty k = createTaskName E ty' k'"
    using append_delim_eqD [OF _ createTaskName_no_dot [OF assms(1)] createTaskName_no_dot [OF assms(1)]]
      assms(4) by (simp add: task_id_of_def)
  then show ?thesis by (simp add: createTaskName_eq [OF assms(1-3)])
qed

section \<open>Invariant\<close>

definition ids_ok :: "'y agent_env \<Rightarrow> StateMachine \<Rightarrow> bool" where
  "ids_ok E s \<longleftrightarrow>
     (\<forall>ty. 0 \<le> indexNum ty s) \<and>
     (\<forall>k t. map_of (taskMap s) k = Some t \<longrightarrow>
        (\<exists>j offer. k = task_id_of E (taskType t) j offer \<and> 0 \<le> j \<and> j < indexNum (taskType t) s))"

definition single_ok :: "StateMachine \<Rightarrow> bool" where
  "single_ok s \<longleftrightarrow>
     stagingNum MON s + runningNum MON s \<le> 1 \<and> stagingNum RADOSGW s + runningNum RADOSGW s \<le> 1"

definition core_inv :: "'y agent_env \<Rightarrow> StateMachine \<Rightarrow> bool" where
  "core_inv E s \<longleftrightarrow> sm_inv s \<and> ids_ok E s \<and> single_ok s"

definition agent_inv :: "'y agent_env \<Rightarrow> agent \<Rightarrow> bool" where
  "agent_inv E ag \<longleftrightarrow> core_inv E (ag_sm ag)"

lemma core_inv_new: "core_inv E (StateMachine_new indet config)"
proof -
  have "0 \<le> indexNum ty (StateMachine_new indet config)" for ty
    by (cases ty) (simp_all add: StateMachine_new_def)
  then show ?thesis
    by (simp add: core_inv_def sm_inv_new ids_ok_def single_ok_def) (simp add: StateMachine_new_def)
qed

lemma core_inv_frame:
  assumes "core_inv E s" and "same_tasks s s'" and "\<forall>t. indexNum t s \<le> indexNum t s'"
  shows "core_inv E s'"
proof -
  have "ids_ok E s'"
    using assms unfolding core_inv_def ids_ok_def same_tasks_def
    by (metis order_less_le_trans order_trans)
  then show ?thesis
    using assms sm_inv_same_tasks by (auto simp: core_inv_def single_ok_def same_tasks_def)
qed

lemma fresh_task_id:
  assumes "env_ok E" and "ids_ok E s"
  shows "map_of (taskMap s) (task_id_of E ty (indexNum ty s) offer) = None"
proof (rule ccontr)
  assume "\<not> ?thesis"
  then obtain t where "map_of (taskMap s) (task_id_of E ty (indexNum ty s) offer) = Some t" by auto
  then obtain j offer' where "task_id_of E ty (indexNum ty s) offer = task_id_of E (taskType t) j offer'"
      "0 \<le> j" "j < indexNum (taskType t) s"
    using assms(2) unfolding ids_ok_def by blast
  then show False
    using task_id_of_eqD [of E "indexNum ty s" j ty offer "taskType t" offer'] assms
    by (auto simp: env_ok_def ids_ok_def)
qed

lemma core_inv_launch:
  assumes "env_ok E" and "core_inv E s" and "may_launch ty s" and st: "same_tasks s s1"
    and idx: "\<forall>t. indexNum t s1 = indexNum t s + (if t = ty then 1 else 0)"
  shows "core_inv E (addStagingTask (task_id_of E ty (indexNum ty s) offer) eid ty host sid s1)"
proof -
  let ?s = "addStagingTask (task_id_of E ty (indexNum ty s) offer) eid ty host sid s1"
  from assms(2) have inv: "sm_inv s" "ids_ok E s" "single_ok s" by (simp_all add: core_inv_def)
  have fresh: "map_of (taskMap s1) (task_id_of E ty (indexNum ty s) offer) = None"
    using fresh_task_id [OF assms(1) inv(2)] st by (simp add: same_tasks_def)
  have "sm_inv ?s"
    by (rule sm_inv_addStagingTask [OF sm_inv_same_tasks [OF inv(1) st] fresh])
  moreover have "ids_ok E ?s"
  proof -
    have "core_inv E s1" by (rule core_inv_frame [OF assms(2) st]) (simp add: idx)
    then have "ids_ok E s1" by (simp add: core_inv_def)
    then show ?thesis
      using inv(2) idx unfolding ids_ok_def by (fastforce split: if_splits)
  qed
  moreover have "single_ok ?s"
  proof -
    have "0 \<le> stagingNum t s \<and> 0 \<le> runningNum t s" for t
      by (rule counters_nonneg [OF inv(1)])
    moreover have "may_launch RADOSGW s \<Longrightarrow> runningNum RADOSGW s < 1"
      using inv(1) by (auto simp: sm_inv_def phase_of_def split: if_splits)
    ultimately show ?thesis
      using inv(3) assms(3) st unfolding single_ok_def same_tasks_def
      by (cases ty) (auto simp del: stagingNum.simps runningNum.simps)
  qed
  ultimately show ?thesis by (simp add: core_inv_def)
qed

subsection \<open>Status changes\<close>

lemma sum_updateCounters:
  "stagingNum ty (updateCounters ty' old new s) + runningNum ty (updateCounters ty' old new s)
     \<le> stagingNum ty s + runningNum ty s"
  by auto

lemma core_inv_status:
  assumes inv: "core_inv E s" and "sm_inv s'"
    and s': "s' = s \<or> (\<exists>t. map_of (taskMap s) tid = Some t \<and>
      taskMap s' = map_put tid (t\<lparr>currentStatus := new\<rparr>) (taskMap s) \<and>
      (\<forall>ty. indexNum ty s' = indexNum ty s \<and>
        stagingNum ty s' + runningNum ty s' \<le> stagingNum ty s + runningNum ty s))"
  shows "core_inv E s'"
  using s'
proof (elim disjE exE conjE)
  fix t
  assume t: "map_of (taskMap s) tid = Some t"
    and tm: "taskMap s' = map_put tid (t\<lparr>currentStatus := new\<rparr>) (taskMap s)"
    and nums: "\<forall>ty. indexNum ty s' = indexNum ty s \<and>
        stagingNum ty s' + runningNum ty s' \<le> stagingNum ty s + runningNum ty s"
  have "ids_ok E s'"
    using inv t nums by (auto simp: core_inv_def ids_ok_def tm split: if_splits)
  moreover have "single_ok s'"
    using inv nums unfolding core_inv_def single_ok_def by (meson order_trans)
  ultimately show ?thesis using assms(2) by (simp add: core_inv_def)
qed (simp add: inv)

lemma core_inv_updateTaskToRunning:
  assumes "core_inv E s" and "\<And>t. map_of (taskMap s) tid = Some t \<Longrightarrow> expected t RUNNING"
  shows "core_inv E (updateTaskToRunning tid s)"
proof -
  have "sm_inv (updateTaskToRunning tid s)"
    using assms by (intro sm_inv_updateTaskToRunning) (auto simp: core_inv_def)
  with assms(1) show ?thesis
    by (rule core_inv_status [where tid = tid and new = RUNNING])
       (cases "map_of (taskMap s) tid", auto simp: updateTaskToRunning_def Let_def)
qed

lemma core_inv_updateTaskToFailed:
  assumes "core_inv E s"
  shows "core_inv E (updateTaskToFailed tid s)"
proof -
  have "sm_inv (updateTaskToFailed tid s)"
    using assms by (intro sm_inv_updateTaskToFailed) (auto simp: core_inv_def)
  with assms show ?thesis
    by (rule core_inv_status [where tid = tid and new = FAILED])
       (cases "map_of (taskMap s) tid", auto simp: updateTaskToFailed_def Let_def)
qed

lemma core_inv_updateTaskToWaitingOSDID:
  assumes "core_inv E s" and "\<And>t. map_of (taskMap s) tid = Some t \<Longrightarrow> expected t WAITING_OSDID"
  shows "core_inv E (updateTaskToWaitingOSDID tid s)"
proof -
  have "sm_inv (updateTaskToWaitingOSDID tid s)"
    using assms by (intro sm_inv_updateTaskToWaitingOSDID) (auto simp: core_inv_def)
  with assms(1) show ?thesis
    by (rule core_inv_status [where tid = tid and new = WAITING_OSDID])
       (cases "map_of (taskMap s) tid", auto simp: updateTaskToWaitingOSDID_def Let_def)
qed

lemma core_inv_updateTaskToStarting:
  assumes "core_inv E s" and "\<And>t. map_of (taskMap s) tid = Some t \<Longrightarrow> expected t STARTING"
  shows "core_inv E (updateTaskToStarting tid s)"
proof -
  have "sm_inv (updateTaskToStarting tid s)"
    using assms by (intro sm_inv_updateTaskToStarting) (auto simp: core_inv_def)
  with assms(1) show ?thesis
    by (rule core_inv_status [where tid = tid and new = STARTING])
       (cases "map_of (taskMap s) tid", auto simp: updateTaskToStarting_def Let_def)
qed

section \<open>Callbacks keep the invariant\<close>

subsection \<open>statusUpdate\<close>

text \<open>A host whose disks are reported ready: all its pending devices become partitions.\<close>

definition disks_done :: "'y agent_env \<Rightarrow> HostConfig \<Rightarrow> HostConfig" where
  "disks_done E hc = setDiskPreparationDone (updateDiskPartition (ae_lc E) [] (jnlPartsCount hc) hc)"

lemma diskReady_cases:
  assumes "diskReady E str ag = Inr ag'"
  obtains h where "ag' = onSM (setConfig h (disks_done E (getConfig (ag_sm ag) h))) ag"
  using assms by (auto simp: diskReady_def disks_done_def getJnlPartitionCount_def Let_def elim!: bind_resE)

lemma statusUpdate_cases:
  assumes "statusUpdate E status ag = Inr ag'"
  obtains (running) "st_state status = TASK_RUNNING" "ag' = onSM (updateTaskToRunning (st_task_id status)) ag"
  | (starting) "st_state status = TASK_STARTING" "ag' = onSM (updateTaskToWaitingOSDID (st_task_id status)) ag"
  | (failed) "st_state status = TASK_FAILED" "ag' = onSM (updateTaskToFailed (st_task_id status)) ag"
  | (disk) h hc where "st_state status = TASK_FINISHED" "ag' = onSM (setConfig h hc) ag"
      "hc = disks_done E (getConfig (ag_sm ag) h)"
  | (ignored) "ag' = ag"
proof (cases "st_state status")
  case TASK_RUNNING
  with assms running show thesis
    by (auto simp: statusUpdate_def Let_def split: option.splits if_splits elim!: bind_resE)
next
  case TASK_FINISHED
  with assms disk ignored show thesis
    by (auto simp: statusUpdate_def Let_def split: option.splits if_splits
        elim!: bind_resE diskReady_cases)
qed (use assms starting failed ignored in \<open>auto simp: statusUpdate_def Let_def\<close>)

text \<open>
  The protocol of the executors, as a property of a status update: it only reports a status
  that may follow the recorded one.
\<close>

definition status_legal :: "StateMachine \<Rightarrow> TaskStatus \<Rightarrow> bool" where
  "status_legal s status \<longleftrightarrow>
     (case map_of (taskMap s) (st_task_id status) of
        None \<Rightarrow> True
      | Some t \<Rightarrow>
          (st_state status = TASK_RUNNING \<longrightarrow> expected t RUNNING) \<and>
          (st_state status = TASK_STARTING \<longrightarrow> expected t WAITING_OSDID))"

lemma core_inv_setConfig: "core_inv E s \<Longrightarrow> core_inv E (setConfig h hc s)"
  by (rule core_inv_frame [OF _ same_tasks_setConfig])
     (use same_index_setConfig in \<open>auto simp: same_index_def\<close>)

lemma agent_inv_statusUpdate:
  assumes "agent_inv E ag" and "status_legal (ag_sm ag) status"
    and "statusUpdate E status ag = Inr ag'"
  shows "agent_inv E ag'"
  using assms(3)
proof (cases rule: statusUpdate_cases)
  case running
  with assms show ?thesis
    by (auto simp: agent_inv_def status_legal_def intro!: core_inv_updateTaskToRunning)
next
  case starting
  with assms show ?thesis
    by (auto simp: agent_inv_def status_legal_def intro!: core_inv_updateTaskToWaitingOSDID)
qed (use assms(1) in \<open>auto simp: agent_inv_def core_inv_updateTaskToFailed core_inv_setConfig\<close>)

lemma agent_inv_frameworkMessage:
  assumes "agent_inv E ag" and "frameworkMessage E eid data ag = Inr ag'"
  shows "agent_inv E ag'"
proof -
  have idx: "indexNum t (addPendingOSDID i s) = indexNum t s" for t i s
    by (cases t) (simp_all add: addPendingOSDID_def)
  have "core_inv E (addPendingOSDID i (ag_sm ag))" for i
    using assms(1) by (intro core_inv_frame [OF _ same_tasks_addPendingOSDID]) (simp_all add: agent_inv_def idx)
  with assms show ?thesis
    by (auto simp: frameworkMessage_def agent_inv_def split: if_splits elim!: bind_resE)
qed

subsection \<open>resourceOffers\<close>

text \<open>The tasks a round of \<open>handleWaitingOSDTasks\<close> works on may still be given an OSD id.\<close>

definition startable :: "StateMachine \<Rightarrow> TaskState \<Rightarrow> bool" where
  "startable s t \<longleftrightarrow> (\<forall>t'. map_of (taskMap s) (taskId t) = Some t' \<longrightarrow> expected t' STARTING)"

lemma startable_updateTaskToStarting:
  assumes "startable s t" and "startable s t'"
  shows "startable (updateTaskToStarting (taskId t') s) t"
proof (cases "map_of (taskMap s) (taskId t')")
  case (Some u)
  then have "expected (u\<lparr>currentStatus := STARTING\<rparr>) STARTING"
    using assms(2) by (simp add: startable_def)
  with Some assms(1) show ?thesis
    by (simp add: startable_def updateTaskToStarting_def Let_def)
qed (use assms(1) in \<open>simp add: updateTaskToStarting_def\<close>)

lemma core_inv_pendingOSDID: "core_inv E s \<Longrightarrow> core_inv E (s\<lparr>pendingOSDID := ids\<rparr>)"
proof (rule core_inv_frame [OF _ same_tasks_pendingOSDID])
  show "\<forall>t. indexNum t s \<le> indexNum t (s\<lparr>pendingOSDID := ids\<rparr>)"
  proof
    show "indexNum t s \<le> indexNum t (s\<lparr>pendingOSDID := ids\<rparr>)" for t by (cases t) simp_all
  qed
qed

text \<open>What giving an id to one task keeps is kept by the whole loop.\<close>

lemma waiting_loop_induct:
  assumes "P (ag_sm ag)" and "\<forall>t \<in> set ts. startable (ag_sm ag) t"
    and ids: "\<And>s ids. P s \<Longrightarrow> P (s\<lparr>pendingOSDID := ids\<rparr>)"
    and upd: "\<And>s t. P s \<Longrightarrow> startable s t \<Longrightarrow> P (updateTaskToStarting (taskId t) s)"
  shows "P (ag_sm (waiting_loop L ts ag))"
  using assms(1,2)
proof (induction ts arbitrary: ag)
  case (Cons t ts)
  let ?s = "(ag_sm ag)\<lparr>pendingOSDID := butlast (pendingOSDID (ag_sm ag))\<rparr>"
  have st: "startable ?s t'" if "t' \<in> set (t # ts)" for t'
    using Cons.prems(2) that by (auto simp: startable_def)
  have P: "P (updateTaskToStarting (taskId t) ?s)"
    using upd [OF ids [OF Cons.prems(1)] st] by simp
  have later: "\<forall>t' \<in> set ts. startable (updateTaskToStarting (taskId t) ?s) t'"
    using st by (simp add: startable_updateTaskToStarting)
  show ?case
  proof (cases "pendingOSDID (ag_sm ag) = []")
    case False
    let ?ag = "onSM (updateTaskToStarting (taskId t)) (callDriver
        (SendFrameworkMessage (executorId t) (slaveId t)
          (launchOSD_message L (last (pendingOSDID (ag_sm ag)))))
        (onSM (\<lambda>s. s\<lparr>pendingOSDID := butlast (pendingOSDID (ag_sm ag))\<rparr>) ag))"
    have "P (ag_sm (waiting_loop L ts ?ag))" by (rule Cons.IH) (use P later in simp_all)
    with False show ?thesis by (simp add: Let_def)
  qed (simp add: Cons.prems(1))
qed simp

lemma waiting_startable:
  assumes "sm_inv s" and "map_order_ok iter" and "t \<in> set (getWaitingOSDTask iter s)"
  shows "startable s t"
proof -
  have "set (iter (taskMap s)) = set (taskMap s)"
    using assms(2) unfolding map_order_ok_def by (metis set_mset_mset)
  then obtain k where k: "(k, t) \<in> set (taskMap s)"
    and t: "taskType t = OSD" "currentStatus t = WAITING_OSDID"
    using assms(3) by (auto simp: getWaitingOSDTask_def)
  have "map_of (taskMap s) k = Some t"
    using k assms(1) by (auto simp: sm_inv_def)
  then show ?thesis
    using assms(1) t by (auto simp: sm_inv_def startable_def)
qed

lemma handleWaiting_induct:
  assumes "P (ag_sm ag)" and "env_ok E" and "sm_inv (ag_sm ag)"
    and "\<And>s ids. P s \<Longrightarrow> P (s\<lparr>pendingOSDID := ids\<rparr>)"
    and "\<And>s t. P s \<Longrightarrow> startable s t \<Longrightarrow> P (updateTaskToStarting (taskId t) s)"
  shows "P (ag_sm (handleWaitingOSDTasks E ag))"
  unfolding handleWaitingOSDTasks_def
proof (rule waiting_loop_induct [OF assms(1) _ assms(4,5)])
  show "\<forall>t \<in> set (getWaitingOSDTask (ae_iter E) (ag_sm ag)). startable (ag_sm ag) t"
    using waiting_startable [OF assms(3)] assms(2) by (auto simp: env_ok_def)
qed

lemma agent_inv_handleWaiting:
  assumes "env_ok E" and "agent_inv E ag"
  shows "agent_inv E (handleWaitingOSDTasks E ag)"
  unfolding agent_inv_def
proof (rule handleWaiting_induct [OF _ assms(1)])
  show "core_inv E (updateTaskToStarting (taskId t) s)" if "core_inv E s" "startable s t" for s t
    using that by (intro core_inv_updateTaskToStarting) (simp_all add: startable_def)
qed (use assms(2) in \<open>simp_all add: agent_inv_def core_inv_def [of E "ag_sm ag"] core_inv_pendingOSDID\<close>)

lemma offer_step_inv:
  assumes "env_ok E" and "agent_inv E ag" and "phase = currentPhase (ag_sm ag)"
    and "offer_step E phase off (loc, ag) = Inr (loc', ag')"
  shows "agent_inv E ag'" and "currentPhase (ag_sm ag') = currentPhase (ag_sm ag)"
proof -
  obtain offer now ty tok ini where eqs: "off = (offer, now)" "loc = (ty, tok, ini)"
    by (cases off, cases loc) auto
  have "agent_inv E ag' \<and> currentPhase (ag_sm ag') = currentPhase (ag_sm ag)"
    using assms(4)[unfolded eqs] assms(3)
  proof (cases rule: offer_step_cases)
    case declined
    then have "core_inv E (ag_sm ag')"
      using core_inv_frame [OF _ declined(1,2)] assms(2) by (simp add: agent_inv_def)
    with declined(1) show ?thesis by (simp add: agent_inv_def same_tasks_def)
  next
    case (launched t1 k eid ini' executor labels cs ag1)
    have "core_inv E (ag_sm ag')"
      unfolding launched(5) launched(2)
      by (rule core_inv_launch [OF assms(1) _ launched(1,3,4)]) (use assms(2) in \<open>simp add: agent_inv_def\<close>)
    then show ?thesis
      using launched(3,5) by (simp add: agent_inv_def same_tasks_def)
  qed
  then show "agent_inv E ag'" and "currentPhase (ag_sm ag') = currentPhase (ag_sm ag)" by simp_all
qed

lemma offers_loop_inv:
  assumes "env_ok E" and "agent_inv E ag" and "phase = currentPhase (ag_sm ag)"
    and "offers_loop E phase offers (loc, ag) = Inr (loc', ag')"
  shows "agent_inv E ag' \<and> currentPhase (ag_sm ag') = phase"
  using assms(2-4)
proof (induction offers arbitrary: loc ag)
  case (Cons off offers)
  then obtain loc1 ag1 where s: "offer_step E phase off (loc, ag) = Inr (loc1, ag1)"
    and r: "offers_loop E phase offers (loc1, ag1) = Inr (loc', ag')"
    by (auto elim!: bind_resE)
  show ?case
    using Cons.IH [OF _ _ r] offer_step_inv [OF assms(1) Cons.prems(1,2) s] Cons.prems(2) by simp
qed auto

lemma agent_inv_resourceOffers:
  assumes "env_ok E" and "agent_inv E ag" and "resourceOffers E ty0 tok0 offers ag = Inr ag'"
  shows "agent_inv E ag'"
proof -
  obtain loc' where "offers_loop E (currentPhase (ag_sm (handleWaitingOSDTasks E ag))) offers
      ((ty0, tok0, 0), handleWaitingOSDTasks E ag) = Inr (loc', ag')"
    using assms(3) unfolding resourceOffers_def getCurrentPhase_def Let_def
    by (elim bind_resE) auto
  then show ?thesis
    using offers_loop_inv [OF assms(1) agent_inv_handleWaiting [OF assms(1,2)] refl] by blast
qed

section \<open>The transition system\<close>

inductive agent_step :: "'y agent_env \<Rightarrow> 'j json_lib \<Rightarrow> agent \<Rightarrow> agent \<Rightarrow> bool" for E J where
  offers: "resourceOffers E ty0 tok0 os ag = Inr ag' \<Longrightarrow> agent_step E J ag ag'"
| status: "statusUpdate E st ag = Inr ag' \<Longrightarrow> status_legal (ag_sm ag) st \<Longrightarrow> agent_step E J ag ag'"
| message: "frameworkMessage E eid data ag = Inr ag' \<Longrightarrow> agent_step E J ag ag'"
| request: "processData J data (ag_pendingOSD ag) = Inr p \<Longrightarrow>
     agent_step E J ag (ag\<lparr>ag_pendingOSD := p\<rparr>)"

definition agent_init :: "agent \<Rightarrow> bool" where
  "agent_init ag \<longleftrightarrow> (\<exists>indet config. ag = CephSchedulerAgent_new indet config)"

interpretation scheduler: step_invariant agent_init "agent_step E J" "\<lambda>ag. env_ok E \<longrightarrow> agent_inv E ag"
  for E :: "'y agent_env" and J :: "'j json_lib"
proof unfold_locales
  show "env_ok E \<longrightarrow> agent_inv E ag" if "agent_init ag" for ag
    using that by (auto simp: agent_init_def agent_inv_def CephSchedulerAgent_new_def core_inv_new)
next
  fix ag ag' assume inv: "env_ok E \<longrightarrow> agent_inv E ag" and "agent_step E J ag ag'"
  from this(2) show "env_ok E \<longrightarrow> agent_inv E ag'"
  proof (cases rule: agent_step.cases)
    case offers
    with inv show ?thesis using agent_inv_resourceOffers by blast
  next
    case status
    with inv show ?thesis using agent_inv_statusUpdate by blast
  next
    case message
    with inv show ?thesis using agent_inv_frameworkMessage by blast
  next
    case request
    with inv show ?thesis by (simp add: agent_inv_def)
  qed
qed

end
