(* ===== verification/Scheduler_Props.thy ===== *)
theory Scheduler_Props
  imports Scheduler_Invariants
begin

text \<open>
  Lemmas about whole callbacks and runs of the scheduler: what one call of
  \<open>resourceOffers\<close> can launch, that every offer is answered, that only \<open>mon0\<close> is told to set
  up the cluster, and which ids the waiting OSDs are given.
\<close>

section \<open>One batch of offers\<close>

lemma resourceOffers_loop:
  assumes "resourceOffers E ty0 tok0 offers ag = Inr ag'"
  obtains loc' where
    "offers_loop E (currentPhase (ag_sm ag)) offers ((ty0, tok0, 0), handleWaitingOSDTasks E ag)
       = Inr (loc', ag')"
  using assms unfolding resourceOffers_def getCurrentPhase_def Let_def
  by (elim bind_resE) auto

definition osd_load :: "StateMachine \<Rightarrow> int" where
  "osd_load s = stagingNum OSD s + runningNum OSD s"

lemma osd_load_handleWaiting [simp]: "osd_load (ag_sm (handleWaitingOSDTasks E ag)) = osd_load (ag_sm ag)"
  unfolding osd_load_def by (simp only: handleWaiting_frame)

lemma osd_load_add [simp]:
  "osd_load (addStagingTask tid eid ty host sid s) = osd_load s + (if ty = OSD then 1 else 0)"
  unfolding osd_load_def by (simp del: stagingNum.simps runningNum.simps)

lemma osd_load_same_tasks: "same_tasks s s' \<Longrightarrow> osd_load s' = osd_load s"
  by (simp add: osd_load_def same_tasks_def del: stagingNum.simps runningNum.simps)

text \<open>Outside the request phase a batch never brings more than three OSDs.\<close>

lemma offers_bootstrap_bound:
  assumes "resourceOffers E ty0 tok0 offers ag = Inr ag'" and "currentPhase (ag_sm ag) \<noteq> WAINTING_REQUEST"
  shows "osd_load (ag_sm ag') \<le> max 3 (osd_load (ag_sm ag))"
proof -
  obtain loc' where loop:
    "offers_loop E (currentPhase (ag_sm ag)) offers ((ty0, tok0, 0), handleWaitingOSDTasks E ag) = Inr (loc', ag')"
    using assms(1) by (rule resourceOffers_loop)
  then show ?thesis
  proof (rule offers_loop_induct [where P = "\<lambda>_ _ ag'. osd_load (ag_sm ag') \<le> max 3 (osd_load (ag_sm ag))"])
    fix offer now ty tok ini ag1 loc2 ag2
    assume s: "offer_step E (currentPhase (ag_sm ag)) (offer, now) ((ty, tok, ini), ag1) = Inr (loc2, ag2)"
      and ph: "currentPhase (ag_sm ag) = currentPhase (ag_sm ag1)"
      and IH: "osd_load (ag_sm ag1) \<le> max 3 (osd_load (ag_sm ag))"
    from s ph show "osd_load (ag_sm ag2) \<le> max 3 (osd_load (ag_sm ag))"
    proof (cases rule: offer_step_cases)
      case declined
      with IH show ?thesis by (simp add: osd_load_same_tasks)
    next
      case (launched t1 k eid ini' executor labels cs ag3)
      have "t1 = OSD \<Longrightarrow> osd_load (ag_sm ag1) < 3"
        using launched(1) ph assms(2) by (auto simp: osd_load_def)
      with IH launched(5) osd_load_same_tasks [OF launched(3)] show ?thesis by auto
    qed
  qed simp_all
qed

text \<open>In the request phase a batch brings as many OSDs as it takes instances from the requests.\<close>

lemma offers_request_budget:
  assumes "resourceOffers E ty0 tok0 offers ag = Inr ag'" and ph0: "currentPhase (ag_sm ag) = WAINTING_REQUEST"
    and "\<forall>n \<in> set (ag_pendingOSD ag). 1 \<le> n"
  shows "osd_load (ag_sm ag') + sum_list (ag_pendingOSD ag') = osd_load (ag_sm ag) + sum_list (ag_pendingOSD ag)"
    and "\<forall>n \<in> set (ag_pendingOSD ag'). 1 \<le> n"
proof -
  let ?P = "\<lambda>ag'. osd_load (ag_sm ag') + sum_list (ag_pendingOSD ag')
              = osd_load (ag_sm ag) + sum_list (ag_pendingOSD ag) \<and> (\<forall>n \<in> set (ag_pendingOSD ag'). 1 \<le> n)"
  obtain loc' where loop:
    "offers_loop E (currentPhase (ag_sm ag)) offers ((ty0, tok0, 0), handleWaitingOSDTasks E ag) = Inr (loc', ag')"
    using assms(1) by (rule resourceOffers_loop)
  then have "?P ag'"
  proof (rule offers_loop_induct [where P = "\<lambda>_ _. ?P"])
    fix offer now ty tok ini ag1 loc2 ag2
    assume s: "offer_step E (currentPhase (ag_sm ag)) (offer, now) ((ty, tok, ini), ag1) = Inr (loc2, ag2)"
      and ph: "currentPhase (ag_sm ag) = currentPhase (ag_sm ag1)" and IH: "?P ag1"
    from s ph show "?P ag2"
    proof (cases rule: offer_step_cases)
      case declined
      with IH show ?thesis by (simp add: osd_load_same_tasks)
    next
      case (launched t1 k eid ini' executor labels cs ag3)
      have "t1 = OSD" using launched(1) ph ph0 by (cases t1) auto
      moreover have "fetchPendingRESTfulRequest (ag_pendingOSD ag1) = (True, ag_pendingOSD ag2)"
        using launched(7) ph0 by simp
      ultimately show ?thesis
        using IH requests.fetch_True [of "ag_pendingOSD ag1" "ag_pendingOSD ag2"] launched(5)
          osd_load_same_tasks [OF launched(3)] by auto
    qed
  qed (use assms(3) in simp_all)
  then show "osd_load (ag_sm ag') + sum_list (ag_pendingOSD ag') = osd_load (ag_sm ag) + sum_list (ag_pendingOSD ag)"
    and "\<forall>n \<in> set (ag_pendingOSD ag'). 1 \<le> n" by simp_all
qed

subsection \<open>Answers\<close>

lemma offers_answered:
  assumes "resourceOffers E ty0 tok0 offers ag = Inr ag'"
  shows "\<exists>calls. ag_driver ag' = ag_driver ag @ calls \<and>
     (\<forall>offer \<in> fst ` set offers. \<exists>c \<in> set calls. answers (o_id offer) c)"
proof -
  let ?P = "\<lambda>(pre :: (Offer \<times> int) list) ag'. \<exists>calls. ag_driver ag' = ag_driver ag @ calls \<and>
     (\<forall>offer \<in> fst ` set pre. \<exists>c \<in> set calls. answers (o_id offer) c)"
  obtain loc' where loop:
    "offers_loop E (currentPhase (ag_sm ag)) offers ((ty0, tok0, 0), handleWaitingOSDTasks E ag) = Inr (loc', ag')"
    using assms by (rule resourceOffers_loop)
  then show ?thesis
  proof (rule offers_loop_induct [where P = "\<lambda>pre _. ?P pre"])
    show "?P [] (handleWaitingOSDTasks E ag)"
      using waiting_loop_driver unfolding handleWaitingOSDTasks_def by (simp, blast)
  next
    fix offer now pre ty tok ini ag1 loc2 ag2
    assume s: "offer_step E (currentPhase (ag_sm ag)) (offer, now) ((ty, tok, ini), ag1) = Inr (loc2, ag2)"
      and ph: "currentPhase (ag_sm ag) = currentPhase (ag_sm ag1)" and IH: "?P pre ag1"
    from s ph have "\<exists>cs. ag_driver ag2 = ag_driver ag1 @ cs \<and> (\<exists>c \<in> set cs. answers (o_id offer) c)"
    proof (cases rule: offer_step_cases)
      case (launched t1 k eid ini' executor labels cs ag3)
      show ?thesis unfolding launched(10) by simp
    qed blast
    then obtain cs c where cs: "ag_driver ag2 = ag_driver ag1 @ cs" "c \<in> set cs" "answers (o_id offer) c"
      by blast
    obtain calls where "ag_driver ag1 = ag_driver ag @ calls"
        "\<forall>offer \<in> fst ` set pre. \<exists>c \<in> set calls. answers (o_id offer) c"
      using IH by blast
    with cs show "?P (pre @ [(offer, now)]) ag2"
      by (intro exI [of _ "calls @ cs"]) auto
  qed simp
qed

subsection \<open>The initial MON\<close>

text \<open>
  A node task says in its data whether it is the initial MON; it does exactly for \<open>mon0\<close>.
\<close>

fun initial_flag_ok :: "driver_call \<Rightarrow> bool" where
  "initial_flag_ok (LaunchTasks i tasks) \<longleftrightarrow>
     (\<forall>t \<in> set tasks. \<forall>d. ti_data t = Some d \<longrightarrow> (take 2 d = ''1.'' \<longleftrightarrow> ti_name t = ''mon0''))"
| "initial_flag_ok _ \<longleftrightarrow> True"

lemma no_node_flag: "no_node c \<Longrightarrow> initial_flag_ok c"
  by (cases c) auto

lemma node_task_flag:
  assumes "lexcast_ok (ae_lc E)" and "0 \<le> k" and "ini = (if ty = MON \<and> k = 0 then 1 else 0)"
  shows "initial_flag_ok (LaunchTasks i [node_task E offer ty k ini role executor labels])"
proof -
  have mon0: "createTaskName E MON 0 = ''mon0''"
    using assms(1) by (simp add: createTaskName_def lexcast_strD)
  show ?thesis
    using assms createTaskName_eq [OF assms(1,2) order_refl, of ty MON]
    by (auto simp: lexcast_strD mon0)
qed

text \<open>The flag is a variable outside the loop; once it is set, the batch launches nothing more.\<close>

lemma offers_initial_flag:
  assumes "env_ok E" and "agent_inv E ag" and "resourceOffers E ty0 tok0 offers ag = Inr ag'"
  shows "\<exists>calls. ag_driver ag' = ag_driver ag @ calls \<and> (\<forall>c \<in> set calls. initial_flag_ok c)"
proof -
  let ?Q = "\<lambda>loc ag'. snd (snd loc) = 0 \<or>
     snd (snd loc) = 1 \<and> (currentPhase (ag_sm ag') = RECONCILING_TASKS \<or> currentPhase (ag_sm ag') = BOOTSTRAP_MON)
       \<and> 1 \<le> stagingNum MON (ag_sm ag')"
  let ?P = "\<lambda>loc ag'. agent_inv E ag' \<and> ?Q loc ag' \<and>
     (\<exists>calls. ag_driver ag' = ag_driver ag @ calls \<and> (\<forall>c \<in> set calls. initial_flag_ok c))"
  obtain loc' where loop:
    "offers_loop E (currentPhase (ag_sm ag)) offers ((ty0, tok0, 0), handleWaitingOSDTasks E ag) = Inr (loc', ag')"
    using assms(3) by (rule resourceOffers_loop)
  then have "?P loc' ag'"
  proof (rule offers_loop_induct [where P = "\<lambda>_. ?P"])
    obtain cs where "ag_driver (handleWaitingOSDTasks E ag) = ag_driver ag @ cs"
        "\<forall>c \<in> set cs. \<exists>e s m. c = SendFrameworkMessage e s m"
      using waiting_loop_driver unfolding handleWaitingOSDTasks_def by blast
    then show "?P (ty0, tok0, 0) (handleWaitingOSDTasks E ag)"
      using agent_inv_handleWaiting [OF assms(1,2)] by fastforce
  next
    fix offer now ty tok ini ag1 loc2 ag2
    assume s: "offer_step E (currentPhase (ag_sm ag)) (offer, now) ((ty, tok, ini), ag1) = Inr (loc2, ag2)"
      and ph: "currentPhase (ag_sm ag) = currentPhase (ag_sm ag1)" and IH: "?P (ty, tok, ini) ag1"
    from IH obtain calls where calls: "ag_driver ag1 = ag_driver ag @ calls" "\<forall>c \<in> set calls. initial_flag_ok c"
      by blast
    have inv2: "agent_inv E ag2" by (rule offer_step_inv(1) [OF assms(1) _ ph s]) (use IH in simp)
    from s ph show "?P loc2 ag2"
    proof (cases rule: offer_step_cases)
      case declined
      then obtain cs where cs: "ag_driver ag2 = ag_driver ag1 @ cs" "\<forall>c \<in> set cs. no_node c" by blast
      have "?Q loc2 ag2" using IH declined(1,5) by (simp add: same_tasks_def)
      moreover have "ag_driver ag2 = ag_driver ag @ (calls @ cs)" using cs calls by simp
      ultimately show ?thesis using inv2 cs calls no_node_flag by (metis Un_iff set_append)
    next
      case (launched t1 k eid ini' executor labels cs ag3)
      have ini: "ini = 0" using IH launched(1) by (cases t1) auto
      have "0 \<le> k" using IH launched(2) by (simp add: agent_inv_def core_inv_def ids_ok_def)
      have sends: "\<forall>c \<in> set cs. initial_flag_ok c" using launched(11) by (auto simp: register_call_def)
      have "initial_flag_ok (LaunchTasks (o_id offer)
          [node_task E offer t1 k ini' (cfg_role (ag_config ag1)) executor labels])"
        by (rule node_task_flag) (use assms(1) \<open>0 \<le> k\<close> launched(8) ini in \<open>simp_all add: env_ok_def\<close>)
      then have "\<exists>calls. ag_driver ag2 = ag_driver ag @ calls \<and> (\<forall>c \<in> set calls. initial_flag_ok c)"
        using launched(10) calls sends by auto
      moreover have "?Q loc2 ag2"
      proof (cases "t1 = MON \<and> k = 0")
        case True
        have "0 \<le> stagingNum MON (ag_sm ag3)"
          using counters_nonneg [of "ag_sm ag1" MON] IH launched(3)
          by (simp add: agent_inv_def core_inv_def same_tasks_def del: stagingNum.simps runningNum.simps)
        with True launched show ?thesis
          by (auto simp: same_tasks_def simp del: stagingNum.simps runningNum.simps)
      next
        case False
        with launched(8,9) ini show ?thesis by simp
      qed
      ultimately show ?thesis using inv2 by blast
    qed
  qed simp
  then show ?thesis by blast
qed

section \<open>OSD ids\<close>

text \<open>The waiting tasks get the last received ids, one each, until one of the two runs out.\<close>

definition launch_calls :: "lexcast \<Rightarrow> TaskState list \<Rightarrow> int list \<Rightarrow> driver_call list" where
  "launch_calls L ts ids =
     map (\<lambda>(t, i). SendFrameworkMessage (executorId t) (slaveId t) (launchOSD_message L i)) (zip ts (rev ids))"

lemma waiting_loop_spec:
  "ag_driver (waiting_loop L ts ag) = ag_driver ag @ launch_calls L ts (pendingOSDID (ag_sm ag)) \<and>
   pendingOSDID (ag_sm (waiting_loop L ts ag)) =
     take (length (pendingOSDID (ag_sm ag)) - length ts) (pendingOSDID (ag_sm ag)) \<and>
   (\<forall>k. map_of (taskMap (ag_sm (waiting_loop L ts ag))) k =
     (if k \<in> taskId ` set (take (length (pendingOSDID (ag_sm ag))) ts)
      then map_option (currentStatus_update (\<lambda>_. STARTING)) (map_of (taskMap (ag_sm ag)) k)
      else map_of (taskMap (ag_sm ag)) k))"
proof (induction ts arbitrary: ag)
  case (Cons t ts)
  let ?ids = "pendingOSDID (ag_sm ag)"
  show ?case
  proof (cases ?ids rule: rev_cases)
    case (snoc ids i)
    let ?ag = "onSM (updateTaskToStarting (taskId t)) (callDriver
        (SendFrameworkMessage (executorId t) (slaveId t) (launchOSD_message L i))
        (onSM (\<lambda>s. s\<lparr>pendingOSDID := ids\<rparr>) ag))"
    have loop: "waiting_loop L (t # ts) ag = waiting_loop L ts ?ag" using snoc by (simp add: Let_def)
    have upd: "map_of (taskMap (updateTaskToStarting (taskId t) ((ag_sm ag)\<lparr>pendingOSDID := ids\<rparr>))) k = (if k = taskId t
        then map_option (currentStatus_update (\<lambda>_. STARTING)) (map_of (taskMap (ag_sm ag)) k)
        else map_of (taskMap (ag_sm ag)) k)" for k
      by (auto simp: updateTaskToStarting_def Let_def split: option.splits)
    have sel: "pendingOSDID (ag_sm ?ag) = ids" "ag_driver ?ag = ag_driver ag @
        [SendFrameworkMessage (executorId t) (slaveId t) (launchOSD_message L i)]" by simp_all
    show ?thesis
      using Cons.IH [of ?ag] unfolding loop sel snoc
      by (auto simp: launch_calls_def upd option.map_comp o_def)
  qed (simp add: launch_calls_def)
qed (simp add: launch_calls_def)

end
