(* ===== verification/Scheduler_Regions.thy ===== *)
theory Scheduler_Regions
  imports Scheduler_Props
begin

text \<open>
  Runs of the scheduler: task entries are never overwritten, the phase falls only when a
  running task fails, and a region of the state space that no step leaves: an initial MON
  whose number was given away.
\<close>

section \<open>Task entries along a run\<close>

definition tasks_kept :: "StateMachine \<Rightarrow> StateMachine \<Rightarrow> bool" where
  "tasks_kept s s' \<longleftrightarrow>
     (\<forall>k t. map_of (taskMap s) k = Some t \<longrightarrow>
        (\<exists>st. map_of (taskMap s') k = Some (t\<lparr>currentStatus := st\<rparr>)))"

lemma tasks_kept_eq: "taskMap s' = taskMap s \<Longrightarrow> tasks_kept s s'"
  by (auto simp: tasks_kept_def) (metis TaskState.surjective TaskState.update_convs(6))

lemma tasks_kept_trans: "tasks_kept s t \<Longrightarrow> tasks_kept t u \<Longrightarrow> tasks_kept s u"
  unfolding tasks_kept_def by fastforce

lemma tasks_kept_put:
  assumes "taskMap s' = map_put tid t' (taskMap s)"
    and "\<And>t. map_of (taskMap s) tid = Some t \<Longrightarrow> \<exists>st. t' = t\<lparr>currentStatus := st\<rparr>"
  shows "tasks_kept s s'"
  using assms tasks_kept_eq [OF refl, of s] by (fastforce simp: tasks_kept_def)

lemma tasks_kept_update:
  "tasks_kept s (updateTaskToRunning tid s)" "tasks_kept s (updateTaskToFailed tid s)"
  "tasks_kept s (updateTaskToWaitingOSDID tid s)" "tasks_kept s (updateTaskToStarting tid s)"
proof -
  note defs = updateTaskToRunning_def updateTaskToFailed_def updateTaskToWaitingOSDID_def
    updateTaskToStarting_def
  have "tasks_kept s (updateTaskToRunning tid s) \<and> tasks_kept s (updateTaskToFailed tid s) \<and>
        tasks_kept s (updateTaskToWaitingOSDID tid s) \<and> tasks_kept s (updateTaskToStarting tid s)"
  proof (cases "map_of (taskMap s) tid")
    case (Some t)
    then show ?thesis
      by (intro conjI; intro tasks_kept_put [where tid = tid]) (auto simp: defs Let_def)
  qed (simp add: defs tasks_kept_eq)
  then show "tasks_kept s (updateTaskToRunning tid s)" "tasks_kept s (updateTaskToFailed tid s)"
    "tasks_kept s (updateTaskToWaitingOSDID tid s)" "tasks_kept s (updateTaskToStarting tid s)" by simp_all
qed

lemma waiting_loop_kept: "tasks_kept (ag_sm ag) (ag_sm (waiting_loop L ts ag))"
proof (induction ts arbitrary: ag)
  case (Cons t ts)
  let ?s = "(ag_sm ag)\<lparr>pendingOSDID := butlast (pendingOSDID (ag_sm ag))\<rparr>"
  have "tasks_kept (ag_sm ag) ?s" by (rule tasks_kept_eq) simp
  then have "tasks_kept (ag_sm ag) (updateTaskToStarting (taskId t) ?s)"
    using tasks_kept_update(4) by (rule tasks_kept_trans)
  then show ?case
    by (auto simp: Let_def tasks_kept_eq intro!: tasks_kept_trans [OF _ Cons.IH])
qed (simp add: tasks_kept_eq)

lemma resourceOffers_kept:
  assumes "env_ok E" and "agent_inv E ag" and "resourceOffers E ty0 tok0 offers ag = Inr ag'"
  shows "tasks_kept (ag_sm ag) (ag_sm ag')"
proof -
  let ?P = "\<lambda>_ _ ag'. agent_inv E ag' \<and> tasks_kept (ag_sm ag) (ag_sm ag')"
  obtain loc' where loop:
    "offers_loop E (currentPhase (ag_sm ag)) offers ((ty0, tok0, 0), handleWaitingOSDTasks E ag) = Inr (loc', ag')"
    using assms(3) by (rule resourceOffers_loop)
  then have "agent_inv E ag' \<and> tasks_kept (ag_sm ag) (ag_sm ag')"
  proof (rule offers_loop_induct [where P = ?P])
    show "agent_inv E (handleWaitingOSDTasks E ag) \<and> tasks_kept (ag_sm ag) (ag_sm (handleWaitingOSDTasks E ag))"
      using agent_inv_handleWaiting [OF assms(1,2)] waiting_loop_kept by (simp add: handleWaitingOSDTasks_def)
  next
    fix offer now ty tok ini ag1 loc2 ag2
    assume s: "offer_step E (currentPhase (ag_sm ag)) (offer, now) ((ty, tok, ini), ag1) = Inr (loc2, ag2)"
      and ph: "currentPhase (ag_sm ag) = currentPhase (ag_sm ag1)"
      and IH: "agent_inv E ag1 \<and> tasks_kept (ag_sm ag) (ag_sm ag1)"
    from s ph have "tasks_kept (ag_sm ag1) (ag_sm ag2)"
    proof (cases rule: offer_step_cases)
      case declined
      then show ?thesis by (simp add: same_tasks_def tasks_kept_eq)
    next
      case (launched t1 k eid ini' executor labels cs ag3)
      have "map_of (taskMap (ag_sm ag1)) (task_id_of E t1 k offer) = None"
        using fresh_task_id [OF assms(1)] IH launched(2) by (simp add: agent_inv_def core_inv_def)
      then show ?thesis
        using launched(3,5) by (intro tasks_kept_put) (auto simp: same_tasks_def)
    qed
    then show "agent_inv E ag2 \<and> tasks_kept (ag_sm ag) (ag_sm ag2)"
      using IH offer_step_inv(1) [OF assms(1) _ ph s] tasks_kept_trans by blast
  qed simp
  then show ?thesis by simp
qed

lemma agent_step_kept:
  assumes "env_ok E" and "agent_inv E ag" and "agent_step E J ag ag'"
  shows "tasks_kept (ag_sm ag) (ag_sm ag')"
  using assms(3)
proof (cases rule: agent_step.cases)
  case offers
  then show ?thesis using resourceOffers_kept [OF assms(1,2)] by blast
next
  case (status st)
  from status(1) show ?thesis
    by (cases rule: statusUpdate_cases)
       (use same_tasks_setConfig in \<open>auto simp: tasks_kept_update tasks_kept_eq same_tasks_def\<close>)
next
  case message
  then show ?thesis
    by (auto simp: frameworkMessage_def addPendingOSDID_def tasks_kept_eq split: if_splits elim!: bind_resE)
qed (simp add: tasks_kept_eq)

lemma agent_run_kept:
  assumes "env_ok E" and "(agent_step E J)\<^sup>*\<^sup>* ag ag'" and "agent_inv E ag"
  shows "tasks_kept (ag_sm ag) (ag_sm ag')"
  using assms(2,3)
proof (induction rule: rtranclp_induct)
  case (step ag1 ag2)
  have "agent_inv E ag1" using scheduler.inv_run [OF step(1)] assms(1) step(4) by blast
  then show ?case
    using agent_step_kept [OF assms(1) _ step(2)] step tasks_kept_trans by blast
qed (simp add: tasks_kept_eq)

section \<open>The phase\<close>

lemma phase_of_mono:
  assumes "\<And>ty. runningNum ty s \<le> runningNum ty s'"
  shows "phase_of s \<le> phase_of s'"
  using assms [of MON] assms [of OSD] assms [of RADOSGW]
  by (auto simp: phase_of_def less_eq_Phase_def simp del: runningNum.simps)

lemma updateTaskToRunning_phase:
  assumes "sm_inv s"
  shows "currentPhase s \<le> currentPhase (updateTaskToRunning tid s)"
proof (cases "map_of (taskMap s) tid")
  case (Some t)
  have "phase_of s \<le> phase_of (updateCounters (taskType t) (currentStatus t) RUNNING s
          \<lparr>taskMap := map_put tid (t\<lparr>currentStatus := RUNNING\<rparr>) (taskMap s)\<rparr>)"
    by (rule phase_of_mono) simp
  with assms Some show ?thesis by (simp add: updateTaskToRunning_def Let_def sm_inv_def)
qed (simp add: updateTaskToRunning_def)

lemma updateTaskToFailed_phase:
  assumes "sm_inv s" and "currentPhase (updateTaskToFailed tid s) < currentPhase s"
  shows "\<exists>t. map_of (taskMap s) tid = Some t \<and> currentStatus t = RUNNING \<and>
             map_of (taskMap (updateTaskToFailed tid s)) tid = Some (t\<lparr>currentStatus := FAILED\<rparr>)"
proof (cases "map_of (taskMap s) tid")
  case (Some t)
  have "currentStatus t = RUNNING"
  proof (rule ccontr)
    assume "currentStatus t \<noteq> RUNNING"
    then have "phase_of (updateCounters (taskType t) (currentStatus t) FAILED s
          \<lparr>taskMap := map_put tid (t\<lparr>currentStatus := FAILED\<rparr>) (taskMap s)\<rparr>) = phase_of s"
      by (intro phase_of_eq) simp
    with assms Some show False by (simp add: updateTaskToFailed_def Let_def sm_inv_def)
  qed
  with Some show ?thesis by (simp add: updateTaskToFailed_def Let_def)
qed (use assms(2) in \<open>simp add: updateTaskToFailed_def\<close>)

lemma resourceOffers_phase:
  assumes "resourceOffers E ty0 tok0 offers ag = Inr ag'"
  shows "currentPhase (ag_sm ag') = currentPhase (ag_sm ag)"
proof -
  obtain loc' where
    "offers_loop E (currentPhase (ag_sm ag)) offers ((ty0, tok0, 0), handleWaitingOSDTasks E ag) = Inr (loc', ag')"
    using assms by (rule resourceOffers_loop)
  then show ?thesis
  proof (rule offers_loop_induct [where P = "\<lambda>_ _ ag'. currentPhase (ag_sm ag') = currentPhase (ag_sm ag)"])
    show "currentPhase (ag_sm ag2) = currentPhase (ag_sm ag)"
      if "offer_step E (currentPhase (ag_sm ag)) (offer, now) ((ty, tok, ini), ag1) = Inr (loc2, ag2)"
        and "currentPhase (ag_sm ag) = currentPhase (ag_sm ag1)"
      for offer now ty tok ini ag1 loc2 ag2
      using that by (rule offer_step_phase)
  qed simp_all
qed

lemma agent_step_phase:
  assumes "agent_inv E ag" and "agent_step E J ag ag'"
    and "currentPhase (ag_sm ag') < currentPhase (ag_sm ag)"
  shows "\<exists>tid t. map_of (taskMap (ag_sm ag)) tid = Some t \<and> currentStatus t = RUNNING \<and>
             map_of (taskMap (ag_sm ag')) tid = Some (t\<lparr>currentStatus := FAILED\<rparr>)"
  using assms(2)
proof (cases rule: agent_step.cases)
  case offers
  then show ?thesis using resourceOffers_phase assms(3) by fastforce
next
  case (status st)
  have sm: "sm_inv (ag_sm ag)" using assms(1) by (simp add: agent_inv_def core_inv_def)
  from status(1) show ?thesis
  proof (cases rule: statusUpdate_cases)
    case running
    then show ?thesis using updateTaskToRunning_phase [OF sm] assms(3) by (simp add: leD)
  next
    case starting
    then show ?thesis
      using assms(3) by (simp add: updateTaskToWaitingOSDID_def Let_def split: option.splits)
  next
    case failed
    then show ?thesis using updateTaskToFailed_phase [OF sm] assms(3) by (simp, blast)
  next
    case disk
    then show ?thesis using assms(3) same_tasks_setConfig by (auto simp: same_tasks_def)
  qed (use assms(3) in simp)
next
  case message
  then show ?thesis
    using assms(3)
    by (auto simp: frameworkMessage_def addPendingOSDID_def split: if_splits elim!: bind_resE)
qed (use assms(3) in simp)

section \<open>Uninitialised locals\<close>

text \<open>What of a round's outcome can be seen from outside.\<close>

definition visible :: "(ro_locals \<times> agent) res \<Rightarrow> (int \<times> agent) res" where
  "visible r = map_sum id (\<lambda>((ty, tok, ini), ag). (ini, ag)) r"

lemma nextMove_locals:
  "\<exists>b t k s'. (\<exists>t' k'. nextMove ty tok h s = (b, t', k', s') \<and> (b \<longrightarrow> t' = t \<and> k' = k)) \<and>
     (\<exists>t' k'. nextMove ty2 tok2 h s = (b, t', k', s') \<and> (b \<longrightarrow> t' = t \<and> k' = k))"
  by (auto simp: nextMove_def)

lemma offer_step_locals:
  "visible (offer_step E phase off ((ty, tok, ini), ag)) = visible (offer_step E phase off ((ty2, tok2, ini), ag))"
proof (cases off)
  case (Pair offer now)
  have "visible (let (acc, ty, tok, sm) = nextMove ty tok h (ag_sm ag1)
          in offer_decide E phase offer now acc (ty, tok, ini) (ag1\<lparr>ag_sm := sm\<rparr>))
      = visible (let (acc, ty, tok, sm) = nextMove ty2 tok2 h (ag_sm ag1)
          in offer_decide E phase offer now acc (ty, tok, ini) (ag1\<lparr>ag_sm := sm\<rparr>))" for h ag1
    using nextMove_locals [of ty tok h "ag_sm ag1" ty2 tok2]
    by (auto simp: offer_decide_def visible_def)
  then show ?thesis
    by (auto simp: Pair offer_step_def visible_def bind_res_def split: sum.splits)
qed

lemma offers_loop_locals:
  "visible (offers_loop E phase offers ((ty, tok, ini), ag)) = visible (offers_loop E phase offers ((ty2, tok2, ini), ag))"
proof (induction offers arbitrary: ty tok ini ag ty2 tok2)
  case (Cons off offers)
  show ?case
    using offer_step_locals [of E phase off ty tok ini ag ty2 tok2] Cons.IH
    by (auto simp: visible_def bind_res_def split: sum.splits)
qed (simp add: visible_def)

lemma resourceOffers_locals:
  "resourceOffers E ty0 tok0 offers ag = resourceOffers E ty1 tok1 offers ag"
proof -
  have eq: "resourceOffers E ty tok offers ag = map_sum id snd
      (visible (offers_loop E (currentPhase (ag_sm ag)) offers ((ty, tok, 0), handleWaitingOSDTasks E ag)))" for ty tok
    by (auto simp: resourceOffers_def getCurrentPhase_def visible_def bind_res_def Let_def split: sum.splits)
  show ?thesis unfolding eq using offers_loop_locals by metis
qed

section \<open>The number of the initial MON given away\<close>

text \<open>
  \<open>nextMove\<close> counts \<open>monIndex\<close> up before the offer's resources are looked at. Once number 0
  is gone without a task, no task is ever called \<open>mon0\<close>.
\<close>

definition is_mon0 :: "string \<Rightarrow> bool" where
  "is_mon0 tid \<longleftrightarrow> take 4 tid = ''mon0''"

definition mon_skipped :: "StateMachine \<Rightarrow> bool" where
  "mon_skipped s \<longleftrightarrow> 1 \<le> indexNum MON s \<and> (\<forall>tid \<in> dom (map_of (taskMap s)). \<not> is_mon0 tid)"

lemma is_mon0_task_id:
  assumes "lexcast_ok (ae_lc E)" and "ty = MON \<Longrightarrow> 1 \<le> k"
  shows "\<not> is_mon0 (task_id_of E ty k offer)"
proof (cases ty)
  case MON
  obtain c cs where c: "show_int k = c # cs" by (cases "show_int k") simp_all
  have "hd (show_nat (nat k)) \<noteq> CHR ''0''" by (rule show_nat_hd) (use assms MON in simp)
  then have "c \<noteq> CHR ''0''" using c assms(2) MON by (auto simp: show_int_def)
  with MON c show ?thesis
    using assms(1) by (simp add: is_mon0_def task_id_of_def createTaskName_def lexcast_strD)
qed (use assms in \<open>simp_all add: is_mon0_def task_id_of_def createTaskName_def\<close>)

lemma mon_skipped_tasks:
  assumes "mon_skipped s" and "\<forall>t. indexNum t s \<le> indexNum t s'"
    and "dom (map_of (taskMap s')) \<subseteq> dom (map_of (taskMap s))"
  shows "mon_skipped s'"
  using assms unfolding mon_skipped_def by (meson order_trans subsetD)

lemma mon_skipped_offer_step:
  assumes "lexcast_ok (ae_lc E)" and "mon_skipped (ag_sm ag)" and "phase = currentPhase (ag_sm ag)"
    and "offer_step E phase (offer, now) ((ty, tok, ini), ag) = Inr (loc', ag')"
  shows "mon_skipped (ag_sm ag')"
  using assms(4,3)
proof (cases rule: offer_step_cases)
  case declined
  then show ?thesis using mon_skipped_tasks [OF assms(2)] by (simp add: same_tasks_def)
next
  case (launched t1 k eid ini' executor labels cs ag1)
  have "t1 = MON \<Longrightarrow> 1 \<le> k" using assms(2) launched(2) by (simp add: mon_skipped_def)
  with assms(1) have "\<not> is_mon0 (task_id_of E t1 k offer)" by (rule is_mon0_task_id)
  moreover have "taskMap (ag_sm ag1) = taskMap (ag_sm ag)" using launched(3) by (simp add: same_tasks_def)
  ultimately show ?thesis
    using assms(2) launched(4) by (auto simp: mon_skipped_def launched(5) simp del: indexNum.simps)
qed

lemma waiting_loop_dom:
  "dom (map_of (taskMap (ag_sm (waiting_loop L ts ag)))) = dom (map_of (taskMap (ag_sm ag)))"
proof (induction ts arbitrary: ag)
  case (Cons t ts)
  then show ?case by (auto simp: Let_def updateTaskToStarting_def split: option.splits)
qed simp

lemma mon_skipped_offers:
  assumes "lexcast_ok (ae_lc E)" and "mon_skipped (ag_sm ag)"
    and "resourceOffers E ty0 tok0 offers ag = Inr ag'"
  shows "mon_skipped (ag_sm ag')"
proof -
  obtain loc' where
    "offers_loop E (currentPhase (ag_sm ag)) offers ((ty0, tok0, 0), handleWaitingOSDTasks E ag) = Inr (loc', ag')"
    using assms(3) by (rule resourceOffers_loop)
  then show ?thesis
  proof (rule offers_loop_induct [where P = "\<lambda>_ _ ag'. mon_skipped (ag_sm ag')"])
    show "mon_skipped (ag_sm (handleWaitingOSDTasks E ag))"
      by (rule mon_skipped_tasks [OF assms(2)]) (simp_all add: handleWaitingOSDTasks_def waiting_loop_dom waiting_loop_frame)
  next
    show "mon_skipped (ag_sm ag2)"
      if "offer_step E (currentPhase (ag_sm ag)) (offer, now) ((ty, tok, ini), ag1) = Inr (loc2, ag2)"
        and "currentPhase (ag_sm ag) = currentPhase (ag_sm ag1)" and "mon_skipped (ag_sm ag1)"
      for offer now ty tok ini ag1 loc2 ag2
      using mon_skipped_offer_step [OF assms(1) that(3,2,1)] .
  qed simp
qed

lemma mon_skipped_status:
  assumes "mon_skipped (ag_sm ag)" and "statusUpdate E st ag = Inr ag'"
  shows "mon_skipped (ag_sm ag')"
  using assms(2)
proof (cases rule: statusUpdate_cases)
  case (disk h hc)
  then show ?thesis
    using mon_skipped_tasks [OF assms(1)] same_tasks_setConfig [of "ag_sm ag" h hc]
      same_index_setConfig [of "ag_sm ag" h hc] by (simp add: same_tasks_def same_index_def)
qed (use assms(1) in \<open>auto simp: updateTaskToRunning_def updateTaskToWaitingOSDID_def updateTaskToFailed_def
       Let_def split: option.splits if_splits intro!: mon_skipped_tasks [OF assms(1)]\<close>)

interpretation skipped: step_invariant "\<lambda>ag. mon_skipped (ag_sm ag)" "agent_step E J"
  "\<lambda>ag. lexcast_ok (ae_lc E) \<longrightarrow> mon_skipped (ag_sm ag)"
  for E :: "'y agent_env" and J :: "'j json_lib"
proof unfold_locales
  fix ag ag' assume inv: "lexcast_ok (ae_lc E) \<longrightarrow> mon_skipped (ag_sm ag)" and st: "agent_step E J ag ag'"
  from st show "lexcast_ok (ae_lc E) \<longrightarrow> mon_skipped (ag_sm ag')"
  proof (cases rule: agent_step.cases)
    case offers
    with inv show ?thesis using mon_skipped_offers by blast
  next
    case status
    with inv show ?thesis using mon_skipped_status by blast
  next
    case message
    with inv show ?thesis
      by (auto simp: frameworkMessage_def addPendingOSDID_def mon_skipped_def split: if_splits elim!: bind_resE)
  qed (use inv in simp)
qed simp

text \<open>The first offer with the right role and too few resources leads there.\<close>

lemma addConfig_not_preparing:
  assumes "addConfig C h (StateMachine_new indet config) = Inr sm"
  shows "\<not> isPreparingDisk (getConfig sm h)"
  using assms
  by (auto simp: addConfig_def StateMachine_new_def getConfig_def HostConfig_by_hostname_def isPreparingDisk_def
      elim!: bind_resE)

lemma poor_offer_skips:
  assumes "hasRole offer (cfg_role config)"
    and ac: "addConfig (ae_config E) (o_hostname offer) (StateMachine_new indet config) = Inr sm"
    and poor: "\<And>ag ty. ag_config ag = config \<Longrightarrow> offerNotEnoughResources E ag offer ty = Inr True"
    and ord: "map_order_ok (ae_iter E)"
  shows "\<exists>ag'. resourceOffers E ty0 tok0 [(offer, now)] (CephSchedulerAgent_new indet config) = Inr ag' \<and>
           mon_skipped (ag_sm ag')"
proof -
  let ?ag = "CephSchedulerAgent_new indet config"
  let ?ag1 = "?ag\<lparr>ag_sm := sm\<rparr>"
  have "ae_iter E [] = []" using ord unfolding map_order_ok_def by (metis mset.simps(1) mset_zero_iff)
  then have hw: "handleWaitingOSDTasks E ?ag = ?ag"
    by (simp add: handleWaitingOSDTasks_def getWaitingOSDTask_def CephSchedulerAgent_new_def StateMachine_new_def)
  have sel: "ag_sm ?ag = StateMachine_new indet config" "ag_config ?ag = config"
    by (simp_all add: CephSchedulerAgent_new_def)
  have td: "tryLaunchDiskTask E now offer (o_hostname offer) ?ag1 = Inr ?ag1"
    using poor [of ?ag1] sel by (simp add: tryLaunchDiskTask_def Let_def)
  have st: "same_tasks (StateMachine_new indet config) sm" and si: "same_index (StateMachine_new indet config) sm"
    using same_tasks_addConfig [OF ac] same_index_addConfig [OF ac] by auto
  have sm: "taskMap sm = []" "currentPhase sm = BOOTSTRAP_MON" "monStagingNum sm = 0" "monRunningNum sm = 0"
      "monIndex sm = 0"
    using same_tasksD(1,2) [OF st] same_tasksD(3,4) [OF st, of MON] si [unfolded same_index_def, rule_format, of MON]
    by (simp_all add: StateMachine_new_def)
  have nm: "nextMove ty0 tok0 (o_hostname offer) sm = (True, MON, 0, sm\<lparr>monIndex := 1\<rparr>)"
    using sm addConfig_not_preparing [OF ac] by (simp add: nextMove_def)
  show ?thesis
    using assms(1) ac td nm poor [of "?ag1\<lparr>ag_sm := sm\<lparr>monIndex := 1\<rparr>\<rparr>"] sm
    by (simp add: resourceOffers_def hw getCurrentPhase_def offer_step_def offer_decide_def sel mon_skipped_def Let_def)
qed

end
