(* ===== verification/Bootstrap_Progress.thy ===== *)
theory Bootstrap_Progress
  imports Scheduler_Regions
begin

text \<open>
  When the bootstrap of the cluster can complete. An OSD that fails after it has left
  \<open>STAGING\<close> stays in the staging counter; with at most two OSDs left that stops the bootstrap
  for ever (\<open>osd_stuck\<close>, a region no step leaves). In every other state a usable offer is
  enough: some continuation of the run brings every task up, by a measure that counts the
  tasks still to be launched and the status changes still to come.
\<close>

section \<open>Tasks on their way and tasks that work\<close>

definition live :: "TaskType \<Rightarrow> StateMachine \<Rightarrow> int" where
  "live ty s = nPend ty s + nRun ty s"

text \<open>What the staging counter of the OSDs holds beyond the OSDs that are on their way.\<close>

definition leaked :: "StateMachine \<Rightarrow> int" where
  "leaked s = stagingNum OSD s - nPend OSD s"

lemma live_leaked_same_tasks:
  assumes "same_tasks s s'"
  shows "live ty s' = live ty s" "leaked s' = leaked s"
  using assms by (simp_all add: live_def leaked_def n_defs same_tasks_def)

lemma live_leaked_staging:
  assumes "map_of (taskMap s) tid = None"
  shows "live ty' (addStagingTask tid eid ty host sid s) = live ty' s + (if ty' = ty then 1 else 0)"
    "leaked (addStagingTask tid eid ty host sid s) = leaked s"
  using assms
  by (auto simp: live_def leaked_def n_defs count_vals_put_new is_pending_def simp del: stagingNum.simps)

text \<open>A status change keeps both numbers as long as the task does not fail.\<close>

lemma live_leaked_set_status:
  assumes t: "map_of (taskMap s) tid = Some t" and "task_ok t" and "expected t new"
    and s': "taskMap s' = map_put tid (t\<lparr>currentStatus := new\<rparr>) (taskMap s)"
      "\<And>ty. stagingNum ty s' = stagingNum ty (updateCounters (taskType t) (currentStatus t) new s)"
  shows "live ty s' \<le> live ty s" "leaked s \<le> leaked s'"
    "new \<noteq> FAILED \<Longrightarrow> live ty s' = live ty s \<and> leaked s' = leaked s"
  using assms(2,3) unfolding live_def leaked_def s'(2)
  by (cases new; cases "currentStatus t";
      auto simp: n_defs s'(1) count_vals_put_old [OF t] task_ok_def is_pending_def split: if_splits)+

lemma status_shape:
  assumes "s' = updateTaskToRunning tid s \<and> new = RUNNING \<or> s' = updateTaskToWaitingOSDID tid s \<and> new = WAITING_OSDID \<or>
      s' = updateTaskToStarting tid s \<and> new = STARTING \<or> s' = updateTaskToFailed tid s \<and> new = FAILED"
    and "map_of (taskMap s) tid = Some t"
  shows "taskMap s' = map_put tid (t\<lparr>currentStatus := new\<rparr>) (taskMap s)"
    "stagingNum ty s' = stagingNum ty (updateCounters (taskType t) (currentStatus t) new s)"
  using assms
  by (auto simp: updateTaskToRunning_def updateTaskToWaitingOSDID_def updateTaskToStarting_def
      updateTaskToFailed_def Let_def simp del: stagingNum_updateCounters)


lemma startable_live_leaked:
  assumes "sm_inv s" and "startable s t"
  shows "live ty (updateTaskToStarting (taskId t) s) = live ty s"
    "leaked (updateTaskToStarting (taskId t) s) = leaked s"
proof -
  have "live ty (updateTaskToStarting (taskId t) s) = live ty s \<and> leaked (updateTaskToStarting (taskId t) s) = leaked s"
  proof (cases "map_of (taskMap s) (taskId t)")
    case (Some u)
    have "task_ok u" "expected u STARTING" using assms Some by (auto simp: sm_inv_def startable_def)
    then show ?thesis
      using live_leaked_set_status(3) [OF Some _ _ status_shape [OF _ Some]] by blast
  qed (simp add: updateTaskToStarting_def)
  then show "live ty (updateTaskToStarting (taskId t) s) = live ty s"
    "leaked (updateTaskToStarting (taskId t) s) = leaked s" by simp_all
qed

lemma sm_inv_startable: "sm_inv s \<Longrightarrow> startable s t \<Longrightarrow> sm_inv (updateTaskToStarting (taskId t) s)"
  by (rule sm_inv_updateTaskToStarting) (simp_all add: startable_def)

lemma handleWaiting_live_leaked:
  assumes "env_ok E" and "sm_inv (ag_sm ag)"
  shows "live ty (ag_sm (handleWaitingOSDTasks E ag)) = live ty (ag_sm ag)"
    "leaked (ag_sm (handleWaitingOSDTasks E ag)) = leaked (ag_sm ag)"
proof -
  let ?P = "\<lambda>s. sm_inv s \<and> live ty s = live ty (ag_sm ag) \<and> leaked s = leaked (ag_sm ag)"
  have "?P (ag_sm (handleWaitingOSDTasks E ag))"
  proof (rule handleWaiting_induct [OF _ assms])
    show "?P (s\<lparr>pendingOSDID := ids\<rparr>)" if "?P s" for s ids
      using that live_leaked_same_tasks [OF same_tasks_pendingOSDID] sm_inv_same_tasks [OF _ same_tasks_pendingOSDID]
      by simp
    show "?P (updateTaskToStarting (taskId t) s)" if "?P s" "startable s t" for s t
      using that startable_live_leaked [of s t] sm_inv_startable by simp
  qed (simp add: assms(2))
  then show "live ty (ag_sm (handleWaitingOSDTasks E ag)) = live ty (ag_sm ag)"
    "leaked (ag_sm (handleWaitingOSDTasks E ag)) = leaked (ag_sm ag)" by simp_all
qed

lemma status_live_leaked:
  assumes "sm_inv (ag_sm ag)" and "status_legal (ag_sm ag) st" and "statusUpdate E st ag = Inr ag'"
  shows "live ty (ag_sm ag') \<le> live ty (ag_sm ag) \<and> leaked (ag_sm ag) \<le> leaked (ag_sm ag')"
proof -
  let ?s = "ag_sm ag" and ?tid = "st_task_id st"
  show ?thesis
  proof (cases "map_of (taskMap ?s) ?tid")
    case None
    with assms(3) show ?thesis
      by (cases rule: statusUpdate_cases)
         (simp_all add: updateTaskToRunning_def updateTaskToWaitingOSDID_def updateTaskToFailed_def
           live_leaked_same_tasks [OF same_tasks_setConfig])
  next
    case (Some t)
    have ok: "task_ok t" using assms(1) Some by (auto simp: sm_inv_def)
    have ex: "st_state st = TASK_RUNNING \<Longrightarrow> expected t RUNNING"
      "st_state st = TASK_STARTING \<Longrightarrow> expected t WAITING_OSDID"
      using assms(2) Some by (simp_all add: status_legal_def)
    note upd = live_leaked_set_status(1,2) [OF Some ok _ status_shape [OF _ Some]]
    from assms(3) show ?thesis
    proof (cases rule: statusUpdate_cases)
      case running
      then show ?thesis using upd [OF ex(1)] by simp
    next
      case starting
      then show ?thesis using upd [OF ex(2)] by simp
    next
      case failed
      then show ?thesis using upd [where new = FAILED] by simp
    qed (simp_all add: live_leaked_same_tasks [OF same_tasks_setConfig])
  qed
qed

section \<open>OSDs lost to the staging counter\<close>

text \<open>
  An OSD that fails after it has left \<open>STAGING\<close> stays in the staging counter. Together with
  at most two OSDs on their way or running it stops the bootstrap for ever.
\<close>

definition osd_stuck :: "StateMachine \<Rightarrow> bool" where
  "osd_stuck s \<longleftrightarrow> 1 \<le> leaked s \<and> live OSD s \<le> 2"

lemma osd_stuck_same_tasks: "osd_stuck s \<Longrightarrow> same_tasks s s' \<Longrightarrow> osd_stuck s'"
  by (simp add: osd_stuck_def live_leaked_same_tasks)

lemma osd_stuck_phase:
  assumes "sm_inv s" and "osd_stuck s"
  shows "nRun OSD s \<le> 2" "currentPhase s = BOOTSTRAP_MON \<or> currentPhase s = BOOTSTRAP_OSD"
proof -
  show n: "nRun OSD s \<le> 2"
    using assms(2) n_nonneg(2) [of OSD s] unfolding osd_stuck_def live_def by linarith
  then show "currentPhase s = BOOTSTRAP_MON \<or> currentPhase s = BOOTSTRAP_OSD"
    using assms(1) by (auto simp: sm_inv_def counters_ok_def phase_of_def)
qed

lemma osd_stuck_launch:
  assumes "sm_inv s" and "osd_stuck s" and "may_launch ty s" and st: "same_tasks s s1"
    and "map_of (taskMap s) tid = None"
  shows "osd_stuck (addStagingTask tid eid ty host sid s1)"
proof -
  have "live OSD s + (if ty = OSD then 1 else 0) \<le> 2"
    using assms(1-3) osd_stuck_phase(2) [OF assms(1,2)]
    by (auto simp: osd_stuck_def leaked_def live_def sm_inv_def counters_ok_def)
  moreover have "map_of (taskMap s1) tid = None" using assms(5) st by (simp add: same_tasks_def)
  ultimately show ?thesis
    using assms(2) live_leaked_same_tasks [OF st] by (auto simp: osd_stuck_def live_leaked_staging)
qed

lemma osd_stuck_offers:
  assumes "env_ok E" and "agent_inv E ag" and "osd_stuck (ag_sm ag)"
    and "resourceOffers E ty0 tok0 offers ag = Inr ag'"
  shows "osd_stuck (ag_sm ag')"
proof -
  have inv0: "sm_inv (ag_sm ag)" using assms(2) by (simp add: agent_inv_def core_inv_def)
  obtain loc' where loop:
    "offers_loop E (currentPhase (ag_sm ag)) offers ((ty0, tok0, 0), handleWaitingOSDTasks E ag) = Inr (loc', ag')"
    using assms(4) by (rule resourceOffers_loop)
  then have "agent_inv E ag' \<and> osd_stuck (ag_sm ag')"
  proof (rule offers_loop_induct [where P = "\<lambda>_ _ ag'. agent_inv E ag' \<and> osd_stuck (ag_sm ag')"])
    show "agent_inv E (handleWaitingOSDTasks E ag) \<and> osd_stuck (ag_sm (handleWaitingOSDTasks E ag))"
      using agent_inv_handleWaiting [OF assms(1,2)] handleWaiting_live_leaked [OF assms(1) inv0] assms(3)
      by (simp add: osd_stuck_def)
  next
    fix offer now ty tok ini ag1 loc2 ag2
    assume s: "offer_step E (currentPhase (ag_sm ag)) (offer, now) ((ty, tok, ini), ag1) = Inr (loc2, ag2)"
      and ph: "currentPhase (ag_sm ag) = currentPhase (ag_sm ag1)"
      and IH: "agent_inv E ag1 \<and> osd_stuck (ag_sm ag1)"
    from IH have inv: "sm_inv (ag_sm ag1)" "ids_ok E (ag_sm ag1)" by (simp_all add: agent_inv_def core_inv_def)
    from s ph have "osd_stuck (ag_sm ag2)"
    proof (cases rule: offer_step_cases)
      case declined
      then show ?thesis using IH osd_stuck_same_tasks by blast
    next
      case (launched t1 k eid ini' executor labels cs ag3)
      then show ?thesis
        using osd_stuck_launch [OF inv(1) _ launched(1,3) fresh_task_id [OF assms(1) inv(2)]] IH by simp
    qed
    then show "agent_inv E ag2 \<and> osd_stuck (ag_sm ag2)"
      using IH offer_step_inv(1) [OF assms(1) _ ph s] by blast
  qed simp
  then show ?thesis by simp
qed

interpretation stuck: step_invariant "\<lambda>ag. agent_inv E ag \<and> osd_stuck (ag_sm ag)" "agent_step E J"
  "\<lambda>ag. env_ok E \<longrightarrow> agent_inv E ag \<and> osd_stuck (ag_sm ag)"
  for E :: "'y agent_env" and J :: "'j json_lib"
proof unfold_locales
  fix ag ag' assume inv: "env_ok E \<longrightarrow> agent_inv E ag \<and> osd_stuck (ag_sm ag)" and st: "agent_step E J ag ag'"
  have "osd_stuck (ag_sm ag')" if "env_ok E"
    using st
  proof (cases rule: agent_step.cases)
    case offers
    with inv that show ?thesis using osd_stuck_offers by blast
  next
    case (status st)
    have "sm_inv (ag_sm ag)" using inv that by (simp add: agent_inv_def core_inv_def)
    from status_live_leaked [OF this status(2,1), of OSD] inv that show ?thesis by (simp add: osd_stuck_def)
  next
    case message
    with inv that show ?thesis
      using osd_stuck_same_tasks [OF _ same_tasks_addPendingOSDID]
      by (auto simp: frameworkMessage_def split: if_splits elim!: bind_resE)
  qed (use inv that in simp)
  with inv scheduler.inv_step [OF _ st] show "env_ok E \<longrightarrow> agent_inv E ag' \<and> osd_stuck (ag_sm ag')" by blast
qed simp


section \<open>Progress\<close>

text \<open>What is left to do: the tasks that have to be launched and the status changes of those on their way.\<close>

definition missing :: "StateMachine \<Rightarrow> int" where
  "missing s = max 0 (1 - live MON s) + max 0 (3 - live OSD s) + max 0 (1 - live RADOSGW s)"

definition work :: "StateMachine \<Rightarrow> int" where
  "work s = 3 * count_vals (\<lambda>t. currentStatus t = STAGING) (taskMap s)
     + 2 * count_vals (\<lambda>t. currentStatus t = WAITING_OSDID) (taskMap s)
     + count_vals (\<lambda>t. currentStatus t = STARTING) (taskMap s)"

definition remaining :: "StateMachine \<Rightarrow> nat" where
  "remaining s = nat (4 * missing s + work s)"

lemma missing_work_nonneg: "0 \<le> missing s" "0 \<le> work s"
proof -
  show "0 \<le> work s"
    unfolding work_def by (intro add_nonneg_nonneg mult_nonneg_nonneg) simp_all
qed (simp add: missing_def)

lemma remaining_less:
  assumes "missing s' = missing s" and "work s' < work s"
  shows "remaining s' < remaining s"
  using assms missing_work_nonneg [of s] missing_work_nonneg [of s'] by (simp add: remaining_def)

lemma work_set_status:
  assumes t: "map_of (taskMap s) tid = Some t" and "expected t new" and "new \<noteq> FAILED"
    and s': "taskMap s' = map_put tid (t\<lparr>currentStatus := new\<rparr>) (taskMap s)"
  shows "work s' \<le> work s" "currentStatus t \<noteq> new \<Longrightarrow> work s' < work s"
  using assms(2,3)
  by (cases new; cases "currentStatus t"; auto simp: work_def s' count_vals_put_old [OF t] split: if_splits)+

text \<open>
  An offer the scheduler can use: it has the framework's role and the resources of a task,
  the scheduler knows its own address, and the disks of the offer's host are prepared.
\<close>

definition host_ready :: "'y agent_env \<Rightarrow> StateMachine \<Rightarrow> string \<Rightarrow> bool" where
  "host_ready E s h \<longleftrightarrow>
     (\<exists>hc. (case hostConfigMap s h of Some hc \<Rightarrow> Inr hc | None \<Rightarrow> HostConfig_by_hostname (ae_config E) h) = Inr hc \<and>
        \<not> isPreparingDisk hc \<and> \<not> havePendingOSDDevs hc \<and> \<not> havePendingJNLDevs hc)"

definition usable :: "'y agent_env \<Rightarrow> agent \<Rightarrow> Offer \<Rightarrow> bool" where
  "usable E ag offer \<longleftrightarrow>
     hasRole offer (cfg_role (ag_config ag)) \<and> offerNotEnoughResources E ag offer OSD = Inr False \<and>
     (\<exists>ip. getFileServerIP E = Inr ip) \<and> host_ready E (ag_sm ag) (o_hostname offer)"

lemma offerNotEnoughResources_cong:
  "ag_config ag' = ag_config ag \<Longrightarrow> offerNotEnoughResources E ag' offer ty' = offerNotEnoughResources E ag offer ty"
  by (simp add: offerNotEnoughResources_def)

lemma host_ready_same:
  assumes "host_ready E s h" and "hostConfigMap s' = hostConfigMap s"
  shows "host_ready E s' h"
  using assms by (simp add: host_ready_def)

lemma host_ready_addConfig:
  assumes "host_ready E s h"
  obtains sm where "addConfig (ae_config E) h s = Inr sm" "\<not> isPreparingDisk (getConfig sm h)"
    "\<not> havePendingOSDDevs (getConfig sm h)" "\<not> havePendingJNLDevs (getConfig sm h)"
    "h \<in> dom (hostConfigMap sm)"
  using assms by (auto simp: host_ready_def addConfig_def getConfig_def split: option.splits)

lemma usable_same:
  assumes "usable E ag offer" and "ag_config ag' = ag_config ag"
    and "host_ready E (ag_sm ag') (o_hostname offer)"
  shows "usable E ag' offer"
  using assms offerNotEnoughResources_cong [OF assms(2), of E offer OSD OSD] by (simp add: usable_def)

definition ready :: "'y agent_env \<Rightarrow> Offer \<Rightarrow> agent \<Rightarrow> bool" where
  "ready E offer ag \<longleftrightarrow> agent_inv E ag \<and> usable E ag offer \<and> \<not> osd_stuck (ag_sm ag)"

lemma ready_same:
  assumes "ready E offer ag" and "agent_inv E ag'" and "ag_config ag' = ag_config ag"
    and "hostConfigMap (ag_sm ag') = hostConfigMap (ag_sm ag)"
    and "\<And>ty. live ty (ag_sm ag') = live ty (ag_sm ag)" and "leaked (ag_sm ag') = leaked (ag_sm ag)"
  shows "ready E offer ag'"
proof -
  have "host_ready E (ag_sm ag') (o_hostname offer)"
    by (rule host_ready_same [OF _ assms(4)]) (use assms(1) in \<open>simp add: ready_def usable_def\<close>)
  with assms(1,3) have "usable E ag' offer" using usable_same [of E ag offer ag'] by (simp add: ready_def)
  with assms(1,2,5,6) show ?thesis by (simp add: ready_def osd_stuck_def)
qed

subsection \<open>A status update\<close>

lemma status_ready:
  assumes r: "ready E offer ag" and t: "map_of (taskMap (ag_sm ag)) tid = Some t"
    and f: "f = updateTaskToRunning tid \<and> new = RUNNING \<or> f = updateTaskToWaitingOSDID tid \<and> new = WAITING_OSDID"
    and ex: "expected t new"
  shows "ready E offer (onSM f ag)" "missing (f (ag_sm ag)) = missing (ag_sm ag)"
    "currentStatus t \<noteq> new \<Longrightarrow> work (f (ag_sm ag)) < work (ag_sm ag)"
    "taskMap (f (ag_sm ag)) = map_put tid (t\<lparr>currentStatus := new\<rparr>) (taskMap (ag_sm ag))"
    "live ty (f (ag_sm ag)) = live ty (ag_sm ag)"
proof -
  have inv: "agent_inv E (onSM f ag)"
    using r f t ex by (auto simp: ready_def agent_inv_def intro!: core_inv_updateTaskToRunning core_inv_updateTaskToWaitingOSDID)
  have ok: "task_ok t" using r t by (auto simp: ready_def agent_inv_def core_inv_def sm_inv_def)
  show tm: "taskMap (f (ag_sm ag)) = map_put tid (t\<lparr>currentStatus := new\<rparr>) (taskMap (ag_sm ag))"
    by (rule status_shape(1) [OF _ t]) (use f in blast)
  have stg: "stagingNum ty (f (ag_sm ag)) = stagingNum ty (updateCounters (taskType t) (currentStatus t) new (ag_sm ag))" for ty
    by (rule status_shape(2) [OF _ t]) (use f in blast)
  have same: "live ty (f (ag_sm ag)) = live ty (ag_sm ag)" "leaked (f (ag_sm ag)) = leaked (ag_sm ag)" for ty
    using live_leaked_set_status(3) [OF t ok ex tm stg] f by auto
  show "live ty (f (ag_sm ag)) = live ty (ag_sm ag)" by (rule same)
  from same show "missing (f (ag_sm ag)) = missing (ag_sm ag)" by (simp add: missing_def)
  show "currentStatus t \<noteq> new \<Longrightarrow> work (f (ag_sm ag)) < work (ag_sm ag)"
    using work_set_status(2) [OF t ex _ tm] f by auto
  have "hostConfigMap (f (ag_sm ag)) = hostConfigMap (ag_sm ag)"
    using f by (auto simp: updateTaskToRunning_def updateTaskToWaitingOSDID_def t Let_def)
  with same show "ready E offer (onSM f ag)" by (intro ready_same [OF r inv]) simp_all
qed

lemma advance_status:
  assumes r: "ready E offer ag" and t: "map_of (taskMap (ag_sm ag)) tid = Some t"
    and new: "new = RUNNING \<and> st = TASK_RUNNING \<or> new = WAITING_OSDID \<and> st = TASK_STARTING"
    and ex: "expected t new" and ne: "currentStatus t \<noteq> new"
  shows "\<exists>ag'. agent_step E J ag ag' \<and> ready E offer ag' \<and> remaining (ag_sm ag') < remaining (ag_sm ag)"
proof -
  let ?st = "\<lparr>st_task_id = tid, st_state = st, st_message = None\<rparr>"
  let ?f = "if new = RUNNING then updateTaskToRunning tid else updateTaskToWaitingOSDID tid"
  have su: "statusUpdate E ?st ag = Inr (onSM ?f ag)" using new by (auto simp: statusUpdate_def)
  have legal: "status_legal (ag_sm ag) ?st" using t ex new by (auto simp: status_legal_def)
  have f: "?f = updateTaskToRunning tid \<and> new = RUNNING \<or> ?f = updateTaskToWaitingOSDID tid \<and> new = WAITING_OSDID"
    using new by auto
  note sr = status_ready [OF r t f ex]
  from remaining_less [OF sr(2) sr(3) [OF ne]] have "remaining (ag_sm (onSM ?f ag)) < remaining (ag_sm ag)"
    by (simp only: agent_frame)
  with agent_step.status [OF su legal] sr(1) show ?thesis by blast
qed

subsection \<open>An OSD id for a waiting task\<close>

lemma work_startable: "startable s t \<Longrightarrow> work (updateTaskToStarting (taskId t) s) \<le> work s"
proof (cases "map_of (taskMap s) (taskId t)")
  case (Some u)
  assume "startable s t"
  then have "expected u STARTING" using Some by (simp add: startable_def)
  then show ?thesis using work_set_status(1) [OF Some _ _ status_shape(1) [OF _ Some]] by blast
qed (simp add: updateTaskToStarting_def)

lemma handleWaiting_work:
  assumes "env_ok E" and inv: "sm_inv (ag_sm ag)" and ids: "pendingOSDID (ag_sm ag) \<noteq> []"
    and w: "getWaitingOSDTask (ae_iter E) (ag_sm ag) \<noteq> []"
  shows "work (ag_sm (handleWaitingOSDTasks E ag)) < work (ag_sm ag)"
proof -
  obtain t ts where ts: "getWaitingOSDTask (ae_iter E) (ag_sm ag) = t # ts" using w by (cases "getWaitingOSDTask (ae_iter E) (ag_sm ag)") auto
  have st: "\<forall>t' \<in> set (t # ts). startable (ag_sm ag) t'"
    using waiting_startable [OF inv, of "ae_iter E"] assms(1) unfolding ts [symmetric] by (auto simp: env_ok_def)
  let ?s = "(ag_sm ag)\<lparr>pendingOSDID := butlast (pendingOSDID (ag_sm ag))\<rparr>"
  let ?ag = "onSM (updateTaskToStarting (taskId t)) (callDriver
      (SendFrameworkMessage (executorId t) (slaveId t)
        (launchOSD_message (ae_lc E) (last (pendingOSDID (ag_sm ag)))))
      (onSM (\<lambda>s. s\<lparr>pendingOSDID := butlast (pendingOSDID (ag_sm ag))\<rparr>) ag))"
  have loop: "handleWaitingOSDTasks E ag = waiting_loop (ae_lc E) ts ?ag"
    using ids by (simp add: handleWaitingOSDTasks_def ts Let_def)
  have st': "startable ?s t'" if "t' \<in> set (t # ts)" for t'
    using st that by (auto simp: startable_def)
  obtain k where k: "(k, t) \<in> set (taskMap (ag_sm ag))" "currentStatus t = WAITING_OSDID"
  proof -
    have "t \<in> set (getWaitingOSDTask (ae_iter E) (ag_sm ag))" by (simp add: ts)
    moreover have "set (ae_iter E (taskMap (ag_sm ag))) = set (taskMap (ag_sm ag))"
      using assms(1) unfolding env_ok_def map_order_ok_def by (metis set_mset_mset)
    ultimately show thesis using that by (auto simp: getWaitingOSDTask_def)
  qed
  have t: "map_of (taskMap ?s) (taskId t) = Some t" and ex: "expected t STARTING"
    using k inv st' [of t] by (auto simp: sm_inv_def startable_def)
  have first: "work (ag_sm ?ag) < work (ag_sm ag)"
    using work_set_status(2) [OF t ex _ status_shape(1) [OF _ t]] k(2) by (simp add: work_def)
  have "work (ag_sm (waiting_loop (ae_lc E) ts ?ag)) \<le> work (ag_sm ?ag)"
  proof (rule waiting_loop_induct [where P = "\<lambda>s. work s \<le> work (ag_sm ?ag)"])
    show "\<forall>t' \<in> set ts. startable (ag_sm ?ag) t'" using st' by (simp add: startable_updateTaskToStarting)
    show "work (updateTaskToStarting (taskId u) s) \<le> work (ag_sm ?ag)"
      if "work s \<le> work (ag_sm ?ag)" "startable s u" for s u
      using that work_startable order_trans by blast
  qed (simp_all add: work_def)
  with first show ?thesis unfolding loop by linarith
qed

lemma iter_set: "env_ok E \<Longrightarrow> set (ae_iter E m) = set m"
  unfolding env_ok_def map_order_ok_def by (metis set_mset_mset)

lemma message_ready:
  assumes r: "ready E offer ag"
  shows "ready E offer (onSM (addPendingOSDID n) ag)" "missing (addPendingOSDID n (ag_sm ag)) = missing (ag_sm ag)"
    "work (addPendingOSDID n (ag_sm ag)) = work (ag_sm ag)" "live ty (addPendingOSDID n (ag_sm ag)) = live ty (ag_sm ag)"
proof -
  have "indexNum ty (addPendingOSDID n (ag_sm ag)) = indexNum ty (ag_sm ag)" for ty
    by (cases ty) (simp_all add: addPendingOSDID_def)
  then have inv: "agent_inv E (onSM (addPendingOSDID n) ag)"
    using r core_inv_frame [OF _ same_tasks_addPendingOSDID, of E "ag_sm ag" n] by (simp add: ready_def agent_inv_def)
  note same = live_leaked_same_tasks [OF same_tasks_addPendingOSDID]
  show "ready E offer (onSM (addPendingOSDID n) ag)"
    by (rule ready_same [OF r inv]) (simp_all add: same, simp add: addPendingOSDID_def)
  show "missing (addPendingOSDID n (ag_sm ag)) = missing (ag_sm ag)" by (simp add: missing_def same)
  show "live ty (addPendingOSDID n (ag_sm ag)) = live ty (ag_sm ag)" by (rule same)
  show "work (addPendingOSDID n (ag_sm ag)) = work (ag_sm ag)" by (simp add: work_def addPendingOSDID_def)
qed

lemma waiting_ready:
  assumes E: "env_ok E" and r: "ready E offer ag"
  shows "ready E offer (handleWaitingOSDTasks E ag)"
    "missing (ag_sm (handleWaitingOSDTasks E ag)) = missing (ag_sm ag)"
proof -
  have inv: "agent_inv E ag" "sm_inv (ag_sm ag)" using r by (simp_all add: ready_def agent_inv_def core_inv_def)
  note same = handleWaiting_live_leaked [OF E inv(2)]
  have "hostConfigMap (ag_sm (handleWaitingOSDTasks E ag)) = hostConfigMap (ag_sm ag)"
    by (rule handleWaiting_induct [OF _ E inv(2)]) simp_all
  with same show "ready E offer (handleWaitingOSDTasks E ag)"
    by (intro ready_same [OF r agent_inv_handleWaiting [OF E inv(1)]]) simp_all
  show "missing (ag_sm (handleWaitingOSDTasks E ag)) = missing (ag_sm ag)" by (simp add: missing_def same)
qed

lemma advance_waiting:
  assumes E: "env_ok E" and r: "ready E offer ag" and t: "map_of (taskMap (ag_sm ag)) tid = Some t"
    and "taskType t = OSD" and "currentStatus t = WAITING_OSDID"
  shows "\<exists>ag'. (agent_step E J)\<^sup>*\<^sup>* ag ag' \<and> ready E offer ag' \<and> remaining (ag_sm ag') < remaining (ag_sm ag)"
proof -
  let ?ag1 = "onSM (addPendingOSDID 0) ag"
  let ?ag2 = "handleWaitingOSDTasks E ?ag1"
  have "frameworkMessage E (executorId (initialMon E ag)) (show_int 0) ag = Inr ?ag1"
    using E by (simp add: frameworkMessage_def env_ok_def lexical_cast_int_show is_int32_def del: show_int_small)
  then have s1: "agent_step E J ag ?ag1" by (rule agent_step.message)
  have s2: "agent_step E J ?ag1 ?ag2"
    by (rule agent_step.offers [of E MON 0 "[]"]) (simp add: resourceOffers_def)
  note r1 = message_ready [OF r, where n = 0]
  note r2 = waiting_ready [OF E r1(1)]
  have sm1: "sm_inv (ag_sm ?ag1)" using r1(1) by (simp add: ready_def agent_inv_def core_inv_def)
  have "t \<in> set (getWaitingOSDTask (ae_iter E) (ag_sm ?ag1))"
    using map_of_SomeD [OF t] assms(4,5) iter_set [OF E] by (force simp: getWaitingOSDTask_def addPendingOSDID_def)
  then have "work (ag_sm ?ag2) < work (ag_sm ?ag1)"
    by (intro handleWaiting_work [OF E sm1]) (auto simp: addPendingOSDID_def)
  then have "remaining (ag_sm ?ag2) < remaining (ag_sm ag)"
    using r1(2,3) r2(2) by (intro remaining_less) simp_all
  with r2(1) s1 s2 show ?thesis by (meson converse_rtranclp_into_rtranclp rtranclp.rtrancl_refl)
qed

subsection \<open>A launch\<close>

text \<open>An OSD that is launched is announced to the initial MON.\<close>

lemma initialMon_sm: "ag_sm ag' = ag_sm ag \<Longrightarrow> initialMon E ag' = initialMon E ag"
  by (simp add: initialMon_def)

lemma accept_offer_register:
  assumes "accept_offer E offer now (OSD, token, 0) ag = Inr (loc', ag')"
  shows "\<exists>cs. ag_driver ag' = cs @ [SendFrameworkMessage (executorId (initialMon E ag')) (slaveId (initialMon E ag'))
    (lc_str (ae_lc E) (toExecutor_int REGISTER_OSD))]"
  using assms by (auto simp: accept_offer_def Let_def elim!: bind_resE) (simp_all add: initialMon_def)

text \<open>Whatever is launched on a usable offer, it stays usable.\<close>

lemma host_ready_launched:
  assumes "hostConfigMap s3 h = Some hc" and "\<not> isPreparingDisk hc" "\<not> havePendingOSDDevs hc" "\<not> havePendingJNLDevs hc"
    and "addHostConfig ty h ag = (labels, ag1)" and "ag_sm ag = s3" and "hostConfigMap s' = hostConfigMap (ag_sm ag1)"
  shows "host_ready E s' h"
proof -
  have "\<exists>c. hostConfigMap (ag_sm ag1) h = Some c \<and> isPreparingDisk c = isPreparingDisk hc \<and>
    havePendingOSDDevs c = havePendingOSDDevs hc \<and> havePendingJNLDevs c = havePendingJNLDevs hc"
    using assms(1,5,6) by (auto simp: addHostConfig_def getConfig_def setConfig_def popOSDPartition_def
        popJournalPartition_def isPreparingDisk_def havePendingOSDDevs_def havePendingJNLDevs_def Let_def
        split: if_splits prod.splits)
  with assms(2-4,7) show ?thesis by (auto simp: host_ready_def)
qed

text \<open>The requests left once an offer is used: in the request phase an instance is taken.\<close>

definition taken :: "agent \<Rightarrow> int list \<Rightarrow> bool" where
  "taken ag reqs \<longleftrightarrow>
     (if currentPhase (ag_sm ag) = WAINTING_REQUEST then fetchPendingRESTfulRequest (ag_pendingOSD ag) = (True, reqs)
      else reqs = ag_pendingOSD ag)"

text \<open>What one usable offer brings when no task waits for an id.\<close>

lemma usable_accepted:
  assumes u: "usable E ag offer" and nowait: "getWaitingOSDTask (ae_iter E) (ag_sm ag) = []"
    and rq: "taken ag reqs" and ml: "may_launch ty (ag_sm ag)"
  obtains s3 hc loc' ag' where "resourceOffers E MON 0 [(offer, 0)] ag = Inr ag'"
    and "accept_offer E offer 0 (ty, indexNum ty (ag_sm ag), 0) (ag\<lparr>ag_sm := s3, ag_pendingOSD := reqs\<rparr>) = Inr (loc', ag')"
    and "same_tasks (ag_sm ag) s3" and "hostConfigMap s3 (o_hostname offer) = Some hc"
    and "\<not> isPreparingDisk hc" "\<not> havePendingOSDDevs hc" "\<not> havePendingJNLDevs hc"
proof -
  let ?h = "o_hostname offer"
  from u have role: "hasRole offer (cfg_role (ag_config ag))" and enough: "offerNotEnoughResources E ag offer OSD = Inr False"
    and hr: "host_ready E (ag_sm ag) ?h" by (simp_all add: usable_def)
  obtain ip where ip: "getFileServerIP E = Inr ip" using u by (auto simp: usable_def)
  obtain sm where ac: "addConfig (ae_config E) ?h (ag_sm ag) = Inr sm"
    and hc: "\<not> isPreparingDisk (getConfig sm ?h)" "\<not> havePendingOSDDevs (getConfig sm ?h)"
      "\<not> havePendingJNLDevs (getConfig sm ?h)" "?h \<in> dom (hostConfigMap sm)"
    using hr by (rule host_ready_addConfig)
  let ?ag1 = "ag\<lparr>ag_sm := sm\<rparr>"
  have td: "tryLaunchDiskTask E 0 offer ?h ?ag1 = Inr ?ag1" using hc by (simp add: tryLaunchDiskTask_def)
  have st: "same_tasks (ag_sm ag) sm" and si: "same_index (ag_sm ag) sm"
    using same_tasks_addConfig [OF ac] same_index_addConfig [OF ac] by simp_all
  have mls: "may_launch ty sm" using ml may_launch_same_tasks [OF st] by simp
  obtain s3 where nm: "nextMove MON 0 ?h sm = (True, ty, indexNum ty sm, s3)"
    and hcm: "hostConfigMap s3 = hostConfigMap sm"
    using mls hc(1) by (cases ty) (auto simp: nextMove_def)
  let ?ag3 = "ag\<lparr>ag_sm := s3\<rparr>" and ?ag4 = "ag\<lparr>ag_sm := s3, ag_pendingOSD := reqs\<rparr>"
  have ne: "offerNotEnoughResources E ?ag3 offer ty = Inr False"
    using offerNotEnoughResources_cong [of ?ag3 ag E offer ty OSD] enough by simp
  have idx: "indexNum ty sm = indexNum ty (ag_sm ag)" using si by (simp add: same_index_def)
  obtain loc' ag' where acc: "accept_offer E offer 0 (ty, indexNum ty (ag_sm ag), 0) ?ag4 = Inr (loc', ag')"
    by (cases "addHostConfig ty ?h ?ag4") (auto simp: accept_offer_def launchNode_def createExecutor_def ip Let_def)
  have "offer_step E (currentPhase (ag_sm ag)) (offer, 0) ((MON, 0, 0), ag) = Inr (loc', ag')"
    using role ac td nm ne rq acc idx by (auto simp: offer_step_def offer_decide_def taken_def)
  then have ro: "resourceOffers E MON 0 [(offer, 0)] ag = Inr ag'"
    using nowait by (simp add: resourceOffers_def handleWaitingOSDTasks_def getCurrentPhase_def)
  obtain c where "hostConfigMap s3 ?h = Some c" "getConfig sm ?h = c" using hc(4) hcm by (auto simp: getConfig_def)
  then show thesis
    using that [OF ro acc same_tasks_trans [OF st same_tasks_nextMove [OF nm]]] hc by simp
qed

lemma launch_ready:
  assumes E: "env_ok E" and r: "ready E offer ag" and nowait: "getWaitingOSDTask (ae_iter E) (ag_sm ag) = []"
    and rq: "taken ag reqs" and ml: "may_launch ty (ag_sm ag)" and k: "k = indexNum ty (ag_sm ag)"
  obtains ag' executor labels cs where "resourceOffers E MON 0 [(offer, 0)] ag = Inr ag'"
    and "ready E offer ag'" and "\<And>ty'. live ty' (ag_sm ag') = live ty' (ag_sm ag) + (if ty' = ty then 1 else 0)"
    and "work (ag_sm ag') = work (ag_sm ag) + 3" and "ag_pendingOSD ag' = reqs"
    and "taskMap (ag_sm ag') = map_put (task_id_of E ty k offer)
      (TaskState_new (task_id_of E ty k offer) (executor_id_of E ty k 0) ty (o_hostname offer) (o_slave_id offer) STAGING)
      (taskMap (ag_sm ag))"
    and "ag_driver ag' = ag_driver ag @ LaunchTasks (o_id offer) [node_task E offer ty k (if ty = MON \<and> k = 0 then 1 else 0)
      (cfg_role (ag_config ag)) executor labels] # cs"
    and "labels \<noteq> []" and "node_executor (executor_id_of E ty k 0) executor"
    and "ty = OSD \<Longrightarrow> last (ag_driver ag') = SendFrameworkMessage (executorId (initialMon E ag')) (slaveId (initialMon E ag'))
      (lc_str (ae_lc E) (toExecutor_int REGISTER_OSD))"
proof -
  have u: "usable E ag offer" and inv: "core_inv E (ag_sm ag)" "\<not> osd_stuck (ag_sm ag)"
    using r by (simp_all add: ready_def agent_inv_def)
  obtain s3 hc loc' ag' where ro: "resourceOffers E MON 0 [(offer, 0)] ag = Inr ag'"
    and acc: "accept_offer E offer 0 (ty, k, 0) (ag\<lparr>ag_sm := s3, ag_pendingOSD := reqs\<rparr>) = Inr (loc', ag')"
    and st3: "same_tasks (ag_sm ag) s3" and hc: "hostConfigMap s3 (o_hostname offer) = Some hc"
      "\<not> isPreparingDisk hc" "\<not> havePendingOSDDevs hc" "\<not> havePendingJNLDevs hc"
    using usable_accepted [OF u nowait rq ml] unfolding k by metis
  from acc show thesis
  proof (cases rule: accept_offer_effect)
    case (1 ini' eid ag1 executor labels cs)
    let ?tid = "task_id_of E ty k offer"
    have st: "same_tasks (ag_sm ag) (ag_sm ag1)"
      using same_tasks_trans [OF st3] 1(3) by (simp add: same_core_def)
    have fresh: "map_of (taskMap (ag_sm ag1)) ?tid = None"
      using fresh_task_id [OF E] inv(1) st unfolding k by (simp add: core_inv_def same_tasks_def)
    have live: "live ty' (ag_sm ag') = live ty' (ag_sm ag) + (if ty' = ty then 1 else 0)"
      and leaked: "leaked (ag_sm ag') = leaked (ag_sm ag)" for ty'
      unfolding 1(4) using live_leaked_staging [OF fresh] live_leaked_same_tasks [OF st] by simp_all
    have hr: "host_ready E (ag_sm ag') (o_hostname offer)"
      by (rule host_ready_launched [OF hc 1(11)]) (simp_all add: 1(4))
    have "usable E ag' offer" using usable_same [OF u _ hr] 1(5) by simp
    moreover have "agent_inv E ag'" using agent_inv_resourceOffers [OF E _ ro] r by (simp add: ready_def)
    moreover have "\<not> osd_stuck (ag_sm ag')" using inv(2) live [of OSD] leaked by (auto simp: osd_stuck_def)
    ultimately have ready: "ready E offer ag'" by (simp add: ready_def)
    have wrk: "work (ag_sm ag') = work (ag_sm ag) + 3"
      unfolding 1(4) work_def addStagingTask_frame count_vals_put_new [OF fresh] using same_tasksD(1) [OF st] by simp
    have lab: "labels \<noteq> []" using 1(11) by (auto simp: addHostConfig_def Let_def split: if_splits prod.splits)
    have reg: "last (ag_driver ag') = SendFrameworkMessage (executorId (initialMon E ag')) (slaveId (initialMon E ag'))
        (lc_str (ae_lc E) (toExecutor_int REGISTER_OSD))" if osd: "ty = OSD"
    proof -
      obtain cs' where "ag_driver ag' = cs' @ [SendFrameworkMessage (executorId (initialMon E ag'))
          (slaveId (initialMon E ag')) (lc_str (ae_lc E) (toExecutor_int REGISTER_OSD))]"
        using accept_offer_register [OF acc [unfolded osd]] by blast
      then show ?thesis by simp
    qed
    show thesis
      by (rule that [OF ro ready live wrk _ _ _ lab _ reg]) (use 1 same_tasksD(1) [OF st] in simp_all)
  qed
qed

text \<open>With no task on its way, the phase names the type of task that may be launched.\<close>

lemma idle_may_launch:
  assumes "core_inv E s" and "\<not> osd_stuck s" and ph: "currentPhase s \<noteq> WAINTING_REQUEST"
    and idle: "\<And>ty. nPend ty s = 0"
  shows "\<exists>ty. may_launch ty s \<and> live ty s < (if ty = OSD then 3 else 1)"
proof -
  have c: "runningNum ty s = nRun ty s" "ty \<noteq> OSD \<Longrightarrow> stagingNum ty s = 0" "currentPhase s = phase_of s" for ty
    using assms(1) idle [of ty] by (auto simp: core_inv_def sm_inv_def counters_ok_def)
  have "counters_ok OSD s" using assms(1) by (simp add: core_inv_def sm_inv_def)
  then have osd: "stagingNum OSD s = 0" if "nRun OSD s < 3"
    using assms(2) that idle [of OSD] by (auto simp: osd_stuck_def leaked_def live_def counters_ok_def)
  consider "nRun MON s < 1" | "1 \<le> nRun MON s" "nRun OSD s < 3"
    | "1 \<le> nRun MON s" "3 \<le> nRun OSD s" "nRun RADOSGW s < 1"
    using ph c(1) [of MON] c(1) [of OSD] c(1) [of RADOSGW] c(3) by (fastforce simp: phase_of_def)
  then show ?thesis
  proof cases
    case 1
    then show ?thesis
      using c(1) [of MON] c(2) [of MON] c(3) idle [of MON]
      by (intro exI [of _ MON]) (simp add: phase_of_def live_def)
  next
    case 2
    then show ?thesis
      using c(1) [of MON] c(1) [of OSD] osd c(3) idle [of OSD]
      by (intro exI [of _ OSD]) (simp add: phase_of_def live_def)
  next
    case 3
    then show ?thesis
      using c(1) [of MON] c(1) [of OSD] c(1) [of RADOSGW] c(2) [of RADOSGW] c(3) idle [of RADOSGW]
      by (intro exI [of _ RADOSGW]) (simp add: phase_of_def live_def)
  qed
qed

lemma idle_no_waiting:
  assumes "env_ok E" and "nPend OSD s = 0"
  shows "getWaitingOSDTask (ae_iter E) s = []"
  using assms iter_set [OF assms(1), of "taskMap s"]
  by (auto simp: getWaitingOSDTask_def filter_empty_conv n_defs count_vals_0_iff is_pending_def)

lemma taken_bootstrap: "currentPhase (ag_sm ag) \<noteq> WAINTING_REQUEST \<Longrightarrow> taken ag (ag_pendingOSD ag)"
  by (simp add: taken_def)

lemma missing_launched:
  assumes "\<And>ty'. live ty' s' = live ty' s + (if ty' = ty then 1 else 0)" and "live ty s < (if ty = OSD then 3 else 1)"
  shows "missing s' = missing s - 1"
  using assms(2) by (cases ty) (simp_all add: missing_def assms(1))

lemma advance_launch:
  assumes E: "env_ok E" and r: "ready E offer ag" and ph: "currentPhase (ag_sm ag) \<noteq> WAINTING_REQUEST"
    and idle: "\<And>ty. nPend ty (ag_sm ag) = 0"
  shows "\<exists>ag'. agent_step E J ag ag' \<and> ready E offer ag' \<and> remaining (ag_sm ag') < remaining (ag_sm ag)"
proof -
  have inv: "core_inv E (ag_sm ag)" "\<not> osd_stuck (ag_sm ag)" using r by (simp_all add: ready_def agent_inv_def)
  obtain ty where ty: "may_launch ty (ag_sm ag)" "live ty (ag_sm ag) < (if ty = OSD then 3 else 1)"
    using idle_may_launch [OF inv ph idle] by blast
  obtain ag' where ag': "resourceOffers E MON 0 [(offer, 0)] ag = Inr ag'" "ready E offer ag'"
    "\<And>ty'. live ty' (ag_sm ag') = live ty' (ag_sm ag) + (if ty' = ty then 1 else 0)" "work (ag_sm ag') = work (ag_sm ag) + 3"
    using launch_ready [OF E r idle_no_waiting [OF E idle] taken_bootstrap [OF ph] ty(1) refl] by metis
  from missing_launched [OF this(3) ty(2)] this(4) have "remaining (ag_sm ag') < remaining (ag_sm ag)"
    using missing_work_nonneg [of "ag_sm ag"] missing_work_nonneg [of "ag_sm ag'"] by (simp add: remaining_def)
  with agent_step.offers [OF ag'(1)] ag'(2) show ?thesis by blast
qed

subsection \<open>The whole bootstrap\<close>

lemma ready_advance:
  assumes E: "env_ok E" and r: "ready E offer ag" and ph: "currentPhase (ag_sm ag) \<noteq> WAINTING_REQUEST"
  shows "\<exists>ag'. (agent_step E J)\<^sup>*\<^sup>* ag ag' \<and> ready E offer ag' \<and> remaining (ag_sm ag') < remaining (ag_sm ag)"
proof (cases "\<forall>ty. nPend ty (ag_sm ag) = 0")
  case True
  then show ?thesis using advance_launch [OF E r ph] by blast
next
  case False
  then obtain ty where "nPend ty (ag_sm ag) \<noteq> 0" by blast
  then obtain tid t where "(tid, t) \<in> set (taskMap (ag_sm ag))" and p: "is_pending (currentStatus t)"
    by (auto simp: n_defs count_vals_0_iff)
  then have t: "map_of (taskMap (ag_sm ag)) tid = Some t" and ok: "task_ok t"
    using r by (auto simp: ready_def agent_inv_def core_inv_def sm_inv_def)
  from p consider (run) "expected t RUNNING" "currentStatus t \<noteq> RUNNING"
    | (wait) "expected t WAITING_OSDID" "currentStatus t \<noteq> WAITING_OSDID"
    | (start) "taskType t = OSD" "currentStatus t = WAITING_OSDID"
    using ok by (cases "taskType t"; cases "currentStatus t") (auto simp: is_pending_def task_ok_def)
  then show ?thesis
  proof cases
    case run
    then show ?thesis using advance_status [OF r t, of RUNNING TASK_RUNNING] by blast
  next
    case wait
    then show ?thesis using advance_status [OF r t, of WAITING_OSDID TASK_STARTING] by blast
  next
    case start
    then show ?thesis using advance_waiting [OF E r t] by blast
  qed
qed

lemma ready_completes:
  assumes "env_ok E" and "ready E offer ag"
  shows "\<exists>ag'. (agent_step E J)\<^sup>*\<^sup>* ag ag' \<and> currentPhase (ag_sm ag') = WAINTING_REQUEST"
  using assms(2)
proof (induction "remaining (ag_sm ag)" arbitrary: ag rule: less_induct)
  case less
  show ?case
  proof (cases "currentPhase (ag_sm ag) = WAINTING_REQUEST")
    case False
    obtain ag1 where r: "(agent_step E J)\<^sup>*\<^sup>* ag ag1" "ready E offer ag1" "remaining (ag_sm ag1) < remaining (ag_sm ag)"
      using ready_advance [OF assms(1) less(2) False] by blast
    then show ?thesis using less(1) [OF r(3,2)] rtranclp_trans [OF r(1)] by blast
  qed blast
qed

end
