(* ===== verification/Demo_Cluster.thy ===== *)
theory Demo_Cluster
  imports Bootstrap_Progress
begin

text \<open>
  A concrete environment and configuration on which the results about the scheduler are
  applied: plain decimal conversions, an empty configuration file, offers that carry exactly
  what a task needs.
\<close>

definition demo_yaml :: "unit yaml_lib" where
  "demo_yaml = \<lparr>y_load = (\<lambda>s. Some ()), y_index = (\<lambda>n k. Inr None), y_string = (\<lambda>n. None),
     y_int = (\<lambda>n. None), y_strings = (\<lambda>n. None)\<rparr>"

definition demo_config_env :: "unit config_env" where
  "demo_config_env = \<lparr>ce_flags = default_flags, ce_yaml = demo_yaml,
     ce_file = (\<lambda>f. if f = ''/etc/cephmesos/cephmesos.yml'' then Some [] else None)\<rparr>"

definition demo_config :: Config where
  "demo_config = \<lparr>cfg_id = ''myceph'', cfg_role = ''ceph'', cfg_master = ''m:5050'', cfg_zookeeper = ''zk'',
     cfg_restport = 8889, cfg_fileport = 8888, cfg_fileroot = ''./'', cfg_mgmtdev = ''10.0.0.0/24'',
     cfg_datadev = ''10.0.1.0/24'', cfg_osddevs = [], cfg_jnldevs = [], cfg_jnlparts = 4\<rparr>"

definition demo_res :: resources_lib where
  "demo_res = \<lparr>res_stringify = show_int, res_parse = (\<lambda>text role. Inr (launch_resources role 1024)),
     res_flatten = (\<lambda>rs role. Inr rs),
     res_contains = (\<lambda>have need. length need \<le> length have)\<rparr>"

definition demo_env :: "unit agent_env" where
  "demo_env = \<lparr>ae_config = demo_config_env, ae_lc = dec_lexcast, ae_iter = (\<lambda>m. m),
     ae_indet_type = MON, ae_indet_status = STAGING,
     ae_net = \<lparr>net_gethostname = (0, ''master''), net_gethostbyname = (\<lambda>h. Some ''10.0.0.1'')\<rparr>,
     ae_res = demo_res\<rparr>"

definition demo_offer :: "string \<Rightarrow> string \<Rightarrow> Offer" where
  "demo_offer i host = \<lparr>o_id = i, o_hostname = host, o_slave_id = ''S1'', o_resources = launch_resources ''ceph'' 1024\<rparr>"

text \<open>An offer of the right role that lacks memory.\<close>

definition poor_offer :: Offer where
  "poor_offer = \<lparr>o_id = ''o0'', o_hostname = ''host0'', o_slave_id = ''S0'',
     o_resources = [\<lparr>r_name = ''cpus'', r_role = ''ceph'', r_scalar = 1\<rparr>]\<rparr>"

definition demo_start :: agent where
  "demo_start = CephSchedulerAgent_new 4 demo_config"

definition demo_status :: "string \<Rightarrow> task_state \<Rightarrow> TaskStatus" where
  "demo_status tid st = \<lparr>st_task_id = tid, st_state = st, st_message = None\<rparr>"

lemma demo_env_ok [simp]: "env_ok demo_env"
  by (simp add: env_ok_def demo_env_def dec_lexcast_ok map_order_ok_def)

lemma demo_lexcast_ok [simp]: "lexcast_ok (ae_lc demo_env)"
  by (simp add: demo_env_def dec_lexcast_ok)

lemmas demo_defs =
  demo_env_def demo_config_env_def demo_config_def demo_res_def demo_yaml_def demo_offer_def
  poor_offer_def demo_status_def

lemmas agent_eval =
  resourceOffers_def handleWaitingOSDTasks_def getWaitingOSDTask_def offer_step_def offer_decide_def
  accept_offer_def launchNode_def createExecutor_def addHostConfig_def tryLaunchDiskTask_def
  nextMove_def addConfig_def offerNotEnoughResources_def hasRole_def launch_resources_def
  getFileServerIP_def getLocalIP_def CephSchedulerAgent_new_def StateMachine_new_def
  getCurrentPhase_def callDriver_def onSM_def addStagingTask_def getConfig_def setConfig_def
  isPreparingDisk_def havePendingOSDDevs_def havePendingJNLDevs_def node_task_def createTaskName_def
  popOSDPartition_def popJournalPartition_def updateCounters_def moveState_def
  updateTaskToRunning_def updateTaskToFailed_def updateTaskToWaitingOSDID_def TaskState_new_def
  initialMon_def getInitialMon_def statusUpdate_def c_str_def NUL_def dec_lexcast_def Let_def

lemmas config_eval =
  HostConfig_by_hostname_def get_config_by_hostname_def get_file_contents_def
  parse_config_string_def yaml_get_def merge_config_def HostConfig_by_config_def default_flags_def
  is_host_config_def hostConfigFolder_def get_config_path_by_hostname_def find_last_of_def

section \<open>A run\<close>

text \<open>The host's configuration: it has no file of its own.\<close>

definition demo_hc :: HostConfig where
  "demo_hc = projr (HostConfig_by_hostname demo_config_env ''h1'')"

lemma demo_hc_read: "HostConfig_by_hostname demo_config_env ''h1'' = Inr demo_hc"
  by (simp add: demo_hc_def config_eval demo_defs Let_def c_str_def NUL_def)

lemma demo_hc_sel [simp]:
  "isPreparingDiskFlag demo_hc = False" "hc_pendingOSDDevs demo_hc = []" "hc_pendingJNLDevs demo_hc = []"
  "osdPartitions demo_hc = []" "jnlPartitions demo_hc = []"
  by (simp_all add: demo_hc_def config_eval demo_defs Let_def c_str_def NUL_def)

definition demo_ag :: "StateMachine \<Rightarrow> driver_call list \<Rightarrow> agent" where
  "demo_ag s ds = \<lparr>ag_config = demo_config, ag_sm = s, ag_pendingOSD = [], ag_driver = ds\<rparr>"

definition demo_task :: "string \<Rightarrow> string \<Rightarrow> TaskType \<Rightarrow> Status \<Rightarrow> string \<times> TaskState" where
  "demo_task tid eid ty st = (tid, TaskState_new tid eid ty ''h1'' ''S1'' st)"

text \<open>The initial MON staged; then running, with three OSDs in the given states.\<close>

definition demo_sm_mon :: StateMachine where
  "demo_sm_mon = (StateMachine_new 4 demo_config)\<lparr>
     taskMap := [demo_task ''mon0.h1.S1'' ''ceph-mesos-executor.0.0.1'' MON STAGING],
     hostConfigMap := [''h1'' \<mapsto> demo_hc], monStagingNum := 1, monIndex := 1\<rparr>"

definition demo_sm_up :: StateMachine where
  "demo_sm_up = (StateMachine_new 4 demo_config)\<lparr>
     taskMap := [demo_task ''mon0.h1.S1'' ''ceph-mesos-executor.0.0.1'' MON RUNNING],
     hostConfigMap := [''h1'' \<mapsto> demo_hc], currentPhase := BOOTSTRAP_OSD, monRunningNum := 1, monIndex := 1\<rparr>"

definition demo_sm_osds :: "Status \<Rightarrow> Status \<Rightarrow> Status \<Rightarrow> StateMachine" where
  "demo_sm_osds a b c = (StateMachine_new 4 demo_config)\<lparr>
     taskMap := [demo_task ''mon0.h1.S1'' ''ceph-mesos-executor.0.0.1'' MON RUNNING,
                 demo_task ''osd0.h1.S1'' ''ceph-mesos-executor.1.0.1'' OSD a,
                 demo_task ''osd1.h1.S1'' ''ceph-mesos-executor.1.1.1'' OSD b,
                 demo_task ''osd2.h1.S1'' ''ceph-mesos-executor.1.2.1'' OSD c],
     hostConfigMap := [''h1'' \<mapsto> demo_hc], currentPhase := BOOTSTRAP_OSD,
     monRunningNum := 1, monIndex := 1, osdStagingNum := 3, osdIndex := 3\<rparr>"

lemmas demo_states = demo_ag_def demo_task_def demo_sm_mon_def demo_sm_up_def demo_sm_osds_def demo_start_def

definition demo_osd_offers :: "(Offer \<times> int) list" where
  "demo_osd_offers = [(demo_offer ''o2'' ''h1'', 1), (demo_offer ''o3'' ''h1'', 1), (demo_offer ''o4'' ''h1'', 1)]"

lemma demo_run_mon:
  "\<exists>ds. resourceOffers demo_env OSD 7 [(demo_offer ''o1'' ''h1'', 1)] demo_start = Inr (demo_ag demo_sm_mon ds)"
  using demo_hc_read by (simp add: demo_states agent_eval demo_defs)

lemma demo_run_up:
  "statusUpdate demo_env (demo_status ''mon0.h1.S1'' TASK_RUNNING) (demo_ag demo_sm_mon ds) = Inr (demo_ag demo_sm_up ds)"
  by (simp add: demo_states agent_eval demo_defs)

lemma demo_run_osds:
  "\<exists>ds'. resourceOffers demo_env MON 0 demo_osd_offers (demo_ag demo_sm_up ds) =
     Inr (demo_ag (demo_sm_osds STAGING STAGING STAGING) ds')"
  by (simp add: demo_osd_offers_def demo_states agent_eval demo_defs)

text \<open>The three OSDs report that they wait for an id, then fail, one after the other.\<close>

lemma demo_run_waiting:
  "statusUpdate demo_env (demo_status ''osd0.h1.S1'' TASK_STARTING) (demo_ag (demo_sm_osds STAGING b c) ds) =
     Inr (demo_ag (demo_sm_osds WAITING_OSDID b c) ds)"
  "statusUpdate demo_env (demo_status ''osd1.h1.S1'' TASK_STARTING) (demo_ag (demo_sm_osds a STAGING c) ds) =
     Inr (demo_ag (demo_sm_osds a WAITING_OSDID c) ds)"
  "statusUpdate demo_env (demo_status ''osd2.h1.S1'' TASK_STARTING) (demo_ag (demo_sm_osds a b STAGING) ds) =
     Inr (demo_ag (demo_sm_osds a b WAITING_OSDID) ds)"
  by (simp_all add: demo_states agent_eval demo_defs)

lemma demo_run_failed:
  "statusUpdate demo_env (demo_status ''osd0.h1.S1'' TASK_FAILED) (demo_ag (demo_sm_osds WAITING_OSDID b c) ds) =
     Inr (demo_ag (demo_sm_osds FAILED b c) ds)"
  "statusUpdate demo_env (demo_status ''osd1.h1.S1'' TASK_FAILED) (demo_ag (demo_sm_osds a WAITING_OSDID c) ds) =
     Inr (demo_ag (demo_sm_osds a FAILED c) ds)"
  "statusUpdate demo_env (demo_status ''osd2.h1.S1'' TASK_FAILED) (demo_ag (demo_sm_osds a b WAITING_OSDID) ds) =
     Inr (demo_ag (demo_sm_osds a b FAILED) ds)"
  by (simp_all add: demo_states agent_eval demo_defs)

lemma demo_legal:
  "status_legal demo_sm_mon (demo_status ''mon0.h1.S1'' TASK_RUNNING)"
  "status_legal (demo_sm_osds STAGING b c) (demo_status ''osd0.h1.S1'' TASK_STARTING)"
  "status_legal (demo_sm_osds a STAGING c) (demo_status ''osd1.h1.S1'' TASK_STARTING)"
  "status_legal (demo_sm_osds a b STAGING) (demo_status ''osd2.h1.S1'' TASK_STARTING)"
  "status_legal s (demo_status tid TASK_FAILED)"
  by (simp_all add: status_legal_def demo_states TaskState_new_def demo_status_def split: option.splits)

lemma demo_ag_sm [simp]: "ag_sm (demo_ag s ds) = s"
  by (simp add: demo_ag_def)

lemma reach_status:
  assumes "reach init (agent_step E J) ag" and "statusUpdate E st ag = Inr ag'" and "status_legal (ag_sm ag) st"
  shows "reach init (agent_step E J) ag'"
  using assms(1) agent_step.status [OF assms(2,3)] by (rule reach_step)

lemma demo_reach_mon: "\<exists>ds. reach agent_init (agent_step demo_env J) (demo_ag demo_sm_mon ds)"
proof -
  have "agent_init demo_start" unfolding agent_init_def demo_start_def by blast
  then have r0: "reach agent_init (agent_step demo_env J) demo_start" by (rule reach_init)
  obtain ds where "resourceOffers demo_env OSD 7 [(demo_offer ''o1'' ''h1'', 1)] demo_start = Inr (demo_ag demo_sm_mon ds)"
    using demo_run_mon by blast
  with r0 show ?thesis by (blast intro: reach_step agent_step.offers)
qed

lemma demo_reach_up: "\<exists>ds. reach agent_init (agent_step demo_env J) (demo_ag demo_sm_up ds)"
proof -
  obtain ds where "reach agent_init (agent_step demo_env J) (demo_ag demo_sm_mon ds)"
    using demo_reach_mon by blast
  then have "reach agent_init (agent_step demo_env J) (demo_ag demo_sm_up ds)"
    by (rule reach_status [OF _ demo_run_up]) (simp add: demo_legal)
  then show ?thesis ..
qed

lemma demo_reach_osds:
  "\<exists>ds. reach agent_init (agent_step demo_env J) (demo_ag (demo_sm_osds STAGING STAGING STAGING) ds)"
  using demo_reach_up [of J] demo_run_osds by (blast intro: reach_step agent_step.offers)

text \<open>One OSD waits for its id.\<close>

lemma demo_reach_waiting:
  "\<exists>ds. reach agent_init (agent_step demo_env J) (demo_ag (demo_sm_osds WAITING_OSDID STAGING STAGING) ds)"
proof -
  obtain ds where "reach agent_init (agent_step demo_env J) (demo_ag (demo_sm_osds STAGING STAGING STAGING) ds)"
    using demo_reach_osds by blast
  then have "reach agent_init (agent_step demo_env J) (demo_ag (demo_sm_osds WAITING_OSDID STAGING STAGING) ds)"
    by (rule reach_status [OF _ demo_run_waiting(1)]) (simp add: demo_legal)
  then show ?thesis ..
qed

lemma demo_osds_count:
  "nPend OSD (demo_sm_osds WAITING_OSDID STAGING STAGING) = 3" "nRun OSD (demo_sm_osds WAITING_OSDID STAGING STAGING) = 0"
  by (simp_all add: n_defs demo_states TaskState_new_def is_pending_def StateMachine_new_def)

lemma demo_usable: "usable demo_env demo_start (demo_offer ''o1'' ''h1'')"
  using demo_hc_read by (simp add: usable_def host_ready_def demo_start_def agent_eval demo_defs)

text \<open>An offer that is too small, made first.\<close>

lemma demo_poor:
  "ag_config ag = demo_config \<Longrightarrow> offerNotEnoughResources demo_env ag poor_offer ty = Inr True"
  by (simp add: offerNotEnoughResources_def demo_defs launch_resources_def Let_def)

end
