(* ===== verification/Scheduler_Results.thy ===== *)
theory Scheduler_Results
  imports Demo_Cluster
begin

text \<open>The results about the scheduler, each applied to the run of \<open>Demo_Cluster\<close>.\<close>

section \<open>Reachable states\<close>

abbreviation demo_reach :: "agent \<Rightarrow> bool" where
  "demo_reach \<equiv> reach agent_init (agent_step demo_env demo_json)"

lemma reach_agent_inv:
  "env_ok E \<Longrightarrow> reach agent_init (agent_step E J) ag \<Longrightarrow> agent_inv E ag"
  using scheduler.inv_reach by blast

text \<open>
  C2: In every reachable state of the scheduler the counters describe the task table: the
  running counter of every type is the number of its running tasks, the staging counter covers
  the tasks on their way (exactly, for MON and RADOSGW), the phase is the one that the running
  counters call for, and no task id occurs twice.
\<close>

theorem scheduler_counters_sound:
  assumes "env_ok E" and "reach agent_init (agent_step E J) ag"
  shows "runningNum ty (ag_sm ag) = nRun ty (ag_sm ag) \<and>
    nPend ty (ag_sm ag) \<le> stagingNum ty (ag_sm ag) \<and>
    (ty = OSD \<or> stagingNum ty (ag_sm ag) = nPend ty (ag_sm ag)) \<and>
    currentPhase (ag_sm ag) = phase_of (ag_sm ag) \<and>
    distinct (map fst (taskMap (ag_sm ag)))"
  using reach_agent_inv [OF assms] by (auto simp: agent_inv_def core_inv_def sm_inv_def counters_ok_def)

theorem scheduler_counters_sound_witness:
  "\<exists>ds. demo_reach (demo_ag (demo_sm_osds STAGING STAGING STAGING) ds) \<and>
     nPend OSD (demo_sm_osds STAGING STAGING STAGING) \<le> 3"
proof -
  obtain ds where r: "demo_reach (demo_ag (demo_sm_osds STAGING STAGING STAGING) ds)"
    using demo_reach_osds by blast
  have "stagingNum OSD (demo_sm_osds STAGING STAGING STAGING) = 3" by (simp add: demo_states)
  with scheduler_counters_sound [OF demo_env_ok r, of OSD] r show ?thesis by auto
qed

text \<open>
  C9: In every reachable state at most one MON and at most one RADOSGW is on its way or
  running.
\<close>

theorem scheduler_single_mon_rgw:
  assumes "env_ok E" and "reach agent_init (agent_step E J) ag" and "ty = MON \<or> ty = RADOSGW"
  shows "nPend ty (ag_sm ag) + nRun ty (ag_sm ag) \<le> 1"
proof -
  have inv: "counters_ok ty (ag_sm ag)" "single_ok (ag_sm ag)"
    using reach_agent_inv [OF assms(1,2)] by (simp_all add: agent_inv_def core_inv_def sm_inv_def)
  have "stagingNum ty (ag_sm ag) = nPend ty (ag_sm ag)" "runningNum ty (ag_sm ag) = nRun ty (ag_sm ag)"
    using inv(1) assms(3) by (auto simp: counters_ok_def)
  moreover have "stagingNum ty (ag_sm ag) + runningNum ty (ag_sm ag) \<le> 1"
    using inv(2) assms(3) unfolding single_ok_def by blast
  ultimately show ?thesis by simp
qed

theorem scheduler_single_mon_rgw_witness:
  "\<exists>ds. demo_reach (demo_ag demo_sm_mon ds) \<and> nPend MON demo_sm_mon + nRun MON demo_sm_mon \<le> 1"
proof -
  obtain ds where r: "demo_reach (demo_ag demo_sm_mon ds)" using demo_reach_mon by blast
  show ?thesis using scheduler_single_mon_rgw [OF demo_env_ok r, of MON] r by auto
qed

text \<open>
  C15: No step of the scheduler overwrites or drops an entry of the task table: along every run
  an entry keeps its id, executor, type, host and slave; only its status changes.
\<close>

theorem scheduler_tasks_kept:
  assumes "env_ok E" and "reach agent_init (agent_step E J) ag" and "(agent_step E J)\<^sup>*\<^sup>* ag ag'"
    and "map_of (taskMap (ag_sm ag)) tid = Some t"
  shows "\<exists>st. map_of (taskMap (ag_sm ag')) tid = Some (t\<lparr>currentStatus := st\<rparr>)"
  using agent_run_kept [OF assms(1,3) reach_agent_inv [OF assms(1,2)]] assms(4) by (simp add: tasks_kept_def)

theorem scheduler_tasks_kept_witness:
  "\<exists>ds st. demo_reach (demo_ag demo_sm_mon ds) \<and>
     map_of (taskMap demo_sm_up) ''mon0.h1.S1'' =
       Some ((TaskState_new ''mon0.h1.S1'' ''ceph-mesos-executor.0.0.1'' MON ''h1'' ''S1'' STAGING)\<lparr>currentStatus := st\<rparr>)"
proof -
  obtain ds where r: "demo_reach (demo_ag demo_sm_mon ds)" using demo_reach_mon by blast
  have "agent_step demo_env demo_json (demo_ag demo_sm_mon ds) (demo_ag demo_sm_up ds)"
    by (rule agent_step.status [OF demo_run_up]) (simp add: demo_legal)
  then have "(agent_step demo_env demo_json)\<^sup>*\<^sup>* (demo_ag demo_sm_mon ds) (demo_ag demo_sm_up ds)" by simp
  from scheduler_tasks_kept [OF demo_env_ok r this, of "''mon0.h1.S1''"] r show ?thesis
    by (auto simp: demo_sm_mon_def demo_task_def)
qed

text \<open>
  The phase of the scheduler falls only when a running task has failed.
\<close>

lemma scheduler_phase_falls:
  assumes "env_ok E" and "reach agent_init (agent_step E J) ag" and "agent_step E J ag ag'"
    and "currentPhase (ag_sm ag') < currentPhase (ag_sm ag)"
  shows "\<exists>tid t. map_of (taskMap (ag_sm ag)) tid = Some t \<and> currentStatus t = RUNNING \<and>
    map_of (taskMap (ag_sm ag')) tid = Some (t\<lparr>currentStatus := FAILED\<rparr>)"
  using agent_step_phase [OF reach_agent_inv [OF assms(1,2)] assms(3,4)] .

section \<open>One batch of offers\<close>

text \<open>
  C18: Outside the request phase one call of \<open>resourceOffers\<close>, however many offers it brings,
  does not raise the number of OSDs staged or running above three.
\<close>

theorem offers_bootstrap_osds:
  assumes "resourceOffers E ty0 tok0 offers ag = Inr ag'" and "currentPhase (ag_sm ag) \<noteq> WAINTING_REQUEST"
  shows "osdStagingNum (ag_sm ag') + osdRunningNum (ag_sm ag') \<le>
         max 3 (osdStagingNum (ag_sm ag) + osdRunningNum (ag_sm ag))"
  using offers_bootstrap_bound [OF assms] by (simp add: osd_load_def)

theorem offers_bootstrap_osds_witness:
  "\<exists>ag'. resourceOffers demo_env MON 0 demo_osd_offers (demo_ag demo_sm_up []) = Inr ag' \<and>
     osdStagingNum (ag_sm ag') + osdRunningNum (ag_sm ag') \<le> 3"
proof -
  obtain ds where r: "resourceOffers demo_env MON 0 demo_osd_offers (demo_ag demo_sm_up []) =
      Inr (demo_ag (demo_sm_osds STAGING STAGING STAGING) ds)" using demo_run_osds by blast
  have "currentPhase (ag_sm (demo_ag demo_sm_up [])) \<noteq> WAINTING_REQUEST" by (simp add: demo_states)
  from offers_bootstrap_osds [OF r this] r show ?thesis by (auto simp: demo_sm_up_def StateMachine_new_def)
qed

text \<open>
  C17: In the request phase one call of \<open>resourceOffers\<close> brings exactly as many new OSDs as it
  takes instances from the pending requests, and leaves no request with fewer than one instance.
\<close>

theorem offers_request_osds:
  assumes "resourceOffers E ty0 tok0 offers ag = Inr ag'" and "currentPhase (ag_sm ag) = WAINTING_REQUEST"
    and "\<forall>n \<in> set (ag_pendingOSD ag). 1 \<le> n"
  shows "osdStagingNum (ag_sm ag') + osdRunningNum (ag_sm ag') - (osdStagingNum (ag_sm ag) + osdRunningNum (ag_sm ag))
           = sum_list (ag_pendingOSD ag) - sum_list (ag_pendingOSD ag') \<and>
         (\<forall>n \<in> set (ag_pendingOSD ag'). 1 \<le> n)"
  using offers_request_budget [OF assms] by (simp add: osd_load_def)

definition demo_requests :: agent where
  "demo_requests = (demo_ag ((demo_sm_osds RUNNING RUNNING RUNNING)\<lparr>currentPhase := WAINTING_REQUEST\<rparr>) [])
     \<lparr>ag_pendingOSD := [2]\<rparr>"

lemma demo_requests_run:
  "\<exists>ag'. resourceOffers demo_env MON 0 [(demo_offer ''o2'' ''h1'', 1)] demo_requests = Inr ag' \<and> ag_pendingOSD ag' = [1]"
  by (simp add: demo_requests_def demo_states agent_eval demo_defs fetchPendingRESTfulRequest_def)

theorem offers_request_osds_witness:
  "\<exists>ag'. resourceOffers demo_env MON 0 [(demo_offer ''o2'' ''h1'', 1)] demo_requests = Inr ag' \<and>
     osdStagingNum (ag_sm ag') + osdRunningNum (ag_sm ag') = 4"
proof -
  obtain ag' where r: "resourceOffers demo_env MON 0 [(demo_offer ''o2'' ''h1'', 1)] demo_requests = Inr ag'"
    and p: "ag_pendingOSD ag' = [1]" using demo_requests_run by blast
  have sel: "currentPhase (ag_sm demo_requests) = WAINTING_REQUEST" "ag_pendingOSD demo_requests = [2]"
      "osdStagingNum (ag_sm demo_requests) = 3" "osdRunningNum (ag_sm demo_requests) = 0"
    by (simp_all add: demo_requests_def demo_states StateMachine_new_def)
  then have "\<forall>n \<in> set (ag_pendingOSD demo_requests). 1 \<le> n" by simp
  from offers_request_osds [OF r sel(1) this] r p sel show ?thesis by (intro exI [of _ ag']) simp
qed

text \<open>
  C20: Every offer of a call of \<open>resourceOffers\<close> is answered: some call on the driver
  declines it or launches tasks on it.
\<close>

theorem offers_all_answered:
  assumes "resourceOffers E ty0 tok0 offers ag = Inr ag'" and "(offer, now) \<in> set offers"
  shows "\<exists>calls c. ag_driver ag' = ag_driver ag @ calls \<and> c \<in> set calls \<and> answers (o_id offer) c"
  using offers_answered [OF assms(1)] assms(2) by force

theorem offers_all_answered_witness:
  "\<exists>ag' calls c. resourceOffers demo_env MON 0 demo_osd_offers (demo_ag demo_sm_up []) = Inr ag' \<and>
     ag_driver ag' = calls \<and> c \<in> set calls \<and> answers ''o3'' c"
proof -
  obtain ds where r: "resourceOffers demo_env MON 0 demo_osd_offers (demo_ag demo_sm_up []) =
      Inr (demo_ag (demo_sm_osds STAGING STAGING STAGING) ds)" using demo_run_osds by blast
  have "(demo_offer ''o3'' ''h1'', 1) \<in> set demo_osd_offers" by (simp add: demo_osd_offers_def)
  from offers_all_answered [OF r this] r show ?thesis by (auto simp: demo_ag_def demo_offer_def)
qed

text \<open>
  C21: A node task launched by a call of \<open>resourceOffers\<close> tells its executor to set up a new
  Ceph cluster (its data begins with \<open>1\<close>) exactly when it is named \<open>mon0\<close>, although the flag is
  a variable that outlives the round that set it.
\<close>

theorem offers_initial_mon_flag:
  assumes "env_ok E" and "reach agent_init (agent_step E J) ag" and "resourceOffers E ty0 tok0 offers ag = Inr ag'"
  shows "\<exists>calls. ag_driver ag' = ag_driver ag @ calls \<and>
    (\<forall>i tasks t d. LaunchTasks i tasks \<in> set calls \<and> t \<in> set tasks \<and> ti_data t = Some d \<longrightarrow>
       (take 2 d = ''1.'' \<longleftrightarrow> ti_name t = ''mon0''))"
  using offers_initial_flag [OF assms(1) reach_agent_inv [OF assms(1,2)] assms(3)]
  by (fastforce dest: bspec)

theorem offers_initial_mon_flag_witness:
  "\<exists>ds calls. resourceOffers demo_env OSD 7 [(demo_offer ''o1'' ''h1'', 1)] demo_start = Inr (demo_ag demo_sm_mon ds) \<and>
    ds = calls \<and> (\<forall>i tasks t d. LaunchTasks i tasks \<in> set calls \<and> t \<in> set tasks \<and> ti_data t = Some d \<longrightarrow>
       (take 2 d = ''1.'' \<longleftrightarrow> ti_name t = ''mon0''))"
proof -
  obtain ds where r: "resourceOffers demo_env OSD 7 [(demo_offer ''o1'' ''h1'', 1)] demo_start = Inr (demo_ag demo_sm_mon ds)"
    using demo_run_mon by blast
  have "demo_reach demo_start" by (rule reach_init) (auto simp: agent_init_def demo_start_def)
  from offers_initial_mon_flag [OF demo_env_ok this r] r show ?thesis
    by (simp add: demo_start_def CephSchedulerAgent_new_def demo_ag_def)
qed

text \<open>
  The outcome of \<open>resourceOffers\<close> does not depend on the values that its two
  uninitialised local variables happen to have.
\<close>

lemma offers_uninitialised_locals:
  "resourceOffers E ty0 tok0 offers ag = resourceOffers E ty1 tok1 offers ag"
  by (rule resourceOffers_locals)

text \<open>
  C22: Before it looks at the offers, \<open>resourceOffers\<close> hands the received OSD ids to the
  waiting OSD tasks: the last ids first, one message each, until tasks or ids run out. Exactly
  the tasks that got an id become \<open>STARTING\<close>, and the ids left over stay.
\<close>

theorem waiting_osds_get_ids:
  "let ts = getWaitingOSDTask (ae_iter E) (ag_sm ag); ids = pendingOSDID (ag_sm ag);
       ag' = handleWaitingOSDTasks E ag
   in ag_driver ag' = ag_driver ag @
        map (\<lambda>(t, i). SendFrameworkMessage (executorId t) (slaveId t) (launchOSD_message (ae_lc E) i)) (zip ts (rev ids)) \<and>
      pendingOSDID (ag_sm ag') = take (length ids - length ts) ids \<and>
      (\<forall>k. map_of (taskMap (ag_sm ag')) k =
         (if k \<in> taskId ` set (take (length ids) ts)
          then map_option (currentStatus_update (\<lambda>_. STARTING)) (map_of (taskMap (ag_sm ag)) k)
          else map_of (taskMap (ag_sm ag)) k))"
  using waiting_loop_spec [of "ae_lc E" "getWaitingOSDTask (ae_iter E) (ag_sm ag)" ag]
  by (simp add: handleWaitingOSDTasks_def launch_calls_def Let_def)

section \<open>Lost OSDs\<close>

text \<open>
  An OSD that fails while it waits for its id or starts stays in the staging counter: the
  task is no longer on its way, the counter does not change. (A task that fails while it is
  staged is counted down.)
\<close>

lemma failed_osd_stays_staged:
  assumes "map_of (taskMap s) tid = Some t" and "taskType t = OSD"
    and "currentStatus t \<in> {WAITING_OSDID, STARTING}"
  shows "osdStagingNum (updateTaskToFailed tid s) = osdStagingNum s \<and>
         nPend OSD (updateTaskToFailed tid s) = nPend OSD s - 1"
proof -
  have "stagingNum OSD (updateTaskToFailed tid s) = stagingNum OSD s"
    using assms by (auto simp: updateTaskToFailed_def Let_def simp del: stagingNum.simps)
  moreover have "nPend OSD (updateTaskToFailed tid s) = nPend OSD s - 1"
    using assms by (auto simp: updateTaskToFailed_def Let_def n_defs count_vals_put_old is_pending_def)
  ultimately show ?thesis by simp
qed

lemma failed_osd_runs:
  assumes "map_of (taskMap s) tid = Some t" and "taskType t = OSD"
    and "currentStatus t \<in> {WAITING_OSDID, STARTING}"
  shows "nRun OSD (updateTaskToFailed tid s) = nRun OSD s"
  using assms by (auto simp: updateTaskToFailed_def Let_def n_defs count_vals_put_old)

lemma inv_leaked:
  assumes "agent_inv E ag"
  shows "nPend OSD (ag_sm ag) \<le> osdStagingNum (ag_sm ag)"
proof -
  have "counters_ok OSD (ag_sm ag)" using assms by (simp add: agent_inv_def core_inv_def sm_inv_def)
  then show ?thesis by (simp add: counters_ok_def)
qed

lemma stuck_run:
  assumes "env_ok E" and "agent_inv E ag" and "osd_stuck (ag_sm ag)" and "(agent_step E J)\<^sup>*\<^sup>* ag ag'"
  shows "nRun OSD (ag_sm ag') \<le> 2 \<and> currentPhase (ag_sm ag') \<le> BOOTSTRAP_OSD"
proof -
  have "agent_inv E ag' \<and> osd_stuck (ag_sm ag')" using stuck.inv_run [OF assms(4)] assms(1-3) by blast
  then have "sm_inv (ag_sm ag')" "osd_stuck (ag_sm ag')" by (simp_all add: agent_inv_def core_inv_def)
  from osd_stuck_phase [OF this] show ?thesis by (auto simp: less_eq_Phase_def)
qed



text \<open>
  C10: One OSD that fails while it waits for its id or starts is enough to stop the bootstrap
  when no more than three OSDs were on their way or running: no later step of any run gets a
  third OSD to run or leaves the bootstrap of the OSDs.
\<close>

theorem failed_osd_blocks_bootstrap:
  assumes "env_ok E" and "reach agent_init (agent_step E J) ag"
    and "map_of (taskMap (ag_sm ag)) tid = Some t" and "taskType t = OSD"
    and "currentStatus t \<in> {WAITING_OSDID, STARTING}"
    and "nPend OSD (ag_sm ag) + nRun OSD (ag_sm ag) \<le> 3"
    and "statusUpdate E \<lparr>st_task_id = tid, st_state = TASK_FAILED, st_message = msg\<rparr> ag = Inr ag1"
    and "(agent_step E J)\<^sup>*\<^sup>* ag1 ag'"
  shows "nRun OSD (ag_sm ag') \<le> 2 \<and> currentPhase (ag_sm ag') \<le> BOOTSTRAP_OSD"
proof -
  have inv: "agent_inv E ag" by (rule reach_agent_inv [OF assms(1,2)])
  have ag1: "ag1 = onSM (updateTaskToFailed tid) ag" using assms(7) by (simp add: statusUpdate_def)
  have "agent_inv E ag1"
    using agent_inv_statusUpdate [OF inv _ assms(7)] assms(3) by (simp add: status_legal_def)
  moreover have "osd_stuck (ag_sm ag1)"
    using failed_osd_stays_staged [OF assms(3-5)] failed_osd_runs [OF assms(3-5)] inv_leaked [OF inv] assms(6)
    by (simp add: ag1 osd_stuck_def leaked_def live_def)
  ultimately show ?thesis using stuck_run [OF assms(1) _ _ assms(8)] by blast
qed

theorem failed_osd_blocks_bootstrap_witness:
  "\<exists>ds. demo_reach (demo_ag (demo_sm_osds WAITING_OSDID STAGING STAGING) ds) \<and>
     (\<forall>ag'. (agent_step demo_env demo_json)\<^sup>*\<^sup>* (demo_ag (demo_sm_osds FAILED STAGING STAGING) ds) ag' \<longrightarrow>
        nRun OSD (ag_sm ag') \<le> 2)"
proof -
  obtain ds where r: "demo_reach (demo_ag (demo_sm_osds WAITING_OSDID STAGING STAGING) ds)"
    using demo_reach_waiting by blast
  let ?ag = "demo_ag (demo_sm_osds WAITING_OSDID STAGING STAGING) ds"
  have t: "map_of (taskMap (ag_sm ?ag)) ''osd0.h1.S1'' =
      Some (TaskState_new ''osd0.h1.S1'' ''ceph-mesos-executor.1.0.1'' OSD ''h1'' ''S1'' WAITING_OSDID)"
    by (simp add: demo_states)
  have n: "nPend OSD (ag_sm ?ag) + nRun OSD (ag_sm ?ag) \<le> 3" by (simp add: demo_osds_count)
  note f = demo_run_failed(1) [unfolded demo_status_def]
  have "nRun OSD (ag_sm ag') \<le> 2"
    if "(agent_step demo_env demo_json)\<^sup>*\<^sup>* (demo_ag (demo_sm_osds FAILED STAGING STAGING) ds) ag'" for ag'
    using failed_osd_blocks_bootstrap [OF demo_env_ok r t _ _ n f that] by (simp add: TaskState_new_def)
  with r show ?thesis by blast
qed

section \<open>The initial MON\<close>

text \<open>
  C11: If the first offer with the framework's role has too few resources, its answer uses up
  number 0 of the MONs: no task of any later state is \<open>mon0\<close>, so no node ever sets up the
  cluster.
\<close>

theorem poor_first_offer_loses_mon0:
  assumes "env_ok E" and "hasRole offer (cfg_role config)"
    and "addConfig (ae_config E) (o_hostname offer) (StateMachine_new indet config) = Inr sm"
    and "\<forall>ag ty. ag_config ag = config \<longrightarrow> offerNotEnoughResources E ag offer ty = Inr True"
  shows "\<exists>ag1. resourceOffers E ty0 tok0 [(offer, now)] (CephSchedulerAgent_new indet config) = Inr ag1 \<and>
    (\<forall>ag2 tid t. (agent_step E J)\<^sup>*\<^sup>* ag1 ag2 \<and> map_of (taskMap (ag_sm ag2)) tid = Some t \<longrightarrow>
       take 4 tid \<noteq> ''mon0'')"
proof -
  obtain ag1 where r: "resourceOffers E ty0 tok0 [(offer, now)] (CephSchedulerAgent_new indet config) = Inr ag1"
    and m: "mon_skipped (ag_sm ag1)"
    using poor_offer_skips [OF assms(2,3)] assms(1,4) unfolding env_ok_def by blast
  have "mon_skipped (ag_sm ag2)" if "(agent_step E J)\<^sup>*\<^sup>* ag1 ag2" for ag2
    using skipped.inv_run [OF that] m assms(1) by (simp add: env_ok_def)
  then show ?thesis using r by (fastforce simp: mon_skipped_def is_mon0_def)
qed

theorem poor_first_offer_loses_mon0_witness:
  "\<exists>ag1. resourceOffers demo_env MON 0 [(poor_offer, 1)] demo_start = Inr ag1 \<and>
    (\<forall>ag2 tid t. (agent_step demo_env demo_json)\<^sup>*\<^sup>* ag1 ag2 \<and> map_of (taskMap (ag_sm ag2)) tid = Some t \<longrightarrow>
       take 4 tid \<noteq> ''mon0'')"
proof -
  have role: "hasRole poor_offer (cfg_role demo_config)" by (simp add: hasRole_def demo_defs)
  have "\<not> isl (addConfig (ae_config demo_env) (o_hostname poor_offer) (StateMachine_new 4 demo_config))"
    by (simp add: addConfig_def config_eval demo_defs StateMachine_new_def c_str_def NUL_def Let_def)
  then obtain sm where "addConfig (ae_config demo_env) (o_hostname poor_offer) (StateMachine_new 4 demo_config) = Inr sm"
    by (cases "addConfig (ae_config demo_env) (o_hostname poor_offer) (StateMachine_new 4 demo_config)") auto
  from poor_first_offer_loses_mon0 [OF demo_env_ok role this] demo_poor show ?thesis
    unfolding demo_start_def by blast
qed

section \<open>Disk tasks\<close>

text \<open>
  C29: When a disk task is launched on an offer, the same round also declines that offer: the
  host is then preparing its disks, and the decision that follows is no.
\<close>

theorem disk_offer_launched_and_declined:
  assumes "hasRole offer (cfg_role (ag_config ag))"
    and "addConfig (ae_config E) (o_hostname offer) (ag_sm ag) = Inr sm"
    and "hc = getConfig sm (o_hostname offer)" and "\<not> isPreparingDisk hc"
    and "havePendingOSDDevs hc \<or> havePendingJNLDevs hc"
    and "offerNotEnoughResources E (ag\<lparr>ag_sm := sm\<rparr>) offer OSD = Inr False"
    and "getFileServerIP E = Inr ip"
  shows "\<exists>loc' ag'. offer_step E phase (offer, now) (loc, ag) = Inr (loc', ag') \<and>
    ag_driver ag' = ag_driver ag @
      [LaunchTasks (o_id offer) [disk_task E now offer (ag_config ag) hc ip], DeclineOffer (o_id offer)]"
proof -
  obtain ty tok ini where loc: "loc = (ty, tok, ini)" by (cases loc)
  let ?ag1 = "onSM (setConfig (o_hostname offer) (setDiskPreparationOnGoing hc))
      (callDriver (LaunchTasks (o_id offer) [disk_task E now offer (ag_config ag) hc ip]) (ag\<lparr>ag_sm := sm\<rparr>))"
  have td: "tryLaunchDiskTask E now offer (o_hostname offer) (ag\<lparr>ag_sm := sm\<rparr>) = Inr ?ag1"
    using assms(3-7) by (auto simp: tryLaunchDiskTask_def Let_def)
  have "isPreparingDisk (getConfig (ag_sm ?ag1) (o_hostname offer))"
    by (simp add: isPreparingDisk_def setDiskPreparationOnGoing_def)
  then have nm: "nextMove ty tok (o_hostname offer) (ag_sm ?ag1) = (False, ty, tok, ag_sm ?ag1)"
    by (simp only: nextMove_def if_True)
  show ?thesis
    using assms(1,2) td nm unfolding loc by (auto simp: offer_step_def offer_decide_def)
qed

definition demo_disks :: agent where
  "demo_disks = demo_ag (demo_sm_up\<lparr>hostConfigMap := [''h1'' \<mapsto> demo_hc\<lparr>hc_pendingOSDDevs := [''sdb'']\<rparr>]\<rparr>) []"

theorem disk_offer_launched_and_declined_witness:
  "\<exists>loc' ag' task. offer_step demo_env BOOTSTRAP_OSD (demo_offer ''o1'' ''h1'', 1) ((MON, 0, 0), demo_disks) = Inr (loc', ag') \<and>
    ag_driver ag' = [LaunchTasks ''o1'' [task], DeclineOffer ''o1'']"
proof -
  let ?o = "demo_offer ''o1'' ''h1''"
  have h: "hasRole ?o (cfg_role (ag_config demo_disks))"
      "addConfig (ae_config demo_env) (o_hostname ?o) (ag_sm demo_disks) = Inr (ag_sm demo_disks)"
      "\<not> isPreparingDisk (getConfig (ag_sm demo_disks) (o_hostname ?o))"
      "havePendingOSDDevs (getConfig (ag_sm demo_disks) (o_hostname ?o)) \<or>
       havePendingJNLDevs (getConfig (ag_sm demo_disks) (o_hostname ?o))"
      "offerNotEnoughResources demo_env (demo_disks\<lparr>ag_sm := ag_sm demo_disks\<rparr>) ?o OSD = Inr False"
      "getFileServerIP demo_env = Inr ''10.0.0.1''"
    by (simp_all add: demo_disks_def demo_states agent_eval demo_defs)
  have "ag_driver demo_disks = []" "o_id ?o = ''o1''" by (simp_all add: demo_disks_def demo_ag_def demo_offer_def)
  then show ?thesis
    using disk_offer_launched_and_declined [OF h(1,2) refl h(3-6), of BOOTSTRAP_OSD 1 "(MON, 0, 0)"] by auto
qed

end
