(* ===== verification/Shell.thy ===== *)
theory Shell
  imports Ceph_Prelude
begin

text \<open>
  \<open>runShellCommand\<close>, which both executors contain: read the output of a command through a
  buffer of 128 characters and drop the newlines at its end. The operating system is a
  parameter: \<open>popen\<close> maps a state of the world and a command to the output of the command
  (\<open>None\<close> when the pipe cannot be opened) and the next state of the world.
\<close>

type_synonym 'w popen = "'w \<Rightarrow> string \<Rightarrow> string option \<times> 'w"

definition newline :: char where "newline = CHR 0x0A"

text \<open>\<open>fgets\<close>: at most 127 characters, up to and including a newline.\<close>

definition fgets_chunk :: "string \<Rightarrow> string" where
  "fgets_chunk out =
     (let line = takeWhile (\<lambda>c. c \<noteq> newline) out
      in if 127 \<le> length line then take 127 out
         else take (Suc (length line)) out)"

lemma length_fgets_chunk: "out \<noteq> [] \<Longrightarrow> 0 < length (fgets_chunk out)"
  by (simp add: fgets_chunk_def Let_def)

lemma fgets_chunk_nonempty [simp]: "out \<noteq> [] \<Longrightarrow> fgets_chunk out \<noteq> []"
  using length_fgets_chunk by auto

function read_pipe :: "string \<Rightarrow> string" where
  "read_pipe out =
     (if out = [] then []
      else c_str (fgets_chunk out) @ read_pipe (drop (length (fgets_chunk out)) out))"
  by pat_completeness auto
termination
  by (relation "measure length") (simp_all add: length_fgets_chunk diff_less)

declare read_pipe.simps [simp del]

definition strip_newlines :: "string \<Rightarrow> string" where
  "strip_newlines s = rev (dropWhile (\<lambda>c. c = newline) (rev s))"

definition runShellCommand :: "'w popen \<Rightarrow> string \<Rightarrow> 'w \<Rightarrow> string \<times> 'w" where
  "runShellCommand popen cmd w =
     (case popen w (c_str cmd) of
        (None, w') \<Rightarrow> (''Run shell command ERROR!'', w')
      | (Some out, w') \<Rightarrow> (strip_newlines (read_pipe out), w'))"

section \<open>Properties\<close>

lemma fgets_chunk_prefix: "fgets_chunk out = take (length (fgets_chunk out)) out"
proof -
  obtain n where "fgets_chunk out = take n out" unfolding fgets_chunk_def Let_def by metis
  then show ?thesis by (rule take_length_self)
qed

text \<open>Reading in chunks loses nothing as long as the output is text.\<close>

lemma read_pipe_text: "NUL \<notin> set out \<Longrightarrow> read_pipe out = out"
proof (induction out rule: read_pipe.induct)
  case (1 out)
  show ?case
  proof (cases "out = []")
    case False
    let ?c = "fgets_chunk out"
    have "NUL \<notin> set ?c" using "1.prems" fgets_chunk_prefix [of out] by (metis in_set_takeD)
    moreover have "NUL \<notin> set (drop (length ?c) out)" using "1.prems" by (auto dest: in_set_dropD)
    ultimately have "read_pipe out = ?c @ drop (length ?c) out"
      using False "1.IH" by (simp add: read_pipe.simps [of out])
    also have "\<dots> = out" by (subst (1) fgets_chunk_prefix) simp
    finally show ?thesis .
  qed (simp add: read_pipe.simps)
qed

lemma strip_newlines_append [simp]:
  assumes "s = [] \<or> last s \<noteq> newline"
  shows "strip_newlines (s @ replicate n newline) = s"
proof -
  have "dropWhile (\<lambda>c. c = newline) (replicate n newline @ rev s) = dropWhile (\<lambda>c. c = newline) (rev s)"
    by (induction n) simp_all
  moreover have "dropWhile (\<lambda>c. c = newline) (rev s) = rev s"
    using assms by (cases s rule: rev_cases) auto
  ultimately show ?thesis by (simp add: strip_newlines_def)
qed

lemma runShellCommand_text:
  assumes "popen w cmd = (Some (s @ replicate n newline), w')" and "NUL \<notin> set cmd"
    and "NUL \<notin> set s" and "s = [] \<or> last s \<noteq> newline"
  shows "runShellCommand popen cmd w = (s, w')"
proof -
  have "NUL \<notin> set (s @ replicate n newline)" using assms(3) by (auto simp: NUL_def newline_def)
  then show ?thesis using assms by (simp add: runShellCommand_def read_pipe_text)
qed

text \<open>
  C39: \<open>runShellCommand\<close> returns the output of the command without the newlines at its end,
  however long the output is and wherever the buffer of 128 characters cuts it, provided it is
  text.
\<close>

theorem runShellCommand_output:
  assumes "popen w cmd = (Some out, w')" and "NUL \<notin> set cmd" and "NUL \<notin> set out"
  shows "runShellCommand popen cmd w = (rev (dropWhile (\<lambda>c. c = newline) (rev out)), w')"
  using assms by (simp add: runShellCommand_def read_pipe_text strip_newlines_def)

theorem runShellCommand_output_witness:
  "runShellCommand (\<lambda>(w :: nat) cmd. (Some (replicate 300 CHR ''x'' @ [newline, newline]), Suc w)) ''ls'' 0 =
     (replicate 300 CHR ''x'', 1)"
proof -
  have "NUL \<notin> set (replicate 300 CHR ''x'' @ [newline, newline])" by (simp add: NUL_def newline_def)
  then show ?thesis
    using runShellCommand_output [of "\<lambda>(w :: nat) cmd. (Some (replicate 300 CHR ''x'' @ [newline, newline]), Suc w)"
        0 "''ls''" "replicate 300 CHR ''x'' @ [newline, newline]" 1]
    by (simp add: NUL_def newline_def dropWhile_append)
qed

end
