(* ===== verification/Disk_Executor.thy ===== *)
theory Disk_Executor
  imports Mesos_Messages Task_State Shell
begin

text \<open>
  \<^verbatim>\<open>src/executor/DiskExecutor.cpp\<close>: the executor that partitions the raw devices of a
  host, makes file systems on them and reports the devices that failed. The state carries
  the world behind the shell, the shell commands run and the status updates sent, in order.
\<close>

section \<open>State\<close>

record 'w disk_exec =
  de_myTaskId :: string
  de_myHostname :: string
  de_pendingOSDDevs :: "string list"
  de_pendingJNLDevs :: "string list"
  de_failedOSDDevs :: "string list"
  de_failedJNLDevs :: "string list"
  de_jnlPartitionCount :: int
  de_world :: 'w
  de_cmds :: "string list"
  de_sent :: "TaskStatus list"

definition fsType :: string where "fsType = ''xfs''"
definition mkfsFLAGS :: string where "mkfsFLAGS = '' -f -i size=2048 -n size=64k''"

definition DiskExecutor_new :: "'w \<Rightarrow> 'w disk_exec" where
  "DiskExecutor_new w =
     \<lparr>de_myTaskId = [], de_myHostname = [], de_pendingOSDDevs = [], de_pendingJNLDevs = [],
      de_failedOSDDevs = [], de_failedJNLDevs = [], de_jnlPartitionCount = 4,
      de_world = w, de_cmds = [], de_sent = []\<rparr>"

definition de_shell :: "'w popen \<Rightarrow> string \<Rightarrow> 'w disk_exec \<Rightarrow> string \<times> 'w disk_exec" where
  "de_shell popen cmd x =
     (let (r, w) = runShellCommand popen cmd (de_world x)
      in (r, x\<lparr>de_world := w, de_cmds := de_cmds x @ [cmd]\<rparr>))"

definition de_send :: "TaskStatus \<Rightarrow> 'w disk_exec \<Rightarrow> 'w disk_exec" where
  "de_send status x = x\<lparr>de_sent := de_sent x @ [status]\<rparr>"

section \<open>Operations\<close>

definition de_registered :: "string \<Rightarrow> 'w disk_exec \<Rightarrow> 'w disk_exec" where
  "de_registered hostname x = x\<lparr>de_myHostname := hostname\<rparr>"

definition mkpart_cmd :: "lexcast \<Rightarrow> string \<Rightarrow> string \<Rightarrow> nat \<Rightarrow> int \<Rightarrow> int \<Rightarrow> string" where
  "mkpart_cmd L diskpath label i start end' =
     ''parted '' @ diskpath @ '' mkpart '' @ label @ '' '' @ lc_str L start
       @ (if i \<noteq> 0 then ''%'' else []) @ '' '' @ lc_str L end' @ ''%''
       @ '' &>/dev/null 2>/dev/null''"

fun mkpart_loop ::
  "'w popen \<Rightarrow> lexcast \<Rightarrow> string \<Rightarrow> string \<Rightarrow> int \<Rightarrow> nat \<Rightarrow> nat \<Rightarrow> int \<Rightarrow> int \<Rightarrow> 'w disk_exec \<Rightarrow> 'w disk_exec" where
  "mkpart_loop popen L diskpath label pcount i 0 start end' x = x"
| "mkpart_loop popen L diskpath label pcount i (Suc n) start end' x =
     (let cmd = mkpart_cmd L diskpath label i start end';
          start' = end';
          end'' = start' + cpp_div 100 pcount;
          (r, x) = de_shell popen cmd x
      in mkpart_loop popen L diskpath label pcount (Suc i) n start' end'' x)"

definition partitionDisk ::
  "'w popen \<Rightarrow> lexcast \<Rightarrow> string \<Rightarrow> int \<Rightarrow> string \<Rightarrow> 'w disk_exec \<Rightarrow> 'w disk_exec res" where
  "partitionDisk popen L diskname partitionCount partitionLabel x =
     (let diskpath = ''/dev/'' @ diskname;
          (r, x) = de_shell popen (''dd if=/dev/zero of='' @ diskpath
                      @ '' bs=4M count=1 oflag=direct 2>/dev/null;echo $?'') x;
          (r, x) = de_shell popen (''parted '' @ diskpath @ ''  mklabel gpt &>/dev/null 2>/dev/null'') x
      in if partitionCount = 0 then Inl Division_By_Zero
         else Inr (mkpart_loop popen L diskpath partitionLabel partitionCount 0 (nat partitionCount)
                     1 (cpp_div 100 partitionCount) x))"

definition mkfsDisk :: "'w popen \<Rightarrow> string \<Rightarrow> string \<Rightarrow> string \<Rightarrow> 'w disk_exec \<Rightarrow> 'w disk_exec" where
  "mkfsDisk popen diskname type flags x =
     snd (de_shell popen (''mkfs.'' @ type @ flags @ '' '' @ diskname) x)"

definition checkSuccess ::
  "'w popen \<Rightarrow> lexcast \<Rightarrow> string \<Rightarrow> int \<Rightarrow> string \<Rightarrow> 'w disk_exec \<Rightarrow> (bool \<times> 'w disk_exec) res" where
  "checkSuccess popen L diskname partitionCount partitionLabel x =
     (let (r, x) = de_shell popen (''parted /dev/'' @ diskname @ '' p |grep '' @ partitionLabel @ ''|wc -l'') x
      in bind_res (lexical_cast_int L r) (\<lambda>pCount.
         let (r, x) = de_shell popen (''parted /dev/'' @ diskname @ '' p |grep '' @ fsType @ ''|wc -l'') x
         in bind_res (lexical_cast_int L r) (\<lambda>fsTypeCount.
              Inr (partitionCount = pCount \<and> partitionCount = fsTypeCount, x))))"

fun prepare_osds :: "'w popen \<Rightarrow> lexcast \<Rightarrow> string list \<Rightarrow> 'w disk_exec \<Rightarrow> 'w disk_exec res" where
  "prepare_osds popen L [] x = Inr x"
| "prepare_osds popen L (d # ds) x =
     bind_res (partitionDisk popen L d 1 ''cephosddata'' x) (\<lambda>x.
     let x = mkfsDisk popen (''/dev/'' @ d @ ''1'') fsType mkfsFLAGS x
     in bind_res (checkSuccess popen L d 1 ''cephosddata'' x) (\<lambda>(r, x).
       prepare_osds popen L ds
         (if \<not> r then x\<lparr>de_failedOSDDevs := de_failedOSDDevs x @ [d]\<rparr> else x)))"

fun prepare_jnls :: "'w popen \<Rightarrow> lexcast \<Rightarrow> string list \<Rightarrow> 'w disk_exec \<Rightarrow> 'w disk_exec res" where
  "prepare_jnls popen L [] x = Inr x"
| "prepare_jnls popen L (d # ds) x =
     bind_res (partitionDisk popen L d (de_jnlPartitionCount x) ''cephjnldata'' x) (\<lambda>x.
     let x = fold (\<lambda>j. mkfsDisk popen (''/dev/'' @ d @ lc_str L j) fsType mkfsFLAGS)
               [1..de_jnlPartitionCount x] x
     in bind_res (checkSuccess popen L d (de_jnlPartitionCount x) ''cephjnldata'' x) (\<lambda>(r, x).
       prepare_jnls popen L ds
         (if \<not> r then x\<lparr>de_failedJNLDevs := de_failedJNLDevs x @ [d]\<rparr> else x)))"

definition de_prepareDisks :: "'w popen \<Rightarrow> lexcast \<Rightarrow> 'w disk_exec \<Rightarrow> 'w disk_exec res" where
  "de_prepareDisks popen L x =
     bind_res (prepare_osds popen L (de_pendingOSDDevs x) x) (\<lambda>x.
       prepare_jnls popen L (de_pendingJNLDevs x) x)"

fun jnl_msg_loop :: "nat \<Rightarrow> nat \<Rightarrow> string list \<Rightarrow> string \<Rightarrow> string" where
  "jnl_msg_loop sz i [] tmp = tmp"
| "jnl_msg_loop sz i (d # ds) tmp =
     jnl_msg_loop sz (Suc i) ds (if i = sz - 1 then tmp @ d @ '','' else tmp @ d)"

definition prepareReturnValue :: "lexcast \<Rightarrow> 'w disk_exec \<Rightarrow> string" where
  "prepareReturnValue L x =
     (let msg = lc_str L (toScheduler_int DISK_READY);
          tmp = foldl (\<lambda>tmp d. tmp @ d @ '','') [] (de_failedOSDDevs x);
          tmp = jnl_msg_loop (length (de_failedJNLDevs x)) 0 (de_failedJNLDevs x) tmp
      in msg @ ''.'' @ de_myHostname x @ '':'' @ (if tmp = [] then ''-'' else tmp))"

fun label_loop :: "lexcast \<Rightarrow> Labels \<Rightarrow> 'w disk_exec \<Rightarrow> 'w disk_exec res" where
  "label_loop L [] x = Inr x"
| "label_loop L ((key, value) # ls) x =
     (let x = (if c_str key = osddevsKey
               then x\<lparr>de_pendingOSDDevs := de_pendingOSDDevs x @ [value]\<rparr> else x);
          x = (if c_str key = jnldevsKey
               then x\<lparr>de_pendingJNLDevs := de_pendingJNLDevs x @ [value]\<rparr> else x)
      in if c_str key = jnlPartitionCountKey
         then bind_res (lexical_cast_int L value) (\<lambda>n. label_loop L ls (x\<lparr>de_jnlPartitionCount := n\<rparr>))
         else label_loop L ls x)"

definition addPendingDisks :: "lexcast \<Rightarrow> TaskInfo \<Rightarrow> 'w disk_exec \<Rightarrow> (bool \<times> 'w disk_exec) res" where
  "addPendingDisks L task x =
     (case ti_labels task of
        Some labels \<Rightarrow>
          if length labels = 0 then Inr (False, x)
          else bind_res (label_loop L labels x) (\<lambda>x. Inr (True, x))
      | None \<Rightarrow> Inr (False, x))"

definition de_launchTask :: "'w popen \<Rightarrow> lexcast \<Rightarrow> TaskInfo \<Rightarrow> 'w disk_exec \<Rightarrow> 'w disk_exec res" where
  "de_launchTask popen L task x =
     (let x = x\<lparr>de_myTaskId := ti_task_id task\<rparr>;
          tid = ti_task_id task
      in bind_res (addPendingDisks L task x) (\<lambda>(ok, x).
         let x = (if \<not> ok
                  then de_send \<lparr>st_task_id = tid, st_state = TASK_FAILED, st_message = None\<rparr> x
                  else x)
         in bind_res (de_prepareDisks popen L x) (\<lambda>x.
              Inr (de_send \<lparr>st_task_id = tid, st_state = TASK_FINISHED,
                             st_message = Some (prepareReturnValue L x)\<rparr> x))))"

section \<open>Partitions\<close>

lemma de_shell_frame:
  assumes "de_shell popen cmd x = (r, x')"
  shows "de_cmds x' = de_cmds x @ [cmd]"
    and "\<exists>w. x' = x\<lparr>de_world := w, de_cmds := de_cmds x @ [cmd]\<rparr>"
  using assms by (auto simp: de_shell_def split: prod.splits)

text \<open>Where partition \<open>i\<close> starts: the first at 1 (without a percent sign), the others where the last one ended.\<close>

definition part_start :: "int \<Rightarrow> nat \<Rightarrow> int" where
  "part_start q i = (if i = 0 then 1 else int i * q)"

definition part_end :: "int \<Rightarrow> nat \<Rightarrow> int" where
  "part_end q i = (int i + 1) * q"

lemma mkpart_loop_cmds:
  assumes "start = part_start (cpp_div 100 p) i" and "end' = part_end (cpp_div 100 p) i"
  shows "de_cmds (mkpart_loop popen L path label p i n start end' x) =
     de_cmds x @ map (\<lambda>j. mkpart_cmd L path label j (part_start (cpp_div 100 p) j)
                           (part_end (cpp_div 100 p) j)) [i..<i + n]"
  using assms
proof (induction n arbitrary: i start end' x)
  case (Suc n)
  let ?q = "cpp_div 100 p"
  obtain r x1 where sh: "de_shell popen (mkpart_cmd L path label i start end') x = (r, x1)" by fastforce
  have "part_end ?q i = part_start ?q (Suc i)" "part_end ?q i + ?q = part_end ?q (Suc i)"
    by (simp_all add: part_start_def part_end_def algebra_simps)
  moreover have up: "[i..<i + Suc n] = i # [Suc i..<Suc i + n]" by (simp add: upt_conv_Cons del: upt_Suc)
  ultimately show ?case
    using Suc.IH [of "part_end ?q i" "Suc i" "part_end ?q i + ?q" x1] Suc.prems sh de_shell_frame(1) [OF sh]
    unfolding up by simp
qed simp

lemma partitionDisk_cmds:
  assumes "0 < p"
  shows "\<exists>x'. partitionDisk popen L d p label x = Inr x' \<and>
     de_cmds x' = de_cmds x @
       [''dd if=/dev/zero of='' @ (''/dev/'' @ d) @ '' bs=4M count=1 oflag=direct 2>/dev/null;echo $?'',
        ''parted '' @ (''/dev/'' @ d) @ ''  mklabel gpt &>/dev/null 2>/dev/null''] @
       map (\<lambda>i. mkpart_cmd L (''/dev/'' @ d) label i (part_start (100 div p) i) (part_end (100 div p) i))
         [0..<nat p]"
proof -
  let ?c1 = "''dd if=/dev/zero of='' @ (''/dev/'' @ d) @ '' bs=4M count=1 oflag=direct 2>/dev/null;echo $?''"
  let ?c2 = "''parted '' @ (''/dev/'' @ d) @ ''  mklabel gpt &>/dev/null 2>/dev/null''"
  obtain r1 x1 where s1: "de_shell popen ?c1 x = (r1, x1)" by fastforce
  obtain r2 x2 where s2: "de_shell popen ?c2 x1 = (r2, x2)" by fastforce
  have q: "cpp_div 100 p = 100 div p" using assms by (simp add: cpp_div_nonneg)
  let ?x' = "mkpart_loop popen L (''/dev/'' @ d) label p 0 (nat p) 1 (100 div p) x2"
  have "partitionDisk popen L d p label x = Inr ?x'"
    unfolding partitionDisk_def Let_def s1 s2 prod.case q using assms by simp
  moreover have "de_cmds ?x' = de_cmds x2 @ map (\<lambda>i. mkpart_cmd L (''/dev/'' @ d) label i
      (part_start (100 div p) i) (part_end (100 div p) i)) [0..<nat p]"
    using mkpart_loop_cmds [of 1 p 0 "100 div p" popen L "''/dev/'' @ d" label "nat p" x2]
    unfolding q by (simp add: part_start_def part_end_def)
  ultimately show ?thesis
    unfolding de_shell_frame(1) [OF s1] de_shell_frame(1) [OF s2] by (intro exI [of _ ?x'] conjI) simp_all
qed

text \<open>For 1 to 100 partitions they follow each other and end within the device.\<close>

lemma layout_ok:
  assumes "0 < p" and "p \<le> 100" and "i < nat p"
  shows "part_end (100 div p) i \<le> 100"
    and "0 < i \<Longrightarrow> part_start (100 div p) i < part_end (100 div p) i"
    and "Suc i < nat p \<Longrightarrow> part_start (100 div p) (Suc i) = part_end (100 div p) i"
proof -
  have q: "1 \<le> 100 div p" using assms by (simp add: zdiv_mono2 [of 100 p 100, simplified])
  have "(int i + 1) * (100 div p) \<le> p * (100 div p)"
    using assms q by (intro mult_right_mono) auto
  also have "\<dots> \<le> 100" using mult_div_mod_eq [of p 100] pos_mod_sign [OF assms(1), of 100] by linarith
  finally show "part_end (100 div p) i \<le> 100" by (simp add: part_end_def)
  show "0 < i \<Longrightarrow> part_start (100 div p) i < part_end (100 div p) i"
    using q by (simp add: part_start_def part_end_def algebra_simps)
  show "part_start (100 div p) (Suc i) = part_end (100 div p) i"
    by (simp add: part_start_def part_end_def algebra_simps)
qed

section \<open>Devices that fail\<close>

text \<open>Only the world and the list of commands may differ.\<close>

definition de_same :: "'w disk_exec \<Rightarrow> 'w disk_exec \<Rightarrow> bool" where
  "de_same x x' \<longleftrightarrow> (\<exists>w cs. x' = x\<lparr>de_world := w, de_cmds := cs\<rparr>)"

lemma de_same_trans: "de_same x y \<Longrightarrow> de_same y z \<Longrightarrow> de_same x z"
proof -
  assume "de_same x y" and "de_same y z"
  then obtain w cs w' cs' where "y = x\<lparr>de_world := w, de_cmds := cs\<rparr>" "z = y\<lparr>de_world := w', de_cmds := cs'\<rparr>"
    unfolding de_same_def by blast
  then have "z = x\<lparr>de_world := w', de_cmds := cs'\<rparr>" by simp
  then show "de_same x z" unfolding de_same_def by blast
qed

lemma de_same_refl [simp]: "de_same x x"
  unfolding de_same_def by (intro exI [of _ "de_world x"] exI [of _ "de_cmds x"]) simp

lemma de_sameD:
  assumes "de_same x x'"
  shows "de_failedOSDDevs x' = de_failedOSDDevs x" "de_failedJNLDevs x' = de_failedJNLDevs x"
    "de_pendingOSDDevs x' = de_pendingOSDDevs x" "de_pendingJNLDevs x' = de_pendingJNLDevs x"
    "de_jnlPartitionCount x' = de_jnlPartitionCount x" "de_sent x' = de_sent x"
    "de_myHostname x' = de_myHostname x" "de_myTaskId x' = de_myTaskId x"
  using assms by (auto simp: de_same_def)

lemma de_same_shell: "de_shell popen cmd x = (r, x') \<Longrightarrow> de_same x x'"
  by (auto simp: de_shell_def de_same_def split: prod.splits)

lemma de_same_mkpart: "de_same x (mkpart_loop popen L path label p i n start end' x)"
proof (induction n arbitrary: i start end' x)
  case (Suc n)
  obtain r x1 where sh: "de_shell popen (mkpart_cmd L path label i start end') x = (r, x1)" by fastforce
  then show ?case using de_same_trans [OF de_same_shell [OF sh] Suc.IH] by simp
qed simp

lemma de_same_partitionDisk:
  assumes "partitionDisk popen L d p label x = Inr x'"
  shows "de_same x x'"
  using assms unfolding partitionDisk_def Let_def
  by (auto split: prod.splits if_splits dest!: de_same_shell intro!: de_same_trans [OF _ de_same_mkpart])
     (blast intro: de_same_trans)

lemma de_same_mkfs: "de_same x (mkfsDisk popen part ty flags x)"
  unfolding mkfsDisk_def using de_same_shell by (metis prod.collapse)

lemma de_same_mkfs_fold:
  "de_same x (fold (\<lambda>j. mkfsDisk popen (part j) ty flags) js x)"
  by (induction js arbitrary: x) (auto intro: de_same_trans [OF de_same_mkfs])

text \<open>The text a command leaves for the caller.\<close>

definition shell_text :: "string option \<Rightarrow> string" where
  "shell_text out = (case out of None \<Rightarrow> ''Run shell command ERROR!'' | Some s \<Rightarrow> strip_newlines (read_pipe s))"

lemma de_shell_result: "fst (de_shell popen cmd x) = shell_text (fst (popen (de_world x) (c_str cmd)))"
  by (simp add: de_shell_def runShellCommand_def shell_text_def split: prod.splits option.splits)

definition count_cmd :: "string \<Rightarrow> string \<Rightarrow> string" where
  "count_cmd d label = ''parted /dev/'' @ d @ '' p |grep '' @ label @ ''|wc -l''"

text \<open>
  How the host answers the two counting commands: for every device and label a number that
  does not depend on when it is asked.
\<close>

definition counts :: "'w popen \<Rightarrow> lexcast \<Rightarrow> (string \<Rightarrow> string \<Rightarrow> int) \<Rightarrow> bool" where
  "counts popen L cnt \<longleftrightarrow>
     (\<forall>w d label. lexical_cast_int L (shell_text (fst (popen w (c_str (count_cmd d label))))) = Inr (cnt d label))"

definition dev_ok :: "(string \<Rightarrow> string \<Rightarrow> int) \<Rightarrow> string \<Rightarrow> int \<Rightarrow> string \<Rightarrow> bool" where
  "dev_ok cnt label p d \<longleftrightarrow> cnt d label = p \<and> cnt d fsType = p"

lemma checkSuccess_counts:
  assumes "counts popen L cnt"
  shows "\<exists>x'. checkSuccess popen L d p label x = Inr (dev_ok cnt label p d, x') \<and> de_same x x'"
proof -
  obtain r1 x1 where s1: "de_shell popen (count_cmd d label) x = (r1, x1)" by fastforce
  obtain r2 x2 where s2: "de_shell popen (count_cmd d fsType) x1 = (r2, x2)" by fastforce
  have "lexical_cast_int L r1 = Inr (cnt d label)" "lexical_cast_int L r2 = Inr (cnt d fsType)"
    using de_shell_result [of popen "count_cmd d label" x] de_shell_result [of popen "count_cmd d fsType" x1]
      assms s1 s2 by (simp_all add: counts_def)
  then have "checkSuccess popen L d p label x = Inr (dev_ok cnt label p d, x2)"
    using s1 s2 unfolding checkSuccess_def Let_def count_cmd_def by (auto simp: dev_ok_def)
  moreover have "de_same x x2" using de_same_shell [OF s1] de_same_shell [OF s2] by (rule de_same_trans)
  ultimately show ?thesis by blast
qed

text \<open>The two loops append to one list of failed devices each and keep the rest.\<close>

definition de_rest :: "'w disk_exec \<Rightarrow> 'w disk_exec \<Rightarrow> bool" where
  "de_rest x x' \<longleftrightarrow>
     de_pendingJNLDevs x' = de_pendingJNLDevs x \<and> de_jnlPartitionCount x' = de_jnlPartitionCount x \<and>
     de_sent x' = de_sent x \<and> de_myHostname x' = de_myHostname x"

lemma partitionDisk_same:
  assumes "0 < p"
  obtains x' where "partitionDisk popen L d p label x = Inr x'" "de_same x x'"
  using partitionDisk_cmds [OF assms, of popen L d label x] de_same_partitionDisk by metis

lemma prepare_osds_failed:
  assumes "counts popen L cnt"
  shows "\<exists>x'. prepare_osds popen L ds x = Inr x' \<and> de_rest x x' \<and> de_failedJNLDevs x' = de_failedJNLDevs x \<and>
     de_failedOSDDevs x' = de_failedOSDDevs x @ filter (\<lambda>d. \<not> dev_ok cnt ''cephosddata'' 1 d) ds"
proof (induction ds arbitrary: x)
  case (Cons d ds)
  obtain x1 where x1: "partitionDisk popen L d 1 ''cephosddata'' x = Inr x1" "de_same x x1"
    by (rule partitionDisk_same [of 1]) simp
  let ?x2 = "mkfsDisk popen (''/dev/'' @ d @ ''1'') fsType mkfsFLAGS x1"
  obtain x3 where x3: "checkSuccess popen L d 1 ''cephosddata'' ?x2 = Inr (dev_ok cnt ''cephosddata'' 1 d, x3)"
      "de_same ?x2 x3"
    using checkSuccess_counts [OF assms] by blast
  have same: "de_same x x3" using x1(2) de_same_mkfs x3(2) by (blast intro: de_same_trans)
  have step: "prepare_osds popen L (d # ds) x = prepare_osds popen L ds
      (if \<not> dev_ok cnt ''cephosddata'' 1 d then x3\<lparr>de_failedOSDDevs := de_failedOSDDevs x3 @ [d]\<rparr> else x3)"
    unfolding prepare_osds.simps(2) x1(1) bind_res_Inr Let_def x3(1) prod.case ..
  show ?case
    using Cons.IH [of "if \<not> dev_ok cnt ''cephosddata'' 1 d
        then x3\<lparr>de_failedOSDDevs := de_failedOSDDevs x3 @ [d]\<rparr> else x3"] de_sameD [OF same]
    unfolding step by (auto simp: de_rest_def)
qed (simp add: de_rest_def)

lemma prepare_jnls_failed:
  assumes "counts popen L cnt" and "0 < de_jnlPartitionCount x"
  shows "\<exists>x'. prepare_jnls popen L ds x = Inr x' \<and> de_rest x x' \<and> de_failedOSDDevs x' = de_failedOSDDevs x \<and>
     de_failedJNLDevs x' = de_failedJNLDevs x @
       filter (\<lambda>d. \<not> dev_ok cnt ''cephjnldata'' (de_jnlPartitionCount x) d) ds"
  using assms(2)
proof (induction ds arbitrary: x)
  case (Cons d ds)
  let ?p = "de_jnlPartitionCount x"
  obtain x1 where x1: "partitionDisk popen L d ?p ''cephjnldata'' x = Inr x1" "de_same x x1"
    by (rule partitionDisk_same [OF Cons.prems])
  let ?x2 = "fold (\<lambda>j. mkfsDisk popen (''/dev/'' @ d @ lc_str L j) fsType mkfsFLAGS) [1..?p] x1"
  have same2: "de_same x ?x2" using x1(2) de_same_mkfs_fold by (rule de_same_trans)
  obtain x3 where x3: "checkSuccess popen L d ?p ''cephjnldata'' ?x2 = Inr (dev_ok cnt ''cephjnldata'' ?p d, x3)"
      "de_same ?x2 x3"
    using checkSuccess_counts [OF assms(1)] by blast
  have same: "de_same x x3" using same2 x3(2) by (rule de_same_trans)
  let ?x4 = "if \<not> dev_ok cnt ''cephjnldata'' ?p d then x3\<lparr>de_failedJNLDevs := de_failedJNLDevs x3 @ [d]\<rparr> else x3"
  have p: "de_jnlPartitionCount x1 = ?p" "de_jnlPartitionCount ?x2 = ?p"
    using de_sameD(5) [OF x1(2)] de_sameD(5) [OF same2] by simp_all
  have step: "prepare_jnls popen L (d # ds) x = prepare_jnls popen L ds ?x4"
    unfolding prepare_jnls.simps(2) x1(1) bind_res_Inr Let_def p x3(1) prod.case ..
  show ?case
    using Cons.IH [of ?x4] Cons.prems de_sameD [OF same] unfolding step by (auto simp: de_rest_def)
qed (simp add: de_rest_def)

lemma de_prepareDisks_failed:
  assumes "counts popen L cnt" and "0 < de_jnlPartitionCount x"
  shows "\<exists>x'. de_prepareDisks popen L x = Inr x' \<and> de_sent x' = de_sent x \<and> de_myHostname x' = de_myHostname x \<and>
     de_failedOSDDevs x' = de_failedOSDDevs x @ filter (\<lambda>d. \<not> dev_ok cnt ''cephosddata'' 1 d) (de_pendingOSDDevs x) \<and>
     de_failedJNLDevs x' = de_failedJNLDevs x @
       filter (\<lambda>d. \<not> dev_ok cnt ''cephjnldata'' (de_jnlPartitionCount x) d) (de_pendingJNLDevs x)"
proof -
  obtain x1 where x1: "prepare_osds popen L (de_pendingOSDDevs x) x = Inr x1" "de_rest x x1"
      "de_failedJNLDevs x1 = de_failedJNLDevs x"
      "de_failedOSDDevs x1 = de_failedOSDDevs x @ filter (\<lambda>d. \<not> dev_ok cnt ''cephosddata'' 1 d) (de_pendingOSDDevs x)"
    using prepare_osds_failed [OF assms(1)] by blast
  then show ?thesis
    using prepare_jnls_failed [OF assms(1), of x1 "de_pendingJNLDevs x1"] assms(2)
    by (auto simp: de_prepareDisks_def de_rest_def)
qed

section \<open>The message to the scheduler\<close>

lemma foldl_comma: "foldl (\<lambda>tmp d. tmp @ d @ '','') acc ds = acc @ concat (map (\<lambda>d. d @ '','') ds)"
  by (induction ds arbitrary: acc) simp_all

lemma jnl_msg_loop_eq:
  "i + length ds = sz \<Longrightarrow>
   jnl_msg_loop sz i ds tmp = tmp @ concat ds @ (if ds = [] then [] else '','')"
proof (induction ds arbitrary: i tmp)
  case (Cons d ds)
  then show ?case by (cases ds) auto
qed simp

text \<open>
  The separator of the journals is set after the last one only: two or more failed journals
  are run together into one name.
\<close>

lemma prepareReturnValue_eq:
  "prepareReturnValue L x =
     lc_str L (toScheduler_int DISK_READY) @ ''.'' @ de_myHostname x @ '':'' @
       (let tmp = concat (map (\<lambda>d. d @ '','') (de_failedOSDDevs x)) @ concat (de_failedJNLDevs x) @
              (if de_failedJNLDevs x = [] then [] else '','')
        in if tmp = [] then ''-'' else tmp)"
  unfolding prepareReturnValue_def by (simp add: foldl_comma jnl_msg_loop_eq Let_def)

lemma explode_comma_list:
  assumes "\<forall>d \<in> set ds. CHR '','' \<notin> set d"
  shows "explode (concat (map (\<lambda>d. d @ '','') ds)) CHR '','' = ds"
  using assms by (induction ds) (simp_all add: explode_delim)

lemma explode_failed_devs:
  assumes "\<forall>d \<in> set (os @ js). CHR '','' \<notin> set d" and "js \<noteq> []"
  shows "explode (concat (map (\<lambda>d. d @ '','') os) @ concat js @ '','') CHR '','' = os @ [concat js]"
proof -
  have "concat (map (\<lambda>d. d @ '','') os) @ concat js @ '','' = concat (map (\<lambda>d. d @ '','') (os @ [concat js]))"
    by simp
  then show ?thesis using explode_comma_list [of "os @ [concat js]"] assms by auto
qed

section \<open>launchTask\<close>

lemma de_send_frame [simp]:
  "de_sent (de_send st x) = de_sent x @ [st]"
  "de_failedOSDDevs (de_send st x) = de_failedOSDDevs x" "de_failedJNLDevs (de_send st x) = de_failedJNLDevs x"
  "de_pendingOSDDevs (de_send st x) = de_pendingOSDDevs x" "de_pendingJNLDevs (de_send st x) = de_pendingJNLDevs x"
  "de_jnlPartitionCount (de_send st x) = de_jnlPartitionCount x" "de_myHostname (de_send st x) = de_myHostname x"
  by (simp_all add: de_send_def)

lemma prepareReturnValue_send [simp]: "prepareReturnValue L (de_send st x) = prepareReturnValue L x"
  by (simp add: prepareReturnValue_def de_send_def)

lemma de_launchTask_sent:
  assumes "counts popen L cnt" and "addPendingDisks L task (x\<lparr>de_myTaskId := ti_task_id task\<rparr>) = Inr (ok, x1)"
    and "0 < de_jnlPartitionCount x1"
  shows "\<exists>x'. de_launchTask popen L task x = Inr x' \<and>
     de_failedOSDDevs x' = de_failedOSDDevs x1 @ filter (\<lambda>d. \<not> dev_ok cnt ''cephosddata'' 1 d) (de_pendingOSDDevs x1) \<and>
     de_failedJNLDevs x' = de_failedJNLDevs x1 @
       filter (\<lambda>d. \<not> dev_ok cnt ''cephjnldata'' (de_jnlPartitionCount x1) d) (de_pendingJNLDevs x1) \<and>
     de_sent x' = de_sent x1 @
       (if ok then [] else [\<lparr>st_task_id = ti_task_id task, st_state = TASK_FAILED, st_message = None\<rparr>]) @
       [\<lparr>st_task_id = ti_task_id task, st_state = TASK_FINISHED, st_message = Some (prepareReturnValue L x')\<rparr>] \<and>
     de_myHostname x' = de_myHostname x1"
proof -
  let ?x2 = "if \<not> ok then de_send \<lparr>st_task_id = ti_task_id task, st_state = TASK_FAILED, st_message = None\<rparr> x1 else x1"
  have "0 < de_jnlPartitionCount ?x2" using assms(3) by (simp add: de_send_def)
  from de_prepareDisks_failed [OF assms(1) this] obtain x3 where
    x3: "de_prepareDisks popen L ?x2 = Inr x3" "de_sent x3 = de_sent ?x2" "de_myHostname x3 = de_myHostname ?x2"
      "de_failedOSDDevs x3 = de_failedOSDDevs ?x2 @ filter (\<lambda>d. \<not> dev_ok cnt ''cephosddata'' 1 d) (de_pendingOSDDevs ?x2)"
      "de_failedJNLDevs x3 = de_failedJNLDevs ?x2 @
         filter (\<lambda>d. \<not> dev_ok cnt ''cephjnldata'' (de_jnlPartitionCount ?x2) d) (de_pendingJNLDevs ?x2)"
    by blast
  let ?x4 = "de_send \<lparr>st_task_id = ti_task_id task, st_state = TASK_FINISHED,
      st_message = Some (prepareReturnValue L x3)\<rparr> x3"
  have "de_launchTask popen L task x = Inr ?x4"
    unfolding de_launchTask_def Let_def assms(2) bind_res_Inr prod.case x3(1) ..
  then show ?thesis
    using x3(2-5) by (intro exI [of _ ?x4]) simp
qed

section \<open>Status updates\<close>

lemma label_loop_sent: "label_loop L ls x = Inr x' \<Longrightarrow> de_sent x' = de_sent x"
proof (induction ls arbitrary: x)
  case (Cons l ls)
  obtain key val where l: "l = (key, val)" by fastforce
  show ?case using Cons unfolding l by (auto simp: Let_def split: if_splits elim!: bind_resE)
qed simp

lemma checkSuccess_same: "checkSuccess popen L d p label x = Inr (r, x') \<Longrightarrow> de_same x x'"
  unfolding checkSuccess_def Let_def
  by (auto split: prod.splits elim!: bind_resE dest!: de_same_shell intro: de_same_trans)

lemma prepare_osds_sent: "prepare_osds popen L ds x = Inr x' \<Longrightarrow> de_sent x' = de_sent x"
proof (induction ds arbitrary: x)
  case (Cons d ds)
  obtain x1 r x2 where x1: "partitionDisk popen L d 1 ''cephosddata'' x = Inr x1"
    and x2: "checkSuccess popen L d 1 ''cephosddata'' (mkfsDisk popen (''/dev/'' @ d @ ''1'') fsType mkfsFLAGS x1) = Inr (r, x2)"
    and rest: "prepare_osds popen L ds (if \<not> r then x2\<lparr>de_failedOSDDevs := de_failedOSDDevs x2 @ [d]\<rparr> else x2) = Inr x'"
    using Cons.prems unfolding prepare_osds.simps(2) Let_def by (elim bind_resE) auto
  have "de_same x x2"
    by (rule de_same_trans [OF de_same_trans [OF de_same_partitionDisk [OF x1] de_same_mkfs] checkSuccess_same [OF x2]])
  then show ?case using Cons.IH [OF rest] by (simp add: de_sameD split: if_splits)
qed simp

lemma prepare_jnls_sent: "prepare_jnls popen L ds x = Inr x' \<Longrightarrow> de_sent x' = de_sent x"
proof (induction ds arbitrary: x)
  case (Cons d ds)
  let ?mkfs = "\<lambda>x1. fold (\<lambda>j. mkfsDisk popen (''/dev/'' @ d @ lc_str L j) fsType mkfsFLAGS) [1..de_jnlPartitionCount x1] x1"
  obtain x1 rx where x1: "partitionDisk popen L d (de_jnlPartitionCount x) ''cephjnldata'' x = Inr x1"
    and rx: "checkSuccess popen L d (de_jnlPartitionCount (?mkfs x1)) ''cephjnldata'' (?mkfs x1) = Inr rx"
    and rest': "(case rx of (r, x) \<Rightarrow> prepare_jnls popen L ds
        (if \<not> r then x\<lparr>de_failedJNLDevs := de_failedJNLDevs x @ [d]\<rparr> else x)) = Inr x'"
    using Cons.prems unfolding prepare_jnls.simps(2) Let_def by (elim bind_resE)
  obtain r x2 where rx_eq: "rx = (r, x2)" by fastforce
  note x2 = rx [unfolded rx_eq] and rest = rest' [unfolded rx_eq prod.case]
  have "de_same x x2"
    by (rule de_same_trans [OF de_same_trans [OF de_same_partitionDisk [OF x1] de_same_mkfs_fold] checkSuccess_same [OF x2]])
  then show ?case using Cons.IH [OF rest] by (simp add: de_sameD split: if_splits)
qed simp

text \<open>What one task reports: a failure when it has no labels, and in any case that it is finished.\<close>

lemma de_launchTask_reports:
  assumes "de_launchTask popen L task x = Inr y"
  shows "\<exists>msg. de_sent y = de_sent x @
      (if ti_labels task \<in> {None, Some []} then [\<lparr>st_task_id = ti_task_id task, st_state = TASK_FAILED, st_message = None\<rparr>] else []) @
      [\<lparr>st_task_id = ti_task_id task, st_state = TASK_FINISHED, st_message = Some msg\<rparr>]"
proof -
  obtain ok x1 x2 x3 where x1: "addPendingDisks L task (x\<lparr>de_myTaskId := ti_task_id task\<rparr>) = Inr (ok, x1)"
    and x2: "x2 = (if \<not> ok then de_send \<lparr>st_task_id = ti_task_id task, st_state = TASK_FAILED, st_message = None\<rparr> x1 else x1)"
    and x3: "de_prepareDisks popen L x2 = Inr x3"
    and y: "y = de_send \<lparr>st_task_id = ti_task_id task, st_state = TASK_FINISHED, st_message = Some (prepareReturnValue L x3)\<rparr> x3"
    using assms unfolding de_launchTask_def Let_def by (elim bind_resE) (auto elim!: bind_resE)
  have "de_sent x1 = de_sent x" "ok \<longleftrightarrow> ti_labels task \<notin> {None, Some []}"
    using x1 by (auto simp: addPendingDisks_def split: option.splits if_splits elim!: bind_resE dest!: label_loop_sent)
  moreover have "de_sent x3 = de_sent x2"
    using x3 by (auto simp: de_prepareDisks_def elim!: bind_resE dest!: prepare_osds_sent prepare_jnls_sent)
  ultimately show ?thesis by (auto simp: x2 y)
qed

lemma de_launchTask_own:
  assumes "de_launchTask popen L task x = Inr y" and "de_sent x = []"
  shows "\<forall>st \<in> set (de_sent y). st_task_id st = ti_task_id task"
  using de_launchTask_reports [OF assms(1)] assms(2) by (auto split: if_splits)

section \<open>Results\<close>

text \<open>
  C34: For 1 to 100 partitions \<open>partitionDisk\<close> wipes the device, labels it and makes the
  partitions in order; each begins where the one before ends, none is empty and the last ends
  within the device.
\<close>

theorem partitionDisk_layout:
  assumes "0 < p" and "p \<le> 100"
  shows "\<exists>x' b. partitionDisk popen L d p label x = Inr x' \<and>
    de_cmds x' = de_cmds x @
      [''dd if=/dev/zero of='' @ (''/dev/'' @ d) @ '' bs=4M count=1 oflag=direct 2>/dev/null;echo $?'',
       ''parted '' @ (''/dev/'' @ d) @ ''  mklabel gpt &>/dev/null 2>/dev/null''] @
      map (\<lambda>i. mkpart_cmd L (''/dev/'' @ d) label i (if i = 0 then 1 else b i) (b (Suc i))) [0..<nat p] \<and>
    b 0 = 0 \<and> (\<forall>i. b i < b (Suc i)) \<and> b (nat p) \<le> 100"
proof -
  let ?b = "\<lambda>i. int i * (100 div p)"
  have q: "1 \<le> 100 div p" using assms by (simp add: zdiv_mono2 [of 100 p 100, simplified])
  have start: "part_start (100 div p) i = (if i = 0 then 1 else ?b i)"
    and end': "part_end (100 div p) i = ?b (Suc i)" for i
    by (simp_all add: part_start_def part_end_def algebra_simps)
  have "?b (nat p) \<le> 100"
    using layout_ok(1) [OF assms, of "nat p - 1"] assms(1) by (simp add: part_end_def)
  moreover have "\<forall>i. ?b i < ?b (Suc i)" using q by (simp add: algebra_simps)
  moreover obtain x' where "partitionDisk popen L d p label x = Inr x'"
      "de_cmds x' = de_cmds x @
      [''dd if=/dev/zero of='' @ (''/dev/'' @ d) @ '' bs=4M count=1 oflag=direct 2>/dev/null;echo $?'',
       ''parted '' @ (''/dev/'' @ d) @ ''  mklabel gpt &>/dev/null 2>/dev/null''] @
      map (\<lambda>i. mkpart_cmd L (''/dev/'' @ d) label i (if i = 0 then 1 else ?b i) (?b (Suc i))) [0..<nat p]"
    using partitionDisk_cmds [OF assms(1), of popen L d label x] unfolding start end' by blast
  ultimately show ?thesis
    by (intro exI [of _ x'] exI [of _ ?b] conjI) (assumption | simp)+
qed

text \<open>A host on which every count is one: single partitions succeed, several do not.\<close>

definition demo_popen :: "unit popen" where
  "demo_popen w cmd = (Some ''1'', ())"

lemma demo_counts: "counts demo_popen dec_lexcast (\<lambda>d label. 1)"
proof -
  have "read_pipe ''1'' = ''1''" by (rule read_pipe_text) (simp add: NUL_def)
  then have "shell_text (Some ''1'') = show_int 1"
    by (simp add: shell_text_def strip_newlines_def newline_def)
  moreover have "is_int32 1" by (simp add: is_int32_def)
  ultimately show ?thesis
    using lexical_cast_int_show [OF dec_lexcast_ok, of 1] by (simp add: counts_def demo_popen_def del: show_int_small)
qed

theorem partitionDisk_layout_witness:
  "\<exists>x' b. partitionDisk demo_popen dec_lexcast ''sdb'' 3 ''cephjnldata'' (DiskExecutor_new ()) = Inr x' \<and>
     length (de_cmds x') = 5 \<and> b (3 :: nat) \<le> (100 :: int)"
proof -
  obtain x' b where r: "partitionDisk demo_popen dec_lexcast ''sdb'' 3 ''cephjnldata'' (DiskExecutor_new ()) = Inr x'"
    and l: "length (de_cmds x') = length (de_cmds (DiskExecutor_new ())) + 2 + nat 3" and b: "b (nat 3) \<le> (100 :: int)"
    using partitionDisk_layout [of 3 demo_popen dec_lexcast "''sdb''" "''cephjnldata''" "DiskExecutor_new ()"]
    by fastforce
  then show ?thesis by (intro exI [of _ x'] exI [of _ b]) (simp add: DiskExecutor_new_def)
qed

text \<open>
  When two or more journal devices fail, the message names them as one device: split at
  the commas, as its format is documented, it gives the failed OSD devices and then the
  concatenation of the journal devices.
\<close>

lemma failed_journals_run_together:
  assumes "\<forall>d \<in> set (de_failedOSDDevs x @ de_failedJNLDevs x). CHR '','' \<notin> set d" and "de_failedJNLDevs x \<noteq> []"
  shows "\<exists>devs. prepareReturnValue L x = lc_str L (toScheduler_int DISK_READY) @ ''.'' @ de_myHostname x @ '':'' @ devs \<and>
    explode devs CHR '','' = de_failedOSDDevs x @ [concat (de_failedJNLDevs x)]"
  using explode_failed_devs [OF assms] assms(2)
  by (intro exI [of _ "concat (map (\<lambda>d. d @ '','') (de_failedOSDDevs x)) @ concat (de_failedJNLDevs x) @ '',''"])
     (simp add: prepareReturnValue_eq)

text \<open>
  A disk task without labels is reported twice: as failed and then as finished.
\<close>

lemma disk_task_without_labels:
  assumes "ti_labels task = None \<or> ti_labels task = Some []"
  shows "\<exists>x'. de_launchTask popen L task (DiskExecutor_new w) = Inr x' \<and>
    map (\<lambda>st. (st_task_id st, st_state st)) (de_sent x') =
      [(ti_task_id task, TASK_FAILED), (ti_task_id task, TASK_FINISHED)]"
proof -
  have "addPendingDisks L task x = Inr (False, x)" for x :: "'a disk_exec"
    using assms by (auto simp: addPendingDisks_def)
  then show ?thesis
    by (simp add: de_launchTask_def de_prepareDisks_def DiskExecutor_new_def de_send_def Let_def)
qed

definition bare_task :: TaskInfo where
  "bare_task = \<lparr>ti_name = ''t'', ti_data = None, ti_task_id = ''t1'', ti_slave_id = ''S1'',
     ti_executor = \<lparr>ei_executor_id = ''e'', ei_name = ''e'', ei_uris = [], ei_command = []\<rparr>,
     ti_labels = None, ti_resources = []\<rparr>"

end
