(* ===== verification/Ceph_Executor.thy ===== *)
theory Ceph_Executor
  imports Mesos_Messages Task_State Shell
begin

text \<open>
  \<^verbatim>\<open>src/executor/CephExecutor.hpp\<close> and \<^verbatim>\<open>src/executor/CephExecutor.cpp\<close>: the
  executor that starts one Ceph container. The state carries the world behind the shell and
  the effects in order: shell commands, forked children, status updates and messages. The
  operating system is a parameter. A function that polls may not return, which is the value
  \<open>None\<close>.
\<close>

section \<open>State and environment\<close>

text \<open>What the child of a \<open>fork\<close> becomes: another program, or it comes back.\<close>

datatype child = Execs string "string list" | Comes_Back

datatype effect =
    Shell string
  | Fork child
  | SendStatus TaskStatus
  | SendMessage string
  | StartFileServer int string

record 'w os =
  os_popen :: "'w popen"
  os_fork :: "'w \<Rightarrow> int \<times> 'w"            \<comment> \<open>what the parent gets: a process id, or \<open>-1\<close>\<close>
  os_getcwd :: "'w \<Rightarrow> string option"
  os_time :: "'w \<Rightarrow> int"
  os_wifexited :: "'w \<Rightarrow> bool"          \<comment> \<open>\<open>WIFEXITED\<close> of the pointer passed to \<open>waitpid\<close>\<close>

record 'w ceph_exec =
  x_containerName :: string
  x_myTaskId :: string
  x_myHostname :: string
  x_myPID :: int
  x_localSharedConfigDirRoot :: string
  x_sandboxAbsolutePath :: string
  x_localMountOSDDir :: string
  x_localMountJNLDir :: string
  x_mgmtNIC :: string
  x_dataNIC :: string
  x_osddisk :: string
  x_jnldisk :: string
  x_world :: 'w
  x_trace :: "effect list"

text \<open>\<open>pid\<close> is the indeterminate value of \<open>myPID\<close>.\<close>

definition CephExecutor_new :: "int \<Rightarrow> 'w \<Rightarrow> 'w ceph_exec" where
  "CephExecutor_new pid w =
     \<lparr>x_containerName = [], x_myTaskId = [], x_myHostname = [], x_myPID = pid,
      x_localSharedConfigDirRoot = [], x_sandboxAbsolutePath = [], x_localMountOSDDir = [],
      x_localMountJNLDir = [], x_mgmtNIC = [], x_dataNIC = [], x_osddisk = [], x_jnldisk = [],
      x_world = w, x_trace = []\<rparr>"

definition localConfigDirName :: string where "localConfigDirName = ''ceph_config_root''"
definition mountFLAGS :: string where "mountFLAGS = '' -o inode64,noatime,logbsize=256k''"

definition x_emit :: "effect \<Rightarrow> 'w ceph_exec \<Rightarrow> 'w ceph_exec" where
  "x_emit e x = x\<lparr>x_trace := x_trace x @ [e]\<rparr>"

definition x_shell :: "'w os \<Rightarrow> string \<Rightarrow> 'w ceph_exec \<Rightarrow> string \<times> 'w ceph_exec" where
  "x_shell os cmd x =
     (let (r, w) = runShellCommand (os_popen os) cmd (x_world x)
      in (r, x_emit (Shell cmd) (x\<lparr>x_world := w\<rparr>)))"

section \<open>Configuration files\<close>

definition deleteConfigDir :: "'w os \<Rightarrow> string \<Rightarrow> 'w ceph_exec \<Rightarrow> 'w ceph_exec" where
  "deleteConfigDir os dir x =
     snd (x_shell os (''rm -rf '' @ x_localSharedConfigDirRoot x @ ''/'' @ dir) x)"

definition existsConfigFiles_cmd :: "string \<Rightarrow> string \<Rightarrow> string" where
  "existsConfigFiles_cmd rootDir dir =
     (let pre = rootDir @ ''/'' @ dir @ ''/etc/ceph/'';
          pre1 = rootDir @ ''/'' @ dir @ ''/var/lib/ceph/''
      in ''[ -f '' @ pre @ ''ceph.client.admin.keyring'' @ '' ]'' @ '' && ''
         @ ''[ -f '' @ pre @ ''ceph.conf'' @ '' ]'' @ '' && ''
         @ ''[ -f '' @ pre @ ''ceph.mon.keyring'' @ '' ]'' @ '' && ''
         @ ''[ -f '' @ pre @ ''monmap'' @ '' ]'' @ '' && ''
         @ ''[ -f '' @ pre1 @ ''bootstrap-osd/ceph.keyring'' @ '' ]'' @ '' && ''
         @ ''[ -f '' @ pre1 @ ''bootstrap-rgw/ceph.keyring'' @ '' ]'' @ '' && ''
         @ ''[ -f '' @ pre1 @ ''bootstrap-mds/ceph.keyring'' @ '' ]''
         @ '';echo $?'')"

definition existsConfigFiles :: "'w os \<Rightarrow> string \<Rightarrow> 'w ceph_exec \<Rightarrow> bool \<times> 'w ceph_exec" where
  "existsConfigFiles os dir x =
     (let (r, x) = x_shell os (existsConfigFiles_cmd (x_localSharedConfigDirRoot x) dir) x
      in (''0'' = r, x))"

definition createDir_cmd :: "string \<Rightarrow> string \<Rightarrow> string" where
  "createDir_cmd rootDir dir =
     ''cd '' @ rootDir @ '' && '' @ ''mkdir '' @ dir @ '' && '' @ ''cd '' @ dir @ '' && ''
     @ ''mkdir -p ./etc/ceph && ''
     @ ''mkdir -p ./var/lib/ceph/bootstrap-mds && ''
     @ ''mkdir -p ./var/lib/ceph/bootstrap-rgw && ''
     @ ''mkdir -p ./var/lib/ceph/bootstrap-osd && ''
     @ ''mkdir -p ./var/lib/ceph/mds && ''
     @ ''mkdir -p ./var/lib/ceph/osd && ''
     @ ''mkdir -p ./var/lib/ceph/mon && ''
     @ ''mkdir -p ./var/lib/ceph/radosgw && ''
     @ ''mkdir -p ./var/lib/ceph/tmp && ''
     @ ''cd .. && chmod 777 -R '' @ dir @ '' && '' @ ''echo $?''"

definition createLocalSharedConfigDir :: "'w os \<Rightarrow> string \<Rightarrow> 'w ceph_exec \<Rightarrow> bool \<times> 'w ceph_exec" where
  "createLocalSharedConfigDir os dir x =
     (let (e, x) = existsConfigFiles os dir x
      in if e then (True, x)
         else let (r, x) = x_shell os (createDir_cmd (x_localSharedConfigDirRoot x) dir) x
              in (''0'' = r, x))"

definition copyFiles_cmd :: "string \<Rightarrow> string \<Rightarrow> string" where
  "copyFiles_cmd rootDir sandbox =
     (let localMountDir = rootDir @ ''/'' @ localConfigDirName;
          abpath1 = localMountDir @ ''/'' @ ''etc/ceph/'';
          abpath2 = localMountDir @ ''/'' @ ''var/lib/ceph/''
      in ''cd '' @ sandbox @ '' && '' @ ''cp ./ceph.client.admin.keyring '' @ ''./ceph.conf ''
         @ ''./ceph.mon.keyring '' @ ''./monmap '' @ abpath1 @ '' && ''
         @ ''cp ./ceph.keyring.osd '' @ abpath2 @ ''bootstrap-osd/ceph.keyring'' @ '' && ''
         @ ''cp ./ceph.keyring.mds '' @ abpath2 @ ''bootstrap-mds/ceph.keyring'' @ '' && ''
         @ ''cp ./ceph.keyring.rgw '' @ abpath2 @ ''bootstrap-rgw/ceph.keyring'' @ '';echo $?'')"

definition copySharedConfigFiles :: "'w os \<Rightarrow> 'w ceph_exec \<Rightarrow> bool \<times> 'w ceph_exec" where
  "copySharedConfigFiles os x =
     (let (r, x) = x_shell os (copyFiles_cmd (x_localSharedConfigDirRoot x) (x_sandboxAbsolutePath x)) x
      in (''0'' = r, x))"

section \<open>Container commands\<close>

fun public_ip_loop :: "lexcast \<Rightarrow> string \<Rightarrow> string list \<Rightarrow> string option res" where
  "public_ip_loop L CIDR [] = Inr None"
| "public_ip_loop L CIDR (t # ts) =
     bind_res (matchIPToCIDR L t CIDR) (\<lambda>m. if m then Inr (Some t) else public_ip_loop L CIDR ts)"

definition getPublicNetworkIP ::
  "'w os \<Rightarrow> lexcast \<Rightarrow> string \<Rightarrow> string \<Rightarrow> 'w ceph_exec \<Rightarrow> (string \<times> 'w ceph_exec) res" where
  "getPublicNetworkIP os L ips CIDR x =
     bind_res (public_ip_loop L CIDR (explode ips CHR '' '')) (\<lambda>m.
       case m of Some t \<Rightarrow> Inr (t, x) | None \<Rightarrow> Inr (x_shell os ''hostname -i'' x))"

definition mon_command :: "string \<Rightarrow> string \<Rightarrow> string \<Rightarrow> string \<Rightarrow> string \<Rightarrow> string" where
  "mon_command localMountDir cname ip mgmtNIC dataNIC =
     ''docker run --rm --net=host --privileged --name '' @ cname
     @ '' -e MON_IP='' @ ip @ '' -e OSD_JOURNAL_SIZE=0''
     @ '' -e CEPH_PUBLIC_NETWORK='' @ mgmtNIC @ '' -e CEPH_CLUSTER_NETWORK='' @ dataNIC
     @ '' -v '' @ localMountDir @ ''/etc/ceph'' @ '':/etc/ceph:rw''
     @ '' -v '' @ localMountDir @ ''/var/lib/ceph'' @ '':/var/lib/ceph:rw ''
     @ ''ceph/daemon mon''"

definition constructMonCommand ::
  "'w os \<Rightarrow> lexcast \<Rightarrow> string \<Rightarrow> string \<Rightarrow> 'w ceph_exec \<Rightarrow> (string \<times> 'w ceph_exec) res" where
  "constructMonCommand os L localMountDir cname x =
     (let (ips, x) = x_shell os ''hostname -I'' x
      in bind_res (getPublicNetworkIP os L ips (x_mgmtNIC x) x) (\<lambda>(ip, x).
           Inr (mon_command localMountDir cname ip (x_mgmtNIC x) (x_dataNIC x), x)))"

definition registerOSD :: "'w os \<Rightarrow> 'w ceph_exec \<Rightarrow> string \<times> 'w ceph_exec" where
  "registerOSD os x = x_shell os (''docker exec '' @ x_containerName x @ '' ceph osd create'') x"

definition constructOSDCommand :: "string \<Rightarrow> string \<Rightarrow> string \<Rightarrow> string" where
  "constructOSDCommand localMountDir osdId cname =
     (let local_config_dir = localMountDir @ ''/etc/ceph'';
          local_fs_dir = localMountDir @ ''/var/lib/ceph'';
          osdid_dir_name = ''ceph-'' @ osdId;
          jnlid_dir_name = ''jnl-'' @ osdId
      in ''docker run --rm --pid=host --net=host --privileged --name '' @ cname
         @ '' -e JOURNAL_DIR=/var/lib/ceph/osd/journal'' @ '' -e OSD_TYPE=directory''
         @ '' -v '' @ local_config_dir @ '':/etc/ceph:rw''
         @ '' -v '' @ local_fs_dir @ ''/bootstrap-osd'' @ '':/var/lib/ceph/bootstrap-osd:rw''
         @ '' -v '' @ local_fs_dir @ ''/osd/'' @ osdid_dir_name
         @ '':/var/lib/ceph/osd/'' @ osdid_dir_name @ '':rw''
         @ '' -v '' @ local_fs_dir @ ''/osd/'' @ jnlid_dir_name
         @ '':/var/lib/ceph/osd/journal'' @ '':rw ''
         @ ''ceph/daemon osd'')"

definition constructRADOSGWCommand :: "string \<Rightarrow> string \<Rightarrow> string" where
  "constructRADOSGWCommand localMountDir cname =
     ''docker run --rm --net=host --privileged --name '' @ cname
     @ '' -e RGW_NAME='' @ cname
     @ '' -v '' @ localMountDir @ ''/etc/ceph'' @ '':/etc/ceph:rw''
     @ '' -v '' @ localMountDir @ ''/var/lib/ceph'' @ ''/bootstrap-rgw''
     @ '':/var/lib/ceph/bootstrap-rgw:rw ''
     @ ''ceph/daemon rgw''"

section \<open>Processes\<close>

definition startLongRunning :: "string \<Rightarrow> string \<Rightarrow> child" where
  "startLongRunning binaryName cmd =
     (if [] \<noteq> cmd then Execs binaryName (explode_chars cmd CHR '' '') else Comes_Back)"

text \<open>\<open>fork\<close> in the parent; the child, when there is one, runs \<open>startLongRunning\<close>.\<close>

definition x_fork :: "'w os \<Rightarrow> string \<Rightarrow> string \<Rightarrow> 'w ceph_exec \<Rightarrow> int \<times> 'w ceph_exec" where
  "x_fork os binaryName cmd x =
     (let (pid, w) = os_fork os (x_world x); x = x\<lparr>x_world := w\<rparr>
      in (pid, if pid = - 1 then x else x_emit (Fork (startLongRunning binaryName cmd)) x))"

definition downloadDockerImage :: "'w os \<Rightarrow> string \<Rightarrow> 'w ceph_exec \<Rightarrow> bool \<times> 'w ceph_exec" where
  "downloadDockerImage os imageName x =
     (let (r, x) = x_shell os (''docker images|grep '' @ imageName @ '' > /dev/null 2>&1;echo $?'') x
      in if ''0'' = r then (True, x)
         else let (pid, x) = x_fork os ''docker'' (''docker pull '' @ imageName) x
              in (os_wifexited os (x_world x), x))"

text \<open>
  The polling loop. \<open>current\<close> is read once before the loop, so its guard does not change;
  the loop ends only when the container is listed.
\<close>

partial_function (option) poll_started ::
  "'w os \<Rightarrow> string \<Rightarrow> 'w ceph_exec \<Rightarrow> (string \<times> 'w ceph_exec) option" where
  "poll_started os cmd x =
     (case x_shell os cmd x of (r, x') \<Rightarrow>
        if ''0'' = r then Some (r, x') else poll_started os cmd x')"

definition ps_cmd :: "string \<Rightarrow> string" where
  "ps_cmd cname = ''docker ps |grep '' @ cname @ '' > /dev/null ;echo $?''"

definition mon_stat_cmd :: "string \<Rightarrow> string \<Rightarrow> string" where
  "mon_stat_cmd cname timeout =
     ''docker exec '' @ cname @ '' timeout '' @ timeout @ '' ceph mon stat > /dev/null 2>&1; echo $?''"

definition block_until_started ::
  "'w os \<Rightarrow> lexcast \<Rightarrow> string \<Rightarrow> string \<Rightarrow> 'w ceph_exec \<Rightarrow> (bool \<times> 'w ceph_exec) res option" where
  "block_until_started os L cname timeout x =
     (case lexical_cast_int L timeout of
        Inl e \<Rightarrow> Some (Inl e)
      | Inr secs \<Rightarrow>
          (let current = os_time os (x_world x); deadline = current + secs
           in case (if current < deadline
                    then poll_started os (ps_cmd cname) x
                    else Some ([], x)) of
                None \<Rightarrow> None
              | Some (r, x) \<Rightarrow>
                  if ''0'' \<noteq> r then Some (Inr (False, x))
                  else (let (r, x) = x_shell os (mon_stat_cmd cname timeout) x
                        in Some (Inr (''0'' = r, x)))))"

section \<open>Host configuration\<close>

fun parse_labels :: "Labels \<Rightarrow> 'w ceph_exec \<Rightarrow> 'w ceph_exec" where
  "parse_labels [] x = x"
| "parse_labels ((key, value) # ls) x =
     (let x = (if c_str key = mgmtdevKey then x\<lparr>x_mgmtNIC := value\<rparr> else x);
          x = (if c_str key = datadevKey then x\<lparr>x_dataNIC := value\<rparr> else x);
          x = (if c_str key = osddevsKey then x\<lparr>x_osddisk := value\<rparr> else x);
          x = (if c_str key = jnldevsKey then x\<lparr>x_jnldisk := value\<rparr> else x)
      in parse_labels ls x)"

definition parseHostConfig :: "TaskInfo \<Rightarrow> 'w ceph_exec \<Rightarrow> bool \<times> 'w ceph_exec" where
  "parseHostConfig task x =
     (case ti_labels task of
        Some labels \<Rightarrow> if length labels = 0 then (False, x) else (True, parse_labels labels x)
      | None \<Rightarrow> (False, x))"

definition mountDisk :: "'w os \<Rightarrow> string \<Rightarrow> string \<Rightarrow> string \<Rightarrow> 'w ceph_exec \<Rightarrow> bool \<times> 'w ceph_exec" where
  "mountDisk os diskname dir flags x =
     (True, snd (x_shell os (''mount'' @ flags @ '' '' @ diskname @ '' '' @ dir) x))"

definition x_prepareDisks :: "'w os \<Rightarrow> 'w ceph_exec \<Rightarrow> bool \<times> 'w ceph_exec" where
  "x_prepareDisks os x =
     (let (r, x) = x_shell os (''mkdir -p '' @ x_localMountOSDDir x) x;
          (r, x) = x_shell os (''mkdir -p '' @ x_localMountJNLDir x) x;
          (osdOk, x) = (if [] = x_osddisk x then (True, x)
                        else mountDisk os (''/dev/'' @ x_osddisk x) (x_localMountOSDDir x) mountFLAGS x)
      in if \<not> osdOk then (False, x)
         else let (jnlOk, x) = (if [] = x_jnldisk x then (True, x)
                                else mountDisk os (''/dev/'' @ x_jnldisk x) (x_localMountJNLDir x) mountFLAGS x)
              in if \<not> jnlOk then (False, x) else (True, x))"

definition getContainerName :: "string \<Rightarrow> string res" where
  "getContainerName tid = vec_at (explode tid CHR ''.'') 0"

section \<open>Callbacks\<close>

definition x_registered :: "'w os \<Rightarrow> string \<Rightarrow> 'w ceph_exec \<Rightarrow> 'w ceph_exec" where
  "x_registered os hostname x =
     x\<lparr>x_myHostname := hostname,
       x_sandboxAbsolutePath := (case os_getcwd os (x_world x) of Some d \<Rightarrow> d | None \<Rightarrow> [])\<rparr>"

definition consumed_message :: "lexcast \<Rightarrow> string \<Rightarrow> string" where
  "consumed_message L osdId = lc_str L (toScheduler_int CONSUMED_OSD_ID) @ ''.'' @ osdId"

definition launchOSD :: "'w os \<Rightarrow> lexcast \<Rightarrow> string \<Rightarrow> 'w ceph_exec \<Rightarrow> 'w ceph_exec res option" where
  "launchOSD os L osdId x =
     (let localMountDir = x_localSharedConfigDirRoot x @ ''/'' @ localConfigDirName;
          x = x\<lparr>x_localMountOSDDir := localMountDir @ ''/var/lib/ceph/osd/ceph-'' @ osdId,
                x_localMountJNLDir := localMountDir @ ''/var/lib/ceph/osd/jnl-'' @ osdId\<rparr>;
          status = (\<lambda>st msg. \<lparr>st_task_id = x_myTaskId x, st_state = st, st_message = msg\<rparr>);
          (ok, x) = x_prepareDisks os x
      in if \<not> ok then Some (Inr (x_emit (SendStatus (status TASK_FAILED None)) x))
         else
           let dockerCommand = constructOSDCommand localMountDir osdId (x_containerName x);
               (pid, x) = x_fork os ''docker'' dockerCommand x;
               x = x\<lparr>x_myPID := pid\<rparr>
           in map_option (\<lambda>m. bind_res m (\<lambda>(started, x).
                Inr (x_emit (SendStatus
                       (if started then status TASK_RUNNING (Some (consumed_message L osdId))
                        else status TASK_FAILED None)) x)))
                (block_until_started os L (x_containerName x) ''30'' x))"

definition x_frameworkMessage ::
  "'w os \<Rightarrow> lexcast \<Rightarrow> string \<Rightarrow> 'w ceph_exec \<Rightarrow> 'w ceph_exec res option" where
  "x_frameworkMessage os L data x =
     (let tokens = explode data CHR ''.''
      in case bind_res (vec_at tokens 0) (lexical_cast_int L) of
           Inl e \<Rightarrow> Some (Inl e)
         | Inr msg \<Rightarrow>
             if msg = toExecutor_int REGISTER_OSD
             then let (osdID, x) = registerOSD os x in Some (Inr (x_emit (SendMessage osdID) x))
             else if msg = toExecutor_int LAUNCH_OSD
             then if length tokens = 2 then launchOSD os L (tokens ! 1) x else Some (Inr x)
             else Some (Inr x))"

definition x_shutdown :: "'w os \<Rightarrow> 'w ceph_exec \<Rightarrow> 'w ceph_exec" where
  "x_shutdown os x =
     (let x = (if [] \<noteq> x_localMountOSDDir x
               then snd (x_shell os (''umount -f '' @ x_localMountOSDDir x) x) else x);
          x = (if [] \<noteq> x_localMountJNLDir x
               then snd (x_shell os (''umount -f '' @ x_localMountJNLDir x) x) else x);
          x = snd (x_shell os (''docker rm -f '' @ x_containerName x) x)
      in x_emit (SendStatus \<lparr>st_task_id = x_myTaskId x, st_state = TASK_KILLED, st_message = None\<rparr>) x)"

text \<open>\<open>remove_if\<close> moves the kept characters to the front and leaves the length alone.\<close>

definition remove_if_space :: "string \<Rightarrow> string" where
  "remove_if_space s =
     (let kept = filter (\<lambda>c. c \<notin> set [CHR '' '', CHR 0x09, CHR 0x0A, CHR 0x0B, CHR 0x0C, CHR 0x0D]) s
      in kept @ drop (length kept) s)"

definition publish_config :: "'w os \<Rightarrow> 'w ceph_exec \<Rightarrow> 'w ceph_exec" where
  "publish_config os x =
     (let prefix = x_localSharedConfigDirRoot x @ ''/'' @ localConfigDirName;
          (r, x) = x_shell os (''sed -i '' @ [CHR 0x27] @ ''/osd journal size/d'' @ [CHR 0x27] @ '' ''
                       @ prefix @ ''/etc/ceph/ceph.conf; echo $?'') x;
          (r, x) = x_shell os
            (''cp '' @ prefix @ ''/var/lib/ceph/bootstrap-osd/ceph.keyring'' @ '' '' @ prefix @ ''/etc/ceph/ceph.keyring.osd''
             @ '';cp '' @ prefix @ ''/var/lib/ceph/bootstrap-rgw/ceph.keyring'' @ '' '' @ prefix @ ''/etc/ceph/ceph.keyring.rgw''
             @ '';cp '' @ prefix @ ''/var/lib/ceph/bootstrap-mds/ceph.keyring'' @ '' '' @ prefix @ ''/etc/ceph/ceph.keyring.mds''
             @ '';echo $?'') x
      in x_emit (StartFileServer 7777 (prefix @ ''/etc/ceph/'')) x)"

text \<open>The end of \<open>launchTask\<close>: fork, wait until the container runs, report.\<close>

definition run_container ::
  "'w os \<Rightarrow> lexcast \<Rightarrow> string \<Rightarrow> string \<Rightarrow> bool \<Rightarrow> string \<Rightarrow> 'w ceph_exec \<Rightarrow> 'w ceph_exec res option" where
  "run_container os L tid cName needStartFileServer dockerCommand x =
     (let (pid, x) = x_fork os ''docker'' dockerCommand x; x = x\<lparr>x_myPID := pid\<rparr>
      in map_option (\<lambda>m. bind_res m (\<lambda>(started, x).
           let x = (if started \<and> needStartFileServer then publish_config os x else x)
           in Inr (x_emit (SendStatus \<lparr>st_task_id = tid,
                     st_state = (if started then TASK_RUNNING else TASK_FAILED), st_message = None\<rparr>) x)))
           (block_until_started os L cName ''60'' x))"

text \<open>
  The data of the task: whether the configuration has to be copied, and the task type.
  \<open>indet\<close> is the indeterminate \<open>taskType\<close> of a task without data.
\<close>

definition task_data ::
  "'w os \<Rightarrow> lexcast \<Rightarrow> int \<Rightarrow> TaskInfo \<Rightarrow> 'w ceph_exec \<Rightarrow> (bool \<times> int \<times> 'w ceph_exec) res" where
  "task_data os L indet task x =
     (case ti_data task of
        Some data \<Rightarrow>
          (let tokens = explode data CHR ''.''
           in bind_res (vec_at tokens 0) (\<lambda>t0.
              let initial = (t0 = ''1'');
                  x = (if initial then deleteConfigDir os localConfigDirName x else x)
              in bind_res (vec_at tokens 1) (\<lambda>t1.
                 bind_res (lexical_cast_int L t1) (\<lambda>ty. Inr (\<not> initial, ty, x)))))
      | None \<Rightarrow> Inr (True, indet, x))"

text \<open>The \<open>switch\<close> over the task type.\<close>

definition start_node ::
  "'w os \<Rightarrow> lexcast \<Rightarrow> string \<Rightarrow> string \<Rightarrow> string \<Rightarrow> int \<Rightarrow> 'w ceph_exec \<Rightarrow> 'w ceph_exec res option" where
  "start_node os L tid localMountDir cName ty x =
     (if ty = taskType_int MON then
        (case constructMonCommand os L localMountDir cName x of
           Inl e \<Rightarrow> Some (Inl e)
         | Inr (dockerCommand, x) \<Rightarrow>
             (let (d, x) = downloadDockerImage os ''ceph/daemon'' x
              in run_container os L tid cName True dockerCommand x))
      else if ty = taskType_int OSD then
        (let (d, x) = downloadDockerImage os ''ceph/daemon'' x
         in Some (Inr (x_emit (SendStatus \<lparr>st_task_id = tid, st_state = TASK_STARTING, st_message = None\<rparr>) x)))
      else if ty = taskType_int RADOSGW then
        (let (d, x) = downloadDockerImage os ''ceph/daemon'' x
         in run_container os L tid cName False (constructRADOSGWCommand localMountDir cName) x)
      else run_container os L tid cName False [] x)"

definition x_launchTask ::
  "'w os \<Rightarrow> lexcast \<Rightarrow> int \<Rightarrow> TaskInfo \<Rightarrow> 'w ceph_exec \<Rightarrow> 'w ceph_exec res option" where
  "x_launchTask os L indet task x =
     (let (r, x) = x_shell os ''echo ~'' x;
          r = remove_if_space r;
          x = x\<lparr>x_localSharedConfigDirRoot := (if r = [] then r else ''/root'')\<rparr>
      in case task_data os L indet task x of
           Inl e \<Rightarrow> Some (Inl e)
         | Inr (needCopyConfig, ty, x) \<Rightarrow>
             (let localMountDir = x_localSharedConfigDirRoot x @ ''/'' @ localConfigDirName;
                  tid = ti_task_id task;
                  failed = SendStatus \<lparr>st_task_id = tid, st_state = TASK_FAILED, st_message = None\<rparr>;
                  (ok, x) = parseHostConfig task x
              in if \<not> ok then Some (Inr (x_emit failed x))
                 else let (ok, x) = createLocalSharedConfigDir os localConfigDirName x
              in if \<not> ok then Some (Inr (x_emit failed x))
                 else let (ok, x) = (if needCopyConfig then copySharedConfigFiles os x else (True, x))
              in if \<not> ok then Some (Inr (x_emit failed x))
                 else case getContainerName tid of
                   Inl e \<Rightarrow> Some (Inl e)
                 | Inr cName \<Rightarrow>
                     (let x = x\<lparr>x_containerName := cName, x_myTaskId := tid\<rparr>;
                          (r, x) = x_shell os (''docker rm -f '' @ cName) x
                      in start_node os L tid localMountDir cName ty x)))"

section \<open>The polling loop\<close>

fun polled :: "'w os \<Rightarrow> string \<Rightarrow> nat \<Rightarrow> 'w ceph_exec \<Rightarrow> 'w ceph_exec" where
  "polled os cmd 0 x = x"
| "polled os cmd (Suc k) x = polled os cmd k (snd (x_shell os cmd x))"

lemma poll_started_hit:
  assumes "fst (x_shell os cmd (polled os cmd k x)) = ''0''"
    and "\<forall>j < k. fst (x_shell os cmd (polled os cmd j x)) \<noteq> ''0''"
  shows "poll_started os cmd x = Some (''0'', polled os cmd (Suc k) x)"
  using assms
proof (induction k arbitrary: x)
  case 0
  then show ?case by (subst poll_started.simps) (auto split: prod.splits)
next
  case (Suc k)
  obtain r x1 where sh: "x_shell os cmd x = (r, x1)" by fastforce
  have "r \<noteq> ''0''" using Suc.prems(2) sh by (auto dest: spec [of _ 0])
  moreover have "\<forall>j < k. fst (x_shell os cmd (polled os cmd j x1)) \<noteq> ''0''"
  proof (intro allI impI)
    fix j assume "j < k"
    then show "fst (x_shell os cmd (polled os cmd j x1)) \<noteq> ''0''"
      using Suc.prems(2) [rule_format, of "Suc j"] sh by simp
  qed
  then have "poll_started os cmd x1 = Some (''0'', polled os cmd (Suc k) x1)"
    using Suc.IH [of x1] Suc.prems(1) sh by simp
  ultimately show ?case using sh by (subst poll_started.simps) auto
qed

lemma poll_started_result:
  fixes os :: "'w os"
  assumes "poll_started os cmd x = Some y"
  shows "\<exists>k. fst (x_shell os cmd (polled os cmd k x)) = ''0'' \<and> y = (''0'', polled os cmd (Suc k) x)"
proof -
  let ?P = "\<lambda>(os :: 'w os) cmd x y. \<exists>k. fst (x_shell os cmd (polled os cmd k x)) = ''0'' \<and>
      y = (''0'', polled os cmd (Suc k) x)"
  have "(case ((os, cmd), x) of (a, c) \<Rightarrow> (case a of (a, b) \<Rightarrow> ?P a b) c) y"
  proof (rule poll_started.raw_induct [of ?P "((os, cmd), x)" y])
    fix rec and os :: "'w os" and cmd x y
    assume IH: "\<And>os cmd x y. rec os cmd x = Some y \<Longrightarrow> ?P os cmd x y"
      and eq: "(case x_shell os cmd x of (r, x') \<Rightarrow> if ''0'' = r then Some (r, x') else rec os cmd x') = Some y"
    obtain r x1 where sh: "x_shell os cmd x = (r, x1)" by fastforce
    show "?P os cmd x y"
    proof (cases "''0'' = r")
      case True
      with eq sh show ?thesis by (intro exI [of _ 0]) auto
    next
      case False
      with eq sh have "rec os cmd x1 = Some y" by simp
      then obtain k where "fst (x_shell os cmd (polled os cmd k x1)) = ''0''" "y = (''0'', polled os cmd (Suc k) x1)"
        using IH by blast
      with sh show ?thesis by (intro exI [of _ "Suc k"]) simp
    qed
  qed (simp add: assms)
  then show ?thesis by simp
qed

lemma poll_started_returns_iff:
  "(\<exists>y. poll_started os cmd x = Some y) \<longleftrightarrow> (\<exists>k. fst (x_shell os cmd (polled os cmd k x)) = ''0'')"
proof
  assume "\<exists>k. fst (x_shell os cmd (polled os cmd k x)) = ''0''"
  then obtain k where "fst (x_shell os cmd (polled os cmd k x)) = ''0''"
      "\<forall>j < k. fst (x_shell os cmd (polled os cmd j x)) \<noteq> ''0''"
    using exists_least_iff [of "\<lambda>k. fst (x_shell os cmd (polled os cmd k x)) = ''0''"] by auto
  then show "\<exists>y. poll_started os cmd x = Some y" using poll_started_hit by blast
qed (use poll_started_result in blast)

section \<open>Status updates\<close>

fun statuses_of :: "effect list \<Rightarrow> TaskStatus list" where
  "statuses_of [] = []"
| "statuses_of (SendStatus st # es) = st # statuses_of es"
| "statuses_of (_ # es) = statuses_of es"

lemma statuses_of_append [simp]: "statuses_of (xs @ ys) = statuses_of xs @ statuses_of ys"
  by (induction xs rule: statuses_of.induct) simp_all

definition statuses :: "'w ceph_exec \<Rightarrow> TaskStatus list" where
  "statuses x = statuses_of (x_trace x)"

text \<open>Helpers report nothing and leave the identity of the task alone.\<close>

definition quiet :: "'w ceph_exec \<Rightarrow> 'w ceph_exec \<Rightarrow> bool" where
  "quiet x x' \<longleftrightarrow> statuses x' = statuses x \<and> x_myTaskId x' = x_myTaskId x \<and> x_containerName x' = x_containerName x"

lemma quiet_refl [simp]: "quiet x x"
  by (simp add: quiet_def)

lemma quiet_trans: "quiet x y \<Longrightarrow> quiet y z \<Longrightarrow> quiet x z"
  by (simp add: quiet_def)

lemma quiet_shell: "x_shell os cmd x = (r, x') \<Longrightarrow> quiet x x'"
  by (auto simp: x_shell_def quiet_def statuses_def x_emit_def split: prod.splits)

lemma quiet_snd_shell [simp]: "quiet x (snd (x_shell os cmd x))"
  using quiet_shell by (metis prod.collapse)

lemma quiet_fork: "x_fork os b cmd x = (pid, x') \<Longrightarrow> quiet x x'"
  by (auto simp: x_fork_def quiet_def statuses_def x_emit_def Let_def split: prod.splits if_splits)

lemma quiet_createDir: "createLocalSharedConfigDir os dir x = (ok, x') \<Longrightarrow> quiet x x'"
  unfolding createLocalSharedConfigDir_def existsConfigFiles_def Let_def
  by (auto split: prod.splits if_splits dest!: quiet_shell intro: quiet_trans)

lemma quiet_copy: "copySharedConfigFiles os x = (ok, x') \<Longrightarrow> quiet x x'"
  unfolding copySharedConfigFiles_def Let_def
  by (auto split: prod.splits dest: quiet_shell)

lemma quiet_mon: "constructMonCommand os L dir cname x = Inr (cmd, x') \<Longrightarrow> quiet x x'"
  unfolding constructMonCommand_def getPublicNetworkIP_def Let_def
  by (auto split: prod.splits option.splits elim!: bind_resE dest!: quiet_shell intro: quiet_trans)

lemma quiet_download: "downloadDockerImage os img x = (ok, x') \<Longrightarrow> quiet x x'"
  unfolding downloadDockerImage_def Let_def
  by (auto split: prod.splits if_splits dest!: quiet_shell quiet_fork intro: quiet_trans)

lemma quiet_polled: "quiet x (polled os cmd k x)"
  by (induction k arbitrary: x) (auto intro: quiet_trans [OF quiet_snd_shell])

lemma quiet_block:
  assumes "block_until_started os L cname secs x = Some (Inr (ok, x'))"
  shows "quiet x x'"
proof -
  have poll: "quiet x x1" if "poll_started os cmd x = Some (r, x1)" for cmd r x1
    using poll_started_result [OF that] quiet_polled by blast
  show ?thesis
    using assms unfolding block_until_started_def Let_def
    by (auto split: sum.splits if_splits option.splits prod.splits dest!: poll quiet_shell intro: quiet_trans)
qed

lemma quiet_labels: "quiet x (parse_labels ls x)"
proof (induction ls x rule: parse_labels.induct)
  case (2 key val ls x)
  then show ?case by (auto simp: Let_def quiet_def statuses_def)
qed simp

lemma quiet_parse: "parseHostConfig task x = (ok, x') \<Longrightarrow> quiet x x'"
  by (auto simp: parseHostConfig_def quiet_labels split: option.splits if_splits)

lemma quiet_publish: "quiet x (publish_config os x)"
proof -
  have "quiet x (x_emit (StartFileServer p d) x)" for p d and x :: "'a ceph_exec"
    by (simp add: quiet_def statuses_def x_emit_def)
  then show ?thesis
    unfolding publish_config_def Let_def
    by (auto split: prod.splits dest!: quiet_shell intro: quiet_trans)
qed

lemma quiet_prepare: "x_prepareDisks os x = (ok, x') \<Longrightarrow> quiet x x'"
  unfolding x_prepareDisks_def mountDisk_def Let_def
  by (auto split: prod.splits if_splits dest!: quiet_shell intro: quiet_trans)
     (meson quiet_trans quiet_snd_shell)+

lemma statuses_emit [simp]: "statuses (x_emit (SendStatus st) x) = statuses x @ [st]"
  by (simp add: statuses_def x_emit_def)

lemma statuses_frame [simp]:
  "statuses (x\<lparr>x_myPID := p\<rparr>) = statuses x" "statuses (x\<lparr>x_containerName := c\<rparr>) = statuses x"
  "statuses (x\<lparr>x_myTaskId := t\<rparr>) = statuses x" "statuses (x\<lparr>x_localSharedConfigDirRoot := d\<rparr>) = statuses x"
  "statuses (x\<lparr>x_localMountOSDDir := d\<rparr>) = statuses x" "statuses (x\<lparr>x_localMountJNLDir := d\<rparr>) = statuses x"
  by (simp_all add: statuses_def)

lemma quietD: "quiet x x' \<Longrightarrow> statuses x' = statuses x"
  by (simp add: quiet_def)

lemma quiet_taskId: "quiet x x' \<Longrightarrow> x_myTaskId x' = x_myTaskId x"
  by (simp add: quiet_def)

lemma taskId_emit [simp]: "x_myTaskId (x_emit e x) = x_myTaskId x"
  by (simp add: x_emit_def)

lemma statuses_snd_shell [simp]: "statuses (snd (x_shell os cmd x)) = statuses x"
  by (rule quietD) simp

lemma run_container_status:
  assumes "run_container os L tid cName fs cmd x = Some (Inr x')"
  shows "x_myTaskId x' = x_myTaskId x \<and> (\<exists>st. (st = TASK_RUNNING \<or> st = TASK_FAILED) \<and>
     statuses x' = statuses x @ [\<lparr>st_task_id = tid, st_state = st, st_message = None\<rparr>])"
proof -
  obtain pid x1 where f: "x_fork os ''docker'' cmd x = (pid, x1)" by fastforce
  obtain ok x2 where b: "block_until_started os L cName ''60'' (x1\<lparr>x_myPID := pid\<rparr>) = Some (Inr (ok, x2))"
    and x': "x' = x_emit (SendStatus \<lparr>st_task_id = tid, st_state = (if ok then TASK_RUNNING else TASK_FAILED),
        st_message = None\<rparr>) (if ok \<and> fs then publish_config os x2 else x2)"
    using assms unfolding run_container_def Let_def f prod.case by (auto elim!: bind_resE)
  have "statuses x2 = statuses x" using quietD [OF quiet_fork [OF f]] quietD [OF quiet_block [OF b]] by simp
  moreover have "x_myTaskId x2 = x_myTaskId x"
    using quiet_taskId [OF quiet_fork [OF f]] quiet_taskId [OF quiet_block [OF b]] by simp
  ultimately show ?thesis
    using quietD [OF quiet_publish, of os x2] quiet_taskId [OF quiet_publish, of os x2] by (auto simp: x')
qed

definition first_states :: "int \<Rightarrow> task_state set" where
  "first_states ty = {TASK_FAILED, if ty = taskType_int OSD then TASK_STARTING else TASK_RUNNING}"

lemma start_node_status:
  assumes "start_node os L tid dir cName ty x = Some (Inr x')"
  shows "x_myTaskId x' = x_myTaskId x \<and>
    (\<exists>st \<in> first_states ty. statuses x' = statuses x @ [\<lparr>st_task_id = tid, st_state = st, st_message = None\<rparr>])"
proof -
  obtain d x1 where dl: "downloadDockerImage os ''ceph/daemon'' x = (d, x1)" by fastforce
  have q: "statuses x1 = statuses x" "x_myTaskId x1 = x_myTaskId x"
    using quiet_download [OF dl] by (simp_all add: quiet_def)
  consider (mon) "ty = taskType_int MON" | (osd) "ty = taskType_int OSD" | (rgw) "ty = taskType_int RADOSGW"
    | (other) "ty \<noteq> taskType_int MON" "ty \<noteq> taskType_int OSD" "ty \<noteq> taskType_int RADOSGW" by blast
  then show ?thesis
  proof cases
    case mon
    then obtain cmd x2 d2 x3 where m: "constructMonCommand os L dir cName x = Inr (cmd, x2)"
      and dl2: "downloadDockerImage os ''ceph/daemon'' x2 = (d2, x3)"
      and r: "run_container os L tid cName True cmd x3 = Some (Inr x')"
      using assms by (auto simp: start_node_def split: sum.splits prod.splits)
    have "statuses x3 = statuses x" "x_myTaskId x3 = x_myTaskId x"
      using quiet_mon [OF m] quiet_download [OF dl2] by (simp_all add: quiet_def)
    then show ?thesis using run_container_status [OF r] mon by (auto simp: first_states_def)
  next
    case osd
    then show ?thesis using assms dl q by (auto simp: start_node_def first_states_def)
  next
    case rgw
    then have "run_container os L tid cName False (constructRADOSGWCommand dir cName) x1 = Some (Inr x')"
      using assms dl by (simp add: start_node_def)
    from run_container_status [OF this] show ?thesis using rgw q by (auto simp: first_states_def)
  next
    case other
    then have "run_container os L tid cName False [] x = Some (Inr x')"
      using assms by (simp add: start_node_def)
    from run_container_status [OF this] show ?thesis using other by (auto simp: first_states_def)
  qed
qed

lemma task_data_quiet: "task_data os L indet task x = Inr (c, ty, x') \<Longrightarrow> quiet x x'"
  by (auto simp: task_data_def deleteConfigDir_def Let_def split: option.splits elim!: bind_resE)

text \<open>
  Every launch that comes to an end reports exactly one status; unless that is a failure, the
  executor knows its task from then on.
\<close>

lemma x_launchTask_status:
  assumes "x_launchTask os L indet task x = Some (Inr x')"
    and ty: "\<forall>y c ty y'. task_data os L indet task y = Inr (c, ty, y') \<longrightarrow> ty = t"
  shows "\<exists>st \<in> first_states t. statuses x' = statuses x @
           [\<lparr>st_task_id = ti_task_id task, st_state = st, st_message = None\<rparr>] \<and>
           (x_myTaskId x' = ti_task_id task \<or> st = TASK_FAILED \<and> x_myTaskId x' = x_myTaskId x)"
proof -
  obtain r0 x0 where s0: "x_shell os ''echo ~'' x = (r0, x0)" by fastforce
  let ?x1 = "x0\<lparr>x_localSharedConfigDirRoot := (if remove_if_space r0 = [] then remove_if_space r0 else ''/root'')\<rparr>"
  obtain c ty2 x2 where td: "task_data os L indet task ?x1 = Inr (c, ty2, x2)"
    using assms(1) by (auto simp: x_launchTask_def s0 Let_def split: sum.splits)
  have t2: "ty2 = t" using ty td by blast
  obtain ok3 x3 where p3: "parseHostConfig task x2 = (ok3, x3)" by fastforce
  obtain ok4 x4 where p4: "createLocalSharedConfigDir os localConfigDirName x3 = (ok4, x4)" by fastforce
  obtain ok5 x5 where p5: "(if c then copySharedConfigFiles os x4 else (True, x4)) = (ok5, x5)" by fastforce
  have "quiet x ?x1" using quiet_shell [OF s0] by (simp add: quiet_def)
  then have q3: "quiet x x3" using task_data_quiet [OF td] quiet_parse [OF p3] by (meson quiet_trans)
  then have q4: "quiet x x4" using quiet_createDir [OF p4] by (rule quiet_trans)
  moreover have "quiet x4 x5" using p5 quiet_copy [of os x4 ok5 x5] by (cases c) auto
  ultimately have q5: "quiet x x5" by (rule quiet_trans)
  note unf = assms(1) [unfolded x_launchTask_def s0 Let_def prod.case td sum.case p3 p4 p5]
  show ?thesis
  proof (cases "ok3 \<and> ok4 \<and> ok5")
    case False
    then obtain y where y: "x' = x_emit (SendStatus \<lparr>st_task_id = ti_task_id task, st_state = TASK_FAILED,
        st_message = None\<rparr>) y" "quiet x y"
      using unf q3 q4 q5 by (auto split: if_splits)
    then show ?thesis by (simp add: first_states_def quiet_def)
  next
    case True
    then obtain cName where cn: "getContainerName (ti_task_id task) = Inr cName"
      using unf by (auto split: sum.splits)
    let ?x6 = "x5\<lparr>x_containerName := cName, x_myTaskId := ti_task_id task\<rparr>"
    obtain r7 x7 where s7: "x_shell os (''docker rm -f '' @ cName) ?x6 = (r7, x7)" by fastforce
    have "start_node os L (ti_task_id task) (x_localSharedConfigDirRoot x2 @ ''/'' @ localConfigDirName) cName t x7
        = Some (Inr x')"
      using unf True cn s7 t2 by (simp del: append.simps)
    from start_node_status [OF this] show ?thesis
      using q5 quiet_shell [OF s7] by (simp add: quiet_def)
  qed
qed

lemma launchOSD_status:
  assumes "launchOSD os L osdId x = Some (Inr x')"
  shows "\<exists>st. (st = \<lparr>st_task_id = x_myTaskId x, st_state = TASK_FAILED, st_message = None\<rparr> \<or>
       st = \<lparr>st_task_id = x_myTaskId x, st_state = TASK_RUNNING, st_message = Some (consumed_message L osdId)\<rparr>) \<and>
     statuses x' = statuses x @ [st] \<and> x_myTaskId x' = x_myTaskId x"
proof -
  let ?dir = "x_localSharedConfigDirRoot x @ ''/'' @ localConfigDirName"
  let ?x1 = "x\<lparr>x_localMountOSDDir := ?dir @ ''/var/lib/ceph/osd/ceph-'' @ osdId,
                x_localMountJNLDir := ?dir @ ''/var/lib/ceph/osd/jnl-'' @ osdId\<rparr>"
  obtain ok x2 where p: "x_prepareDisks os ?x1 = (ok, x2)" by fastforce
  have q: "quiet ?x1 x2" by (rule quiet_prepare [OF p])
  obtain pid x3 where f: "x_fork os ''docker'' (constructOSDCommand ?dir osdId (x_containerName x2)) x2 = (pid, x3)"
    by fastforce
  let ?status = "\<lambda>st msg. \<lparr>st_task_id = x_myTaskId ?x1, st_state = st, st_message = msg\<rparr>"
  let ?x4 = "x3\<lparr>x_myPID := pid\<rparr>"
  note unf = assms [unfolded launchOSD_def Let_def p prod.case f]
  show ?thesis
  proof (cases ok)
    case False
    then have "x' = x_emit (SendStatus (?status TASK_FAILED None)) x2"
      using unf by (simp only: simp_thms if_True option.inject sum.inject)
    then show ?thesis using q by (auto simp: quiet_def)
  next
    case True
    have "map_option (\<lambda>m. bind_res m (\<lambda>(started, y). Inr (x_emit (SendStatus
        (if started then ?status TASK_RUNNING (Some (consumed_message L osdId)) else ?status TASK_FAILED None)) y)))
          (block_until_started os L (x_containerName ?x4) ''30'' ?x4) = Some (Inr x')"
      using unf True by (simp only: simp_thms if_False)
    then obtain started x5 where b: "block_until_started os L (x_containerName ?x4) ''30'' ?x4 = Some (Inr (started, x5))"
      and x': "x' = x_emit (SendStatus
        (if started then ?status TASK_RUNNING (Some (consumed_message L osdId)) else ?status TASK_FAILED None)) x5"
      by (auto elim!: bind_resE)
    have "statuses x5 = statuses x" "x_myTaskId x5 = x_myTaskId x"
      using q quiet_fork [OF f] quiet_block [OF b] by (simp_all add: quiet_def)
    then show ?thesis by (auto simp: x')
  qed
qed

section \<open>When the wait ends\<close>

definition listed :: "'w os \<Rightarrow> string \<Rightarrow> nat \<Rightarrow> 'w ceph_exec \<Rightarrow> bool" where
  "listed os cname k x \<longleftrightarrow> fst (x_shell os (ps_cmd cname) (polled os (ps_cmd cname) k x)) = ''0''"

lemma block_returns_iff:
  assumes "lexical_cast_int L timeout = Inr secs" and "0 < secs"
  shows "(\<exists>y. block_until_started os L cname timeout x = Some y) \<longleftrightarrow> (\<exists>k. listed os cname k x)"
proof -
  have "(\<exists>y. block_until_started os L cname timeout x = Some y) \<longleftrightarrow> (\<exists>y. poll_started os (ps_cmd cname) x = Some y)"
    using assms unfolding block_until_started_def Let_def by (auto split: option.splits prod.splits)
  then show ?thesis unfolding poll_started_returns_iff listed_def .
qed

text \<open>The wait never reports a container that is missing: its only results come from the monitor check.\<close>

lemma block_result:
  assumes "lexical_cast_int L timeout = Inr secs" and "0 < secs"
    and "block_until_started os L cname timeout x = Some (Inr (ok, x'))"
  shows "\<exists>x1 r. (r, x') = x_shell os (mon_stat_cmd cname timeout) x1 \<and> (ok \<longleftrightarrow> r = ''0'')"
proof -
  obtain r1 x1 where p: "poll_started os (ps_cmd cname) x = Some (r1, x1)"
    using assms unfolding block_until_started_def Let_def by (auto split: option.splits)
  have "r1 = ''0''" using poll_started_result [OF p] by auto
  obtain r2 x2 where sh: "x_shell os (mon_stat_cmd cname timeout) x1 = (r2, x2)" by fastforce
  have "x' = x2 \<and> (ok \<longleftrightarrow> r2 = ''0'')"
    using assms p sh \<open>r1 = ''0''\<close> unfolding block_until_started_def Let_def by auto
  then show ?thesis using sh by metis
qed

section \<open>shutdown\<close>

lemma trace_snd_shell [simp]: "x_trace (snd (x_shell os cmd x)) = x_trace x @ [Shell cmd]"
  by (simp add: x_shell_def x_emit_def split: prod.splits)

lemma sel_snd_shell [simp]:
  "x_localMountOSDDir (snd (x_shell os cmd x)) = x_localMountOSDDir x"
  "x_localMountJNLDir (snd (x_shell os cmd x)) = x_localMountJNLDir x"
  "x_containerName (snd (x_shell os cmd x)) = x_containerName x"
  "x_myTaskId (snd (x_shell os cmd x)) = x_myTaskId x"
  by (simp_all add: x_shell_def x_emit_def split: prod.splits)

text \<open>
  \<open>shutdown\<close> unmounts what was mounted, then removes the container and only then reports
  that the task is killed.
\<close>

lemma x_shutdown_trace:
  "x_trace (x_shutdown os x) = x_trace x
     @ (if x_localMountOSDDir x = [] then [] else [Shell (''umount -f '' @ x_localMountOSDDir x)])
     @ (if x_localMountJNLDir x = [] then [] else [Shell (''umount -f '' @ x_localMountJNLDir x)])
     @ [Shell (''docker rm -f '' @ x_containerName x),
        SendStatus \<lparr>st_task_id = x_myTaskId x, st_state = TASK_KILLED, st_message = None\<rparr>]"
  unfolding x_shutdown_def Let_def x_emit_def by (simp del: append.simps)

section \<open>Results\<close>

text \<open>
  C33: The wait for a container comes to an end exactly if some poll of \<open>docker ps\<close> lists the
  container, however long that takes: the timeout that is passed does not end it.
\<close>

theorem block_until_started_ends:
  assumes "lexical_cast_int L timeout = Inr secs" and "0 < secs"
  shows "(\<exists>y. block_until_started os L cname timeout x = Some y) \<longleftrightarrow>
         (\<exists>k. fst (x_shell os (ps_cmd cname) (polled os (ps_cmd cname) k x)) = ''0'')"
  using block_returns_iff [OF assms] by (simp add: listed_def)

text \<open>Two hosts: every command succeeds at once; no container is ever listed.\<close>

definition demo_os :: "string \<Rightarrow> unit os" where
  "demo_os out = \<lparr>os_popen = (\<lambda>w cmd. (Some out, ())), os_fork = (\<lambda>w. (42, ())),
     os_getcwd = (\<lambda>w. Some ''/sandbox''), os_time = (\<lambda>w. 0), os_wifexited = (\<lambda>w. True)\<rparr>"

lemma demo_shell [simp]:
  "x_shell (demo_os ''0'') cmd x = (''0'', x_emit (Shell cmd) x)"
  "x_shell (demo_os ''1'') cmd x = (''1'', x_emit (Shell cmd) x)"
proof -
  have "read_pipe ''0'' = ''0''" "read_pipe ''1'' = ''1''" by (simp_all add: read_pipe_text NUL_def)
  moreover have "x_emit (Shell cmd) (x\<lparr>x_world := ()\<rparr>) = x_emit (Shell cmd) x"
    by (rule ceph_exec.equality) (simp_all add: x_emit_def)
  ultimately show "x_shell (demo_os ''0'') cmd x = (''0'', x_emit (Shell cmd) x)"
      "x_shell (demo_os ''1'') cmd x = (''1'', x_emit (Shell cmd) x)"
    by (simp_all add: x_shell_def runShellCommand_def demo_os_def strip_newlines_def newline_def)
qed

lemma lexcast_30: "lexical_cast_int dec_lexcast ''30'' = Inr 30" "lexical_cast_int dec_lexcast ''60'' = Inr 60"
proof -
  have "show_int 30 = ''30''" "show_int 60 = ''60''" by (simp_all add: show_int_def show_nat.simps)
  moreover have "is_int32 30" "is_int32 60" by (simp_all add: is_int32_def)
  ultimately show "lexical_cast_int dec_lexcast ''30'' = Inr 30" "lexical_cast_int dec_lexcast ''60'' = Inr 60"
    using lexical_cast_int_show [OF dec_lexcast_ok] by metis+
qed

lemma demo_poll: "poll_started (demo_os ''0'') cmd x = Some (''0'', x_emit (Shell cmd) x)"
  by (subst poll_started.simps) simp

lemma demo_started:
  "lexical_cast_int dec_lexcast t = Inr n \<Longrightarrow> 0 < n \<Longrightarrow>
     \<exists>x'. block_until_started (demo_os ''0'') dec_lexcast cname t x = Some (Inr (True, x'))"
  by (simp add: block_until_started_def demo_poll)

theorem block_until_started_ends_witness:
  "(\<exists>y. block_until_started (demo_os ''0'') dec_lexcast ''mon0'' ''60'' (CephExecutor_new 0 ()) = Some y) \<and>
   block_until_started (demo_os ''1'') dec_lexcast ''mon0'' ''60'' (CephExecutor_new 0 ()) = None"
proof -
  have "\<exists>y. block_until_started (demo_os ''0'') dec_lexcast ''mon0'' ''60'' (CephExecutor_new 0 ()) = Some y"
    using block_until_started_ends [OF lexcast_30(2), of "demo_os ''0''" "''mon0''"] by simp
  moreover have "\<not> (\<exists>y. block_until_started (demo_os ''1'') dec_lexcast ''mon0'' ''60'' (CephExecutor_new 0 ()) = Some y)"
    using block_until_started_ends [OF lexcast_30(2), of "demo_os ''1''" "''mon0''"] by simp
  ultimately show ?thesis by simp
qed

end
