(* ===== verification/Protocol.thy ===== *)
theory Protocol
  imports Scheduler_Invariants Disk_Executor Ceph_Executor
begin

text \<open>
  The messages between the scheduler and its executors: labels, data and messages that one
  side writes and the other side reads, and the status updates that the executors send and
  the state machine expects.
\<close>

section \<open>Labels\<close>

lemma c_str_keys [simp]:
  "c_str mgmtdevKey = mgmtdevKey" "c_str datadevKey = datadevKey" "c_str osddevsKey = osddevsKey"
  "c_str jnldevsKey = jnldevsKey" "c_str jnlPartitionCountKey = jnlPartitionCountKey"
  by (simp_all add: label_keys c_str_def NUL_def)

lemma keys_differ [simp]:
  "mgmtdevKey \<noteq> datadevKey" "mgmtdevKey \<noteq> osddevsKey" "mgmtdevKey \<noteq> jnldevsKey"
  "datadevKey \<noteq> mgmtdevKey" "datadevKey \<noteq> osddevsKey" "datadevKey \<noteq> jnldevsKey"
  "osddevsKey \<noteq> mgmtdevKey" "osddevsKey \<noteq> datadevKey" "osddevsKey \<noteq> jnldevsKey"
  "jnldevsKey \<noteq> mgmtdevKey" "jnldevsKey \<noteq> datadevKey" "jnldevsKey \<noteq> osddevsKey"
  "osddevsKey \<noteq> jnlPartitionCountKey" "jnldevsKey \<noteq> jnlPartitionCountKey"
  "jnlPartitionCountKey \<noteq> osddevsKey" "jnlPartitionCountKey \<noteq> jnldevsKey"
  by (simp_all add: label_keys)

lemma label_loop_osds:
  "label_loop L (map (\<lambda>d. (osddevsKey, d)) ds @ ls) x =
     label_loop L ls (x\<lparr>de_pendingOSDDevs := de_pendingOSDDevs x @ ds\<rparr>)"
  by (induction ds arbitrary: x) (simp_all add: Let_def)

lemma label_loop_jnls:
  "label_loop L (map (\<lambda>d. (jnldevsKey, d)) ds @ ls) x =
     label_loop L ls (x\<lparr>de_pendingJNLDevs := de_pendingJNLDevs x @ ds\<rparr>)"
  by (induction ds arbitrary: x) (simp_all add: Let_def)

lemma disk_labels_read:
  assumes "lexcast_ok (ae_lc E)" and "is_int32 (jnlPartsCount hc)"
  shows "addPendingDisks (ae_lc E) (disk_task E now offer cfg hc ip) x =
     Inr (True, x\<lparr>de_pendingOSDDevs := de_pendingOSDDevs x @ hc_pendingOSDDevs hc,
                   de_pendingJNLDevs := de_pendingJNLDevs x @ hc_pendingJNLDevs hc,
                   de_jnlPartitionCount := jnlPartsCount hc\<rparr>)"
proof -
  have "ti_labels (disk_task E now offer cfg hc ip) = Some (disk_labels (ae_lc E) hc)"
    by (simp add: disk_task_def Let_def)
  moreover have "label_loop (ae_lc E) (disk_labels (ae_lc E) hc) x =
      Inr (x\<lparr>de_pendingOSDDevs := de_pendingOSDDevs x @ hc_pendingOSDDevs hc,
              de_pendingJNLDevs := de_pendingJNLDevs x @ hc_pendingJNLDevs hc,
              de_jnlPartitionCount := jnlPartsCount hc\<rparr>)"
    using assms unfolding disk_labels_def label_loop_osds label_loop_jnls
    by (simp add: getJnlPartitionCount_def lexcast_strD)
  ultimately show ?thesis by (simp add: addPendingDisks_def disk_labels_def)
qed

lemma node_labels_read:
  assumes "addHostConfig ty h ag = (labels, ag')"
  shows "parseHostConfig (node_task E offer ty k ini role executor labels) x =
     (True, if ty = OSD
            then x\<lparr>x_mgmtNIC := getMgmtDev (getConfig (ag_sm ag) h), x_dataNIC := getDataDev (getConfig (ag_sm ag) h),
                   x_osddisk := fst (popOSDPartition (getConfig (ag_sm ag) h)),
                   x_jnldisk := fst (popJournalPartition (snd (popOSDPartition (getConfig (ag_sm ag) h))))\<rparr>
            else x\<lparr>x_mgmtNIC := getMgmtDev (getConfig (ag_sm ag) h), x_dataNIC := getDataDev (getConfig (ag_sm ag) h)\<rparr>)"
proof -
  have l: "ti_labels (node_task E offer ty k ini role executor labels) = Some labels"
    by (simp add: node_task_def Let_def)
  show ?thesis
    using assms by (auto simp: parseHostConfig_def l addHostConfig_def Let_def split: if_splits prod.splits)
qed

section \<open>Task data\<close>

lemma node_data_read:
  assumes "lexcast_ok (ae_lc E)" and "ini = 0 \<or> ini = 1"
  shows "task_data os (ae_lc E) indet (node_task E offer ty k ini role executor labels) x =
     Inr (ini = 0, taskType_int ty,
          if ini = 1 then deleteConfigDir os localConfigDirName x else x)"
proof -
  have d: "ti_data (node_task E offer ty k ini role executor labels) =
      Some (show_int ini @ CHR ''.'' # show_int (taskType_int ty))"
    using assms(1) by (simp add: node_task_def Let_def lexcast_strD)
  have nd: "CHR ''.'' \<notin> set (show_int n)" for n
    by (rule show_int_no_delim) (simp_all add: is_digit_def)
  have "explode (show_int ini @ CHR ''.'' # show_int (taskType_int ty)) CHR ''.'' = [show_int ini, show_int (taskType_int ty)]"
    by (simp add: explode_delim explode_single nd)
  then show ?thesis
    using assms by (auto simp: task_data_def lexcast_strD Let_def)
qed

section \<open>Messages\<close>

lemma show_int_no_dot [simp]: "CHR ''.'' \<notin> set (show_int n)"
  by (rule show_int_no_delim) (simp_all add: is_digit_def)

lemma launchOSD_message_read:
  assumes "lexcast_ok L"
  shows "x_frameworkMessage os L (launchOSD_message L i) x = launchOSD os L (show_int i) x"
proof -
  have "explode (launchOSD_message L i) CHR ''.'' = [show_int 21, show_int i]"
    using assms by (simp add: launchOSD_message_def lexcast_strD explode_delim explode_single del: show_int_small)
  moreover have "is_int32 21" by (simp add: is_int32_def)
  ultimately show ?thesis
    using assms by (simp add: x_frameworkMessage_def del: show_int_small)
qed

lemma registerOSD_message_read:
  assumes "lexcast_ok L" and "registerOSD os x = (out, x')"
  shows "x_frameworkMessage os L (lc_str L (toExecutor_int REGISTER_OSD)) x = Some (Inr (x_emit (SendMessage out) x'))"
proof -
  have "explode (lc_str L 20) CHR ''.'' = [show_int 20]"
    using assms(1) by (simp add: lexcast_strD explode_single del: show_int_small)
  moreover have "is_int32 20" by (simp add: is_int32_def)
  ultimately show ?thesis
    using assms by (simp add: x_frameworkMessage_def del: show_int_small)
qed

text \<open>The message of a running OSD is read without error and changes nothing else.\<close>

lemma consumed_message_read:
  assumes "lexcast_ok (ae_lc E)" and "osdId \<noteq> []" and "CHR ''.'' \<notin> set osdId"
  shows "statusUpdate E \<lparr>st_task_id = tid, st_state = TASK_RUNNING,
            st_message = Some (consumed_message (ae_lc E) osdId)\<rparr> ag = Inr (onSM (updateTaskToRunning tid) ag)"
proof -
  have "explode (consumed_message (ae_lc E) osdId) CHR ''.'' = [show_int 1, osdId]"
    using assms by (simp add: consumed_message_def lexcast_strD explode_delim explode_single del: show_int_small)
  moreover have "is_int32 1" by (simp add: is_int32_def)
  ultimately show ?thesis
    using assms(1) by (simp add: statusUpdate_def Let_def del: show_int_small)
qed

section \<open>DISK_READY\<close>

definition disk_ready_status :: "string \<Rightarrow> string \<Rightarrow> TaskStatus" where
  "disk_ready_status tid msg = \<lparr>st_task_id = tid, st_state = TASK_FINISHED, st_message = Some msg\<rparr>"

text \<open>What the scheduler makes of the message: all pending devices of the host become partitions.\<close>

definition disks_accepted :: "'y agent_env \<Rightarrow> string \<Rightarrow> agent \<Rightarrow> agent" where
  "disks_accepted E h ag =
     (let hc = getConfig (ag_sm ag) h
      in onSM (setConfig h (setDiskPreparationDone (updateDiskPartition (ae_lc E) [] (jnlPartsCount hc) hc))) ag)"

lemma statusUpdate_finished:
  assumes "lexcast_ok (ae_lc E)"
  shows "statusUpdate E (disk_ready_status tid (lc_str (ae_lc E) (toScheduler_int DISK_READY) @ ''.'' @ rest)) ag =
     bind_res (vec_at (explode rest CHR ''.'') 0) (\<lambda>s. diskReady E s ag)"
proof -
  have "explode (lc_str (ae_lc E) (toScheduler_int DISK_READY) @ ''.'' @ rest) CHR ''.'' = show_int 2 # explode rest CHR ''.''"
    using assms by (simp add: lexcast_strD explode_delim del: show_int_small)
  moreover have "is_int32 2" by (simp add: is_int32_def)
  ultimately show ?thesis
    using assms by (simp add: statusUpdate_def disk_ready_status_def Let_def del: show_int_small append.simps)
qed

definition plain_name :: "string \<Rightarrow> bool" where
  "plain_name h \<longleftrightarrow> h \<noteq> [] \<and> CHR ''.'' \<notin> set h \<and> CHR '':'' \<notin> set h"

lemma diskReady_read:
  assumes "plain_name h" and "devs \<noteq> []"
  shows "diskReady E (h @ '':'' @ devs) ag = Inr (disks_accepted E h ag)"
proof -
  have ex: "explode (h @ CHR '':'' # devs) CHR '':'' = h # explode devs CHR '':''"
    using assms(1) by (simp add: plain_name_def explode_delim)
  obtain l ls where "explode devs CHR '':'' = l # ls" using assms(2) by (cases "explode devs CHR '':''") auto
  then show ?thesis
    by (simp add: diskReady_def ex Let_def disks_accepted_def getJnlPartitionCount_def)
qed

definition failed_text :: "string list \<Rightarrow> string list \<Rightarrow> string" where
  "failed_text os js =
     (let tmp = concat (map (\<lambda>d. d @ '','') os) @ concat js @ (if js = [] then [] else '','')
      in if tmp = [] then ''-'' else tmp)"

lemma failed_text_nonempty [simp]: "failed_text os js \<noteq> []"
  by (simp add: failed_text_def Let_def)

lemma prepareReturnValue_text:
  "prepareReturnValue L x = lc_str L (toScheduler_int DISK_READY) @ ''.'' @
     (de_myHostname x @ '':'' @ failed_text (de_failedOSDDevs x) (de_failedJNLDevs x))"
  by (simp add: prepareReturnValue_eq failed_text_def)

lemma failed_text_no_dot:
  assumes "\<forall>d \<in> set os \<union> set js. CHR ''.'' \<notin> set d"
  shows "CHR ''.'' \<notin> set (failed_text os js)"
  using assms by (auto simp: failed_text_def Let_def)

lemma disk_ready_read:
  assumes "lexcast_ok (ae_lc E)" and "plain_name (de_myHostname x)"
    and "\<forall>d \<in> set (de_failedOSDDevs x) \<union> set (de_failedJNLDevs x). CHR ''.'' \<notin> set d"
  shows "statusUpdate E (disk_ready_status tid (prepareReturnValue (ae_lc E) x)) ag =
           Inr (disks_accepted E (de_myHostname x) ag)"
proof -
  let ?t = "de_myHostname x @ '':'' @ failed_text (de_failedOSDDevs x) (de_failedJNLDevs x)"
  have "CHR ''.'' \<notin> set ?t" using assms(2) failed_text_no_dot [OF assms(3)] by (simp add: plain_name_def)
  then have "explode ?t CHR ''.'' = [?t]" by (intro explode_single) simp_all
  then show ?thesis
    using diskReady_read [OF assms(2) failed_text_nonempty]
    unfolding prepareReturnValue_text statusUpdate_finished [OF assms(1)] by (simp del: append.simps)
qed

text \<open>A host name with a dot in it cuts the message short.\<close>

lemma disk_ready_fqdn:
  assumes "lexcast_ok (ae_lc E)" and "de_myHostname x = h @ ''.'' @ domain"
    and "CHR ''.'' \<notin> set h" and "CHR '':'' \<notin> set h"
  shows "statusUpdate E (disk_ready_status tid (prepareReturnValue (ae_lc E) x)) ag = Inl Out_Of_Range"
proof -
  let ?t = "de_myHostname x @ '':'' @ failed_text (de_failedOSDDevs x) (de_failedJNLDevs x)"
  have "vec_at (explode ?t CHR ''.'') 0 = Inr h"
    using assms(2,3) by (simp add: explode_delim)
  moreover have "diskReady E h ag = Inl Out_Of_Range"
    using assms(4) by (cases "h = []") (simp_all add: diskReady_def explode_single)
  ultimately show ?thesis
    unfolding prepareReturnValue_text statusUpdate_finished [OF assms(1)] by simp
qed

text \<open>From the labels of the disk task to the partitions in the scheduler's table.\<close>

lemma disk_pipeline:
  assumes "lexcast_ok (ae_lc E)" and "counts popen (ae_lc E) cnt" and "plain_name h"
    and "hc = getConfig (ag_sm ag) h" and "is_int32 (jnlPartsCount hc)" and "0 < jnlPartsCount hc"
    and "\<forall>d \<in> set (hc_pendingOSDDevs hc) \<union> set (hc_pendingJNLDevs hc). CHR ''.'' \<notin> set d"
  shows "\<exists>x' st. de_launchTask popen (ae_lc E) (disk_task E now offer cfg hc ip)
                    (de_registered h (DiskExecutor_new w)) = Inr x' \<and>
     de_sent x' = [st] \<and>
     st = disk_ready_status (ti_task_id (disk_task E now offer cfg hc ip)) (prepareReturnValue (ae_lc E) x') \<and>
     de_failedOSDDevs x' = filter (\<lambda>d. \<not> dev_ok cnt ''cephosddata'' 1 d) (hc_pendingOSDDevs hc) \<and>
     de_failedJNLDevs x' = filter (\<lambda>d. \<not> dev_ok cnt ''cephjnldata'' (jnlPartsCount hc) d) (hc_pendingJNLDevs hc) \<and>
     statusUpdate E st ag = Inr (disks_accepted E h ag)"
proof -
  let ?task = "disk_task E now offer cfg hc ip"
  let ?x0 = "de_registered h (DiskExecutor_new w)"
  let ?x1 = "?x0\<lparr>de_myTaskId := ti_task_id ?task, de_pendingOSDDevs := hc_pendingOSDDevs hc,
      de_pendingJNLDevs := hc_pendingJNLDevs hc, de_jnlPartitionCount := jnlPartsCount hc\<rparr>"
  have ap: "addPendingDisks (ae_lc E) ?task (?x0\<lparr>de_myTaskId := ti_task_id ?task\<rparr>) = Inr (True, ?x1)"
    using disk_labels_read [OF assms(1,5), of now offer cfg ip "?x0\<lparr>de_myTaskId := ti_task_id ?task\<rparr>"]
    by (simp add: de_registered_def DiskExecutor_new_def)
  have sel: "de_failedOSDDevs ?x1 = []" "de_failedJNLDevs ?x1 = []" "de_sent ?x1 = []" "de_myHostname ?x1 = h"
    by (simp_all add: de_registered_def DiskExecutor_new_def)
  have "0 < de_jnlPartitionCount ?x1" using assms(6) by simp
  from de_launchTask_sent [OF assms(2) ap this] obtain x' where
    x': "de_launchTask popen (ae_lc E) ?task ?x0 = Inr x'"
      "de_failedOSDDevs x' = filter (\<lambda>d. \<not> dev_ok cnt ''cephosddata'' 1 d) (hc_pendingOSDDevs hc)"
      "de_failedJNLDevs x' = filter (\<lambda>d. \<not> dev_ok cnt ''cephjnldata'' (jnlPartsCount hc) d) (hc_pendingJNLDevs hc)"
      "de_sent x' = [disk_ready_status (ti_task_id ?task) (prepareReturnValue (ae_lc E) x')]"
      "de_myHostname x' = h"
    unfolding sel by (auto simp: disk_ready_status_def)
  have "statusUpdate E (disk_ready_status (ti_task_id ?task) (prepareReturnValue (ae_lc E) x')) ag
      = Inr (disks_accepted E h ag)"
    using disk_ready_read [OF assms(1), of x'] assms(3,7) x'(2,3,5) by auto
  with x' show ?thesis by blast
qed

section \<open>Status updates\<close>

text \<open>
  The first status of a node is one the state machine expects of a staged task; the status of
  a launched OSD is one it expects of a starting task. This is what the invariant of the
  scheduler asks of the executors.
\<close>

lemma first_status_legal:
  assumes "lexcast_ok (ae_lc E)" and "ini = 0 \<or> ini = 1"
    and "x_launchTask os (ae_lc E) indet (node_task E offer ty k ini role executor labels) x = Some (Inr x')"
    and "map_of (taskMap s) (task_id_of E ty k offer) = Some t" "taskType t = ty" "currentStatus t = STAGING"
  shows "\<exists>st. statuses x' = statuses x @ [st] \<and> st_task_id st = task_id_of E ty k offer \<and> status_legal s st"
proof -
  have ty: "\<forall>y c ty' y'. task_data os (ae_lc E) indet (node_task E offer ty k ini role executor labels) y = Inr (c, ty', y')
      \<longrightarrow> ty' = taskType_int ty"
    by (simp add: node_data_read [OF assms(1,2)])
  from x_launchTask_status [OF assms(3) ty] obtain st where st: "st \<in> first_states (taskType_int ty)"
      "statuses x' = statuses x @ [\<lparr>st_task_id = task_id_of E ty k offer, st_state = st, st_message = None\<rparr>]"
    by auto
  then have "status_legal s \<lparr>st_task_id = task_id_of E ty k offer, st_state = st, st_message = None\<rparr>"
    using assms(4-6) by (cases ty) (auto simp: status_legal_def first_states_def split: if_splits)
  with st(2) show ?thesis by (intro exI conjI) (assumption | simp)+
qed

lemma launched_status_legal:
  assumes "x_frameworkMessage os L (launchOSD_message L i) x = Some (Inr x')" and "lexcast_ok L"
    and "map_of (taskMap s) (x_myTaskId x) = Some t" "taskType t = OSD" "currentStatus t = STARTING"
  shows "\<exists>st. statuses x' = statuses x @ [st] \<and> st_task_id st = x_myTaskId x \<and> status_legal s st"
  using launchOSD_status [of os L "show_int i" x x'] assms(1,3-5)
  unfolding launchOSD_message_read [OF assms(2)] by (auto simp: status_legal_def)

end
