(* ===== verification/Cluster_Model.thy ===== *)
theory Cluster_Model
  imports Scheduler_Regions Protocol
begin

text \<open>
  The scheduler together with its executors and the Mesos services between them, as one
  transition system without assumptions on the status updates (\<open>cluster_step\<close>). Mesos starts an
  executor for every task that was launched, delivers the status updates of a task in the order
  they were sent, and each framework message at most once, in any order or not at all; an
  executor may be lost at any time. \<open>chan_ok\<close> says what may be under way for one task, and
  \<open>cluster_inv\<close> puts it together with the task table.
\<close>

section \<open>State\<close>

datatype 'w xstate = Absent | Alive "'w ceph_exec" | Gone

text \<open>
  Executors are known by slave and executor id. \<open>cl_net\<close> holds the status updates under way, by
  task; \<open>cl_done\<close> the positions of the framework messages that were delivered; \<open>cl_replies\<close> the
  messages of the executors with the id of the sender.
\<close>

record 'w cluster =
  cl_ag :: agent
  cl_exec :: "string \<times> string \<Rightarrow> 'w xstate"
  cl_net :: "string \<Rightarrow> TaskStatus list"
  cl_done :: "nat set"
  cl_replies :: "(string \<times> string) list"

definition post :: "TaskStatus list \<Rightarrow> (string \<Rightarrow> TaskStatus list) \<Rightarrow> string \<Rightarrow> TaskStatus list" where
  "post sts net = (\<lambda>tid. net tid @ filter (\<lambda>st. st_task_id st = tid) sts)"

fun messages_of :: "effect list \<Rightarrow> string list" where
  "messages_of [] = []"
| "messages_of (SendMessage m # es) = m # messages_of es"
| "messages_of (_ # es) = messages_of es"

text \<open>An executor has gone from \<open>x\<close> to \<open>x'\<close>: what it sent goes on its way.\<close>

definition ran :: "string \<times> string \<Rightarrow> 'w ceph_exec \<Rightarrow> 'w ceph_exec \<Rightarrow> 'w xstate \<Rightarrow> 'w cluster \<Rightarrow> 'w cluster" where
  "ran key x x' X c =
     c\<lparr>cl_exec := (cl_exec c)(key := X),
       cl_net := post (drop (length (statuses x)) (statuses x')) (cl_net c),
       cl_replies := cl_replies c @ map (Pair (snd key))
         (messages_of (drop (length (x_trace x)) (x_trace x')))\<rparr>"

definition x_key :: "TaskInfo \<Rightarrow> string \<times> string" where
  "x_key task = (ti_slave_id task, ei_executor_id (ti_executor task))"

definition launched_task :: "'w cluster \<Rightarrow> TaskInfo \<Rightarrow> bool" where
  "launched_task c task \<longleftrightarrow> (\<exists>oid tasks. LaunchTasks oid tasks \<in> set (ag_driver (cl_ag c)) \<and> task \<in> set tasks)"

text \<open>States that Mesos reports by itself for a task whose executor or host is lost.\<close>

definition ends :: "TaskStatus \<Rightarrow> bool" where
  "ends st \<longleftrightarrow> st_state st \<noteq> TASK_RUNNING \<and> st_state st \<noteq> TASK_STARTING"

inductive cluster_step :: "'y agent_env \<Rightarrow> 'j json_lib \<Rightarrow> 'w cluster \<Rightarrow> 'w cluster \<Rightarrow> bool" for E J where
  offers: "resourceOffers E ty0 tok0 os (cl_ag c) = Inr ag' \<Longrightarrow> cluster_step E J c (c\<lparr>cl_ag := ag'\<rparr>)"
| request: "processData J data (ag_pendingOSD (cl_ag c)) = Inr p \<Longrightarrow>
     cluster_step E J c (c\<lparr>cl_ag := (cl_ag c)\<lparr>ag_pendingOSD := p\<rparr>\<rparr>)"
| status: "cl_net c tid = st # sts \<Longrightarrow> statusUpdate E st (cl_ag c) = Inr ag' \<Longrightarrow>
     cluster_step E J c (c\<lparr>cl_ag := ag', cl_net := (cl_net c)(tid := sts)\<rparr>)"
| reply: "cl_replies c = rs @ (eid, data) # rs' \<Longrightarrow> frameworkMessage E eid data (cl_ag c) = Inr ag' \<Longrightarrow>
     cluster_step E J c (c\<lparr>cl_ag := ag', cl_replies := rs @ rs'\<rparr>)"
| launch: "launched_task c task \<Longrightarrow> ei_command (ti_executor task) = ''./ceph-mesos-executor'' \<Longrightarrow>
     cl_exec c (x_key task) = Absent \<Longrightarrow> x = x_registered os host (CephExecutor_new pid w) \<Longrightarrow>
     x_launchTask os (ae_lc E) indet task x = Some (Inr x') \<Longrightarrow>
     cluster_step E J c (ran (x_key task) x x' (Alive x') c)"
| message: "i < length (ag_driver (cl_ag c)) \<Longrightarrow> i \<notin> cl_done c \<Longrightarrow>
     ag_driver (cl_ag c) ! i = SendFrameworkMessage eid sid data \<Longrightarrow> cl_exec c (sid, eid) = Alive x \<Longrightarrow>
     x_frameworkMessage os (ae_lc E) data x = Some (Inr x') \<Longrightarrow>
     cluster_step E J c (ran (sid, eid) x x' (Alive x') (c\<lparr>cl_done := insert i (cl_done c)\<rparr>))"
| shutdown: "cl_exec c key = Alive x \<Longrightarrow>
     cluster_step E J c (ran key x (x_shutdown os x) Gone c)"
| disk: "launched_task c task \<Longrightarrow> ei_command (ti_executor task) = ''./ceph-mesos-disk-executor'' \<Longrightarrow>
     cl_exec c (x_key task) = Absent \<Longrightarrow>
     de_launchTask (popen :: 'w popen) (ae_lc E) task (de_registered host (DiskExecutor_new w)) = Inr y \<Longrightarrow>
     cluster_step E J c (c\<lparr>cl_exec := (cl_exec c)(x_key task := Gone), cl_net := post (de_sent y) (cl_net c)\<rparr>)"
| lost: "launched_task c task \<Longrightarrow> cl_exec c (x_key task) \<noteq> Gone \<Longrightarrow>
     ends st \<Longrightarrow> st_task_id st = ti_task_id task \<Longrightarrow>
     cluster_step E J c (c\<lparr>cl_exec := (cl_exec c)(x_key task := Gone), cl_net := post [st] (cl_net c)\<rparr>)"

definition cluster_init :: "'w cluster \<Rightarrow> bool" where
  "cluster_init c \<longleftrightarrow> agent_init (cl_ag c) \<and> cl_exec c = (\<lambda>_. Absent) \<and> cl_net c = (\<lambda>_. []) \<and>
     cl_done c = {} \<and> cl_replies c = []"

section \<open>Channels\<close>

text \<open>The status the scheduler expects next of a task; those in \<open>ends\<close> are always accepted.\<close>

definition fits :: "TaskState \<Rightarrow> TaskStatus \<Rightarrow> bool" where
  "fits t st \<longleftrightarrow>
     (st_state st = TASK_RUNNING \<longrightarrow> currentStatus t = (if taskType t = OSD then STARTING else STAGING)) \<and>
     (st_state st = TASK_STARTING \<longrightarrow> taskType t = OSD \<and> currentStatus t = STAGING)"

lemma ends_fits: "ends st \<Longrightarrow> fits t st"
  by (simp add: ends_def fits_def)

text \<open>
  What is under way for one task: its status updates \<open>q\<close>, its executor \<open>X\<close> and the positions \<open>P\<close>
  of the \<open>LAUNCH_OSD\<close> messages not yet delivered.
\<close>

definition queue_ok :: "TaskState \<Rightarrow> TaskStatus list \<Rightarrow> bool" where
  "queue_ok t q \<longleftrightarrow> q = [] \<or> fits t (hd q) \<and> (\<forall>u \<in> set (tl q). ends u)"

text \<open>The executor has asked for its OSD id and the scheduler does not know yet.\<close>

definition asks :: "TaskStatus list \<Rightarrow> bool" where
  "asks q \<longleftrightarrow> q \<noteq> [] \<and> st_state (hd q) = TASK_STARTING"

definition alive_ok :: "TaskStatus list \<Rightarrow> nat set \<Rightarrow> string \<Rightarrow> TaskState \<Rightarrow> 'w ceph_exec \<Rightarrow> bool" where
  "alive_ok q P tid t x \<longleftrightarrow>
     (currentStatus t = WAITING_OSDID \<or> asks q \<or> P \<noteq> {} \<longrightarrow> x_myTaskId x = tid) \<and>
     (currentStatus t = WAITING_OSDID \<longrightarrow> q = []) \<and>
     (asks q \<longrightarrow> tl q = []) \<and>
     (P \<noteq> {} \<longrightarrow> currentStatus t = STARTING \<and> q = []) \<and>
     (\<forall>i \<in> P. \<forall>j \<in> P. i = j)"

definition chan_ok :: "TaskStatus list \<Rightarrow> 'w xstate \<Rightarrow> nat set \<Rightarrow> string \<Rightarrow> TaskState \<Rightarrow> bool" where
  "chan_ok q X P tid t \<longleftrightarrow> queue_ok t q \<and>
     (case X of
        Absent \<Rightarrow> currentStatus t = STAGING \<and> q = [] \<and> P = {}
      | Alive x \<Rightarrow> alive_ok q P tid t x
      | Gone \<Rightarrow> True)"

lemma queue_ok_Nil [simp]: "queue_ok t []"
  by (simp add: queue_ok_def)

lemma asks_Nil [simp]: "\<not> asks []"
  by (simp add: asks_def)

lemma queue_ok_snoc: "queue_ok t q \<Longrightarrow> ends u \<Longrightarrow> queue_ok t (q @ [u])"
  by (cases q) (auto simp: queue_ok_def ends_fits)

lemma chan_ok_simps [simp]:
  "chan_ok q Absent P tid t \<longleftrightarrow> currentStatus t = STAGING \<and> q = [] \<and> P = {}"
  "chan_ok q (Alive x) P tid t \<longleftrightarrow> queue_ok t q \<and> alive_ok q P tid t x"
  "chan_ok q Gone P tid t \<longleftrightarrow> queue_ok t q"
  by (auto simp: chan_ok_def)

lemma chan_ok_queue: "chan_ok q X P tid t \<Longrightarrow> queue_ok t q"
  by (simp add: chan_ok_def)

text \<open>The scheduler takes the first status of the queue.\<close>

lemma queue_ok_delivered: "queue_ok t (st # q) \<Longrightarrow> queue_ok t' q \<and> \<not> asks q"
  by (cases q) (auto simp: queue_ok_def asks_def ends_def fits_def)

lemma chan_ok_delivered:
  assumes "chan_ok (st # q) X P tid t"
    and "currentStatus t' = WAITING_OSDID \<Longrightarrow> st_state st = TASK_STARTING \<or> currentStatus t = WAITING_OSDID"
  shows "chan_ok q X P tid t'"
proof (cases X)
  case (Alive x)
  have a: "asks (st # q) \<longleftrightarrow> st_state st = TASK_STARTING" by (simp add: asks_def)
  have "P = {}" using assms(1) Alive by (auto simp: alive_ok_def)
  moreover have "currentStatus t' = WAITING_OSDID \<Longrightarrow> x_myTaskId x = tid \<and> q = []"
    using assms Alive a by (auto simp: alive_ok_def)
  ultimately show ?thesis
    using queue_ok_delivered [OF chan_ok_queue [OF assms(1)], of t'] Alive by (auto simp: alive_ok_def)
qed (use assms(1) queue_ok_delivered [OF chan_ok_queue [OF assms(1)], of t'] in auto)

text \<open>The scheduler gives the task an OSD id and sends it the message at position \<open>i\<close>.\<close>

lemma chan_ok_id_given:
  assumes "chan_ok q X P tid t" and "currentStatus t = WAITING_OSDID" and "currentStatus t' = STARTING"
  shows "chan_ok q X (insert i P) tid t'"
proof (cases X)
  case (Alive x)
  then have "q = []" "P = {}" "x_myTaskId x = tid" using assms(1,2) by (auto simp: alive_ok_def)
  with Alive assms(3) show ?thesis by (simp add: alive_ok_def)
next
  case Gone
  have "queue_ok t' q"
    using assms by (cases "taskType t = OSD") (auto simp: Gone queue_ok_def fits_def)
  with Gone show ?thesis by simp
qed (use assms in simp)

text \<open>The executor starts with the task, and reports its first status.\<close>

lemma chan_ok_launched:
  assumes "chan_ok q Absent P tid t" and "fits t st"
    and "st_state st = TASK_STARTING \<Longrightarrow> x_myTaskId x = tid"
  shows "chan_ok (q @ [st]) (Alive x) P tid t"
  using assms by (auto simp: queue_ok_def alive_ok_def asks_def)

text \<open>The executor gets the message at position \<open>i\<close>, and reports the result.\<close>

lemma chan_ok_started:
  assumes "chan_ok q (Alive x) P tid t" and "i \<in> P" and "taskType t = OSD"
    and "st_state st \<noteq> TASK_STARTING"
  shows "chan_ok (q @ [st]) (Alive x') (P - {i}) tid t" and "x_myTaskId x = tid"
proof -
  have *: "q = []" "currentStatus t = STARTING" "x_myTaskId x = tid" "P - {i} = {}"
    using assms(1,2) by (auto simp: alive_ok_def)
  show "x_myTaskId x = tid" by (rule *)
  show "chan_ok (q @ [st]) (Alive x') (P - {i}) tid t"
    unfolding *(1,4) using *(2) assms(3,4) by (simp add: queue_ok_def fits_def alive_ok_def asks_def)
qed

lemma chan_ok_smaller:
  assumes "chan_ok q X P tid t" and "P' \<subseteq> P"
  shows "chan_ok q X P' tid t"
proof (cases X)
  case (Alive x)
  have "P' \<noteq> {} \<Longrightarrow> P \<noteq> {}" using assms(2) by blast
  then show ?thesis using assms Alive by (auto simp: alive_ok_def)
qed (use assms in auto)

lemma chan_ok_same_id:
  assumes "chan_ok q (Alive x) P tid t" and "x_myTaskId x' = x_myTaskId x"
  shows "chan_ok q (Alive x') P tid t"
  using assms by (simp add: alive_ok_def)

lemma chan_ok_lost:
  assumes "chan_ok q X P tid t" and "ends st"
  shows "chan_ok (q @ [st]) Gone P' tid t"
  using queue_ok_snoc [OF chan_ok_queue [OF assms(1)] assms(2)] by simp

section \<open>Names of executors\<close>

lemma dot_delim [simp]: "\<not> is_digit CHR ''.''"
  by (simp add: is_digit_def)

lemma executor_id_of_eqD:
  assumes "lexcast_ok (ae_lc E)" and "executor_id_of E ty j now = executor_id_of E ty' j' now'"
  shows "ty = ty' \<and> j = j'"
proof -
  have nd: "CHR ''.'' \<notin> set (show_int n)" for n by (rule show_int_no_delim) simp_all
  have eq: "executor_id_of E ty j now = ''ceph-mesos-executor.'' @ show_int (taskType_int ty) @ CHR ''.'' # (show_int j @ CHR ''.'' # show_int now)"
    for ty j now using assms(1) by (simp add: executor_id_of_def lexcast_strD)
  have "show_int (taskType_int ty) = show_int (taskType_int ty') \<and>
      show_int j @ CHR ''.'' # show_int now = show_int j' @ CHR ''.'' # show_int now'"
    using append_delim_eqD [OF _ nd nd] assms(2) unfolding eq by simp
  moreover from this have "show_int j = show_int j'" using append_delim_eqD [OF _ nd nd] by blast
  ultimately have "taskType_int ty = taskType_int ty' \<and> j = j'" by simp
  then show ?thesis by (cases ty; cases ty') simp_all
qed

lemma executor_id_not_disk: "\<not> disk_named (executor_id_of E ty j now)"
  by (simp add: disk_named_def executor_id_of_def)

lemma task_id_not_disk: "\<not> disk_named (task_id_of E ty j offer)" "task_id_of E ty j offer \<noteq> []"
  by (cases ty; simp add: disk_named_def task_id_of_def createTaskName_def)+

lemma launch_not_register:
  assumes "lexcast_ok L"
  shows "launchOSD_message L n \<noteq> lc_str L (toExecutor_int REGISTER_OSD)"
  using assms by (simp add: launchOSD_message_def lexcast_strD)

section \<open>Invariant\<close>

text \<open>Executor ids are numbered like the tasks, so no two tasks share one.\<close>

definition eids_ok :: "'y agent_env \<Rightarrow> StateMachine \<Rightarrow> bool" where
  "eids_ok E s \<longleftrightarrow>
     (\<forall>k t. map_of (taskMap s) k = Some t \<longrightarrow>
        (\<exists>j now. executorId t = executor_id_of E (taskType t) j now \<and> j < indexNum (taskType t) s)) \<and>
     (\<forall>k k' t t'. map_of (taskMap s) k = Some t \<longrightarrow> map_of (taskMap s) k' = Some t' \<longrightarrow>
        executorId t = executorId t' \<longrightarrow> k = k')"

definition has_entry :: "StateMachine \<Rightarrow> string \<Rightarrow> string \<Rightarrow> bool" where
  "has_entry s sid eid \<longleftrightarrow> (\<exists>k t. map_of (taskMap s) k = Some t \<and> slaveId t = sid \<and> executorId t = eid)"

definition node_launch :: "'y agent_env \<Rightarrow> StateMachine \<Rightarrow> TaskInfo \<Rightarrow> bool" where
  "node_launch E s task \<longleftrightarrow>
     ei_command (ti_executor task) = ''./ceph-mesos-executor'' \<and>
     (\<exists>t offer k ini role executor labels.
        task = node_task E offer (taskType t) k ini role executor labels \<and> (ini = 0 \<or> ini = 1) \<and>
        map_of (taskMap s) (ti_task_id task) = Some t \<and> x_key task = (slaveId t, executorId t))"

text \<open>What the scheduler has said to Mesos, in terms of its task table.\<close>

fun call_ok :: "'y agent_env \<Rightarrow> StateMachine \<Rightarrow> driver_call \<Rightarrow> bool" where
  "call_ok E s (LaunchTasks oid tasks) \<longleftrightarrow> (\<forall>task \<in> set tasks. disk_launch task \<or> node_launch E s task)"
| "call_ok E s (SendFrameworkMessage eid sid data) \<longleftrightarrow>
     data = lc_str (ae_lc E) (toExecutor_int REGISTER_OSD) \<or>
     (\<exists>n. data = launchOSD_message (ae_lc E) n) \<and> has_entry s sid eid"
| "call_ok E s _ \<longleftrightarrow> True"

definition launch_to :: "'y agent_env \<Rightarrow> TaskState \<Rightarrow> driver_call \<Rightarrow> bool" where
  "launch_to E t c \<longleftrightarrow>
     (\<exists>n. c = SendFrameworkMessage (executorId t) (slaveId t) (launchOSD_message (ae_lc E) n))"

definition launch_msgs :: "'y agent_env \<Rightarrow> driver_call list \<Rightarrow> nat set \<Rightarrow> TaskState \<Rightarrow> nat set" where
  "launch_msgs E calls dn t = {i. i < length calls \<and> i \<notin> dn \<and> launch_to E t (calls ! i)}"

definition world_ok ::
  "'y agent_env \<Rightarrow> (string \<times> string \<Rightarrow> 'w xstate) \<Rightarrow> (string \<Rightarrow> TaskStatus list) \<Rightarrow> nat set \<Rightarrow> agent \<Rightarrow> bool" where
  "world_ok E exec net dn ag \<longleftrightarrow>
     agent_inv E ag \<and> eids_ok E (ag_sm ag) \<and>
     (\<forall>c \<in> set (ag_driver ag). call_ok E (ag_sm ag) c) \<and>
     dn \<subseteq> {..<length (ag_driver ag)} \<and>
     (\<forall>tid. \<forall>st \<in> set (net tid). st_task_id st = tid) \<and>
     (\<forall>tid. net tid \<noteq> [] \<longrightarrow> tid \<in> dom (map_of (taskMap (ag_sm ag))) \<or> disk_named tid \<or> tid = []) \<and>
     (\<forall>sid eid. exec (sid, eid) \<noteq> Absent \<longrightarrow> disk_named eid \<or> has_entry (ag_sm ag) sid eid) \<and>
     (\<forall>sid eid x. exec (sid, eid) = Alive x \<longrightarrow> x_myTaskId x = [] \<or>
        (\<exists>t. map_of (taskMap (ag_sm ag)) (x_myTaskId x) = Some t \<and> slaveId t = sid \<and> executorId t = eid)) \<and>
     (\<forall>tid t. map_of (taskMap (ag_sm ag)) tid = Some t \<longrightarrow>
        chan_ok (net tid) (exec (slaveId t, executorId t)) (launch_msgs E (ag_driver ag) dn t) tid t)"

definition cluster_inv :: "'y agent_env \<Rightarrow> 'w cluster \<Rightarrow> bool" where
  "cluster_inv E c \<longleftrightarrow> world_ok E (cl_exec c) (cl_net c) (cl_done c) (cl_ag c)"

lemma launch_msgs_append:
  assumes "\<forall>c \<in> set cs. \<not> launch_to E t c"
  shows "launch_msgs E (calls @ cs) dn t = launch_msgs E calls dn t"
proof (rule set_eqI)
  fix i
  show "i \<in> launch_msgs E (calls @ cs) dn t \<longleftrightarrow> i \<in> launch_msgs E calls dn t"
  proof (cases "i < length calls")
    case False
    then have "\<not> launch_to E t ((calls @ cs) ! i)" if "i < length (calls @ cs)"
      using assms that nth_mem [of "i - length calls" cs] by (auto simp: nth_append)
    with False show ?thesis by (auto simp: launch_msgs_def)
  qed (simp add: launch_msgs_def nth_append)
qed

lemma launch_msgs_done: "dn \<subseteq> dn' \<Longrightarrow> launch_msgs E calls dn' t \<subseteq> launch_msgs E calls dn t"
  by (auto simp: launch_msgs_def)

lemma launch_msgs_status [simp]:
  "launch_msgs E calls dn (t\<lparr>currentStatus := st\<rparr>) = launch_msgs E calls dn t"
  by (simp add: launch_msgs_def launch_to_def)

lemma has_entryI: "map_of (taskMap s) k = Some t \<Longrightarrow> has_entry s (slaveId t) (executorId t)"
  by (auto simp: has_entry_def)

text \<open>Entries keep everything but their status, so what was said stays true.\<close>

lemma has_entry_kept: "tasks_kept s s' \<Longrightarrow> has_entry s sid eid \<Longrightarrow> has_entry s' sid eid"
  unfolding has_entry_def tasks_kept_def by fastforce

lemma node_launch_kept:
  assumes "tasks_kept s s'" and "node_launch E s task"
  shows "node_launch E s' task"
proof -
  from assms(2) obtain t offer k ini role executor labels where
    *: "ei_command (ti_executor task) = ''./ceph-mesos-executor''"
      "task = node_task E offer (taskType t) k ini role executor labels" "ini = 0 \<or> ini = 1"
      "map_of (taskMap s) (ti_task_id task) = Some t" "x_key task = (slaveId t, executorId t)"
    unfolding node_launch_def by blast
  from assms(1) *(4) obtain st where "map_of (taskMap s') (ti_task_id task) = Some (t\<lparr>currentStatus := st\<rparr>)"
    unfolding tasks_kept_def by blast
  with * show ?thesis
    unfolding node_launch_def by (intro conjI exI [of _ "t\<lparr>currentStatus := st\<rparr>"] exI) auto
qed

lemma call_ok_kept: "tasks_kept s s' \<Longrightarrow> call_ok E s c \<Longrightarrow> call_ok E s' c"
  by (cases c) (auto dest: node_launch_kept has_entry_kept)

lemma eids_ok_kept:
  assumes "eids_ok E s" and "tasks_kept s s'" and "dom (map_of (taskMap s')) \<subseteq> dom (map_of (taskMap s))"
    and "\<forall>ty. indexNum ty s \<le> indexNum ty s'"
  shows "eids_ok E s'"
proof -
  have old: "\<exists>t. map_of (taskMap s) k = Some t \<and> taskType t = taskType t' \<and> executorId t = executorId t'"
    if k: "map_of (taskMap s') k = Some t'" for k t'
  proof -
    obtain t where t: "map_of (taskMap s) k = Some t" using assms(3) k by blast
    then obtain st where "map_of (taskMap s') k = Some (t\<lparr>currentStatus := st\<rparr>)"
      using assms(2) unfolding tasks_kept_def by blast
    with t k show ?thesis by auto
  qed
  have "\<exists>j now. executorId t' = executor_id_of E (taskType t') j now \<and> j < indexNum (taskType t') s'"
    if "map_of (taskMap s') k = Some t'" for k t'
    using old [OF that] assms(1,4) unfolding eids_ok_def by (metis order_less_le_trans)
  moreover have "k = k'" if "map_of (taskMap s') k = Some t" "map_of (taskMap s') k' = Some t'"
      "executorId t = executorId t'" for k k' t t'
    using old [OF that(1)] old [OF that(2)] that(3) assms(1) unfolding eids_ok_def by metis
  ultimately show ?thesis unfolding eids_ok_def by blast
qed

end
