(* ===== verification/Cluster_Refinement.thy ===== *)
theory Cluster_Refinement
  imports Cluster_Model
begin

text \<open>
  Every step of the closed system keeps \<open>cluster_inv\<close>, one lemma per step. So every status update
  that the scheduler receives is one it expects, and the closed system refines the step relation
  of the scheduler.
\<close>

section \<open>Steps of the scheduler\<close>

lemma world_okD:
  assumes "world_ok E exec net dn ag"
  shows "agent_inv E ag" "eids_ok E (ag_sm ag)" "\<forall>c \<in> set (ag_driver ag). call_ok E (ag_sm ag) c"
    "dn \<subseteq> {..<length (ag_driver ag)}" "\<forall>tid. \<forall>st \<in> set (net tid). st_task_id st = tid"
    "map_of (taskMap (ag_sm ag)) tid = Some t \<Longrightarrow>
       chan_ok (net tid) (exec (slaveId t, executorId t)) (launch_msgs E (ag_driver ag) dn t) tid t"
    "net tid \<noteq> [] \<Longrightarrow> tid \<in> dom (map_of (taskMap (ag_sm ag))) \<or> disk_named tid \<or> tid = []"
    "exec (sid, eid) \<noteq> Absent \<Longrightarrow> disk_named eid \<or> has_entry (ag_sm ag) sid eid"
    "exec (sid, eid) = Alive x \<Longrightarrow> x_myTaskId x = [] \<or>
       (\<exists>t. map_of (taskMap (ag_sm ag)) (x_myTaskId x) = Some t \<and> slaveId t = sid \<and> executorId t = eid)"
  using assms unfolding world_ok_def by blast+

text \<open>The scheduler moves; the executors and the status updates under way stay, but for those it took.\<close>

lemma world_agent:
  assumes w: "world_ok E exec net dn ag" and "agent_inv E ag'" and "eids_ok E (ag_sm ag')"
    and kept: "tasks_kept (ag_sm ag) (ag_sm ag')" and calls: "ag_driver ag' = ag_driver ag @ cs"
    and "\<forall>c \<in> set cs. call_ok E (ag_sm ag') c" and net: "\<forall>tid. set (net' tid) \<subseteq> set (net tid)"
    and "\<And>tid t. map_of (taskMap (ag_sm ag')) tid = Some t \<Longrightarrow>
      chan_ok (net' tid) (exec (slaveId t, executorId t)) (launch_msgs E (ag_driver ag') dn t) tid t"
  shows "world_ok E exec net' dn ag'"
proof -
  note d = world_okD [OF w]
  have dom: "dom (map_of (taskMap (ag_sm ag))) \<subseteq> dom (map_of (taskMap (ag_sm ag')))"
    using kept unfolding tasks_kept_def by fastforce
  have ne: "\<forall>tid. net' tid \<noteq> [] \<longrightarrow> net tid \<noteq> []" using net by (metis set_empty subset_empty)
  have entry: "\<exists>t. map_of (taskMap (ag_sm ag')) k = Some t \<and> slaveId t = sid \<and> executorId t = eid"
    if "map_of (taskMap (ag_sm ag)) k = Some t" "slaveId t = sid" "executorId t = eid" for k t sid eid
    using kept that unfolding tasks_kept_def by fastforce
  have "\<forall>c \<in> set (ag_driver ag'). call_ok E (ag_sm ag') c"
    using d(3) assms(6) calls call_ok_kept [OF kept] by auto
  moreover have "dn \<subseteq> {..<length (ag_driver ag')}" using d(4) calls by auto
  moreover have "\<forall>tid. \<forall>st \<in> set (net' tid). st_task_id st = tid" using d(5) net by blast
  moreover have "x_myTaskId x = [] \<or>
      (\<exists>t. map_of (taskMap (ag_sm ag')) (x_myTaskId x) = Some t \<and> slaveId t = sid \<and> executorId t = eid)"
    if "exec (sid, eid) = Alive x" for sid eid x
    using d(9) [OF that] entry by blast
  moreover have "disk_named eid \<or> has_entry (ag_sm ag') sid eid" if "exec (sid, eid) \<noteq> Absent" for sid eid
    using d(8) [OF that] has_entry_kept [OF kept] by blast
  moreover have "tid \<in> dom (map_of (taskMap (ag_sm ag'))) \<or> disk_named tid \<or> tid = []"
    if "net' tid \<noteq> []" for tid
    using d(7) ne that dom by blast
  ultimately show ?thesis
    unfolding world_ok_def using assms(2,3,8) by blast
qed

text \<open>Steps that leave the task table alone and send nothing to an executor.\<close>

lemma world_quiet:
  assumes w: "world_ok E exec net dn ag" and "agent_inv E ag'"
    and tm: "taskMap (ag_sm ag') = taskMap (ag_sm ag)"
    and "\<forall>ty. indexNum ty (ag_sm ag) \<le> indexNum ty (ag_sm ag')"
    and calls: "ag_driver ag' = ag_driver ag @ cs" and cs: "\<forall>c \<in> set cs. disk_call c"
  shows "world_ok E exec net dn ag'"
proof (rule world_agent [OF w assms(2) _ tasks_kept_eq [OF tm] calls])
  show "eids_ok E (ag_sm ag')"
    by (rule eids_ok_kept [OF world_okD(2) [OF w] tasks_kept_eq [OF tm]]) (use assms(4) tm in auto)
  show "\<forall>c \<in> set cs. call_ok E (ag_sm ag') c"
  proof
    fix c assume "c \<in> set cs"
    with cs show "call_ok E (ag_sm ag') c" by (cases c) auto
  qed
  have none: "\<forall>c \<in> set cs. \<not> launch_to E t c" for t
  proof
    fix c assume "c \<in> set cs"
    with cs show "\<not> launch_to E t c" by (cases c) (auto simp: launch_to_def)
  qed
  show "chan_ok (net tid) (exec (slaveId t, executorId t)) (launch_msgs E (ag_driver ag') dn t) tid t"
    if "map_of (taskMap (ag_sm ag')) tid = Some t" for tid t
    using world_okD(6) [OF w] that unfolding tm calls launch_msgs_append [OF none] by blast
qed simp

subsection \<open>handleWaitingOSDTasks\<close>

lemma waiting_entry:
  assumes "sm_inv s" and "map_order_ok iter" and "t \<in> set (getWaitingOSDTask iter s)"
  shows "map_of (taskMap s) (taskId t) = Some t" and "taskType t = OSD" and "currentStatus t = WAITING_OSDID"
proof -
  have "set (iter (taskMap s)) = set (taskMap s)"
    using assms(2) unfolding map_order_ok_def by (metis set_mset_mset)
  then obtain k where k: "(k, t) \<in> set (taskMap s)" and t: "taskType t = OSD" "currentStatus t = WAITING_OSDID"
    using assms(3) by (auto simp: getWaitingOSDTask_def)
  have "map_of (taskMap s) k = Some t" using k assms(1) by (auto simp: sm_inv_def)
  with assms(1) t show "map_of (taskMap s) (taskId t) = Some t" "taskType t = OSD" "currentStatus t = WAITING_OSDID"
    by (auto simp: sm_inv_def)
qed

lemma waiting_distinct:
  assumes "sm_inv s" and "map_order_ok iter"
  shows "distinct (map taskId (getWaitingOSDTask iter s))"
proof -
  have ms: "mset (iter (taskMap s)) = mset (taskMap s)" using assms(2) by (simp add: map_order_ok_def)
  have "mset (map fst (iter (taskMap s))) = mset (map fst (taskMap s))" using ms by simp
  then have "distinct (map fst (iter (taskMap s)))"
    using assms(1) by (metis mset_eq_imp_distinct_iff sm_inv_def)
  moreover have "taskId t = k" if "(k, t) \<in> set (iter (taskMap s))" for k t
  proof -
    have "(k, t) \<in> set (taskMap s)" using that ms by (metis set_mset_mset)
    then have "map_of (taskMap s) k = Some t" using assms(1) by (auto simp: sm_inv_def)
    then show ?thesis using assms(1) by (auto simp: sm_inv_def)
  qed
  then have "map taskId (map snd (iter (taskMap s))) = map fst (iter (taskMap s))" by auto
  ultimately have "distinct (map taskId (map snd (iter (taskMap s))))" by (simp only:)
  then show ?thesis
    unfolding getWaitingOSDTask_def by (simp only: distinct_map_filter)
qed

lemma launch_calls_nth:
  "i < length (launch_calls L ts ids) \<Longrightarrow>
   launch_calls L ts ids ! i =
     SendFrameworkMessage (executorId (ts ! i)) (slaveId (ts ! i)) (launchOSD_message L (rev ids ! i)) \<and>
   i < length ts \<and> i < length ids"
  by (simp add: launch_calls_def)

lemma world_waiting:
  assumes w: "world_ok E exec net dn ag" and env: "env_ok E"
  shows "world_ok E exec net dn (handleWaitingOSDTasks E ag)"
proof -
  let ?ag = "handleWaitingOSDTasks E ag" and ?s = "ag_sm ag"
  define ts where "ts = getWaitingOSDTask (ae_iter E) ?s"
  define ids where "ids = pendingOSDID ?s"
  let ?cs = "launch_calls (ae_lc E) ts ids"
  note d = world_okD [OF w]
  have inv: "sm_inv ?s" using d(1) by (simp add: agent_inv_def core_inv_def)
  have iter: "map_order_ok (ae_iter E)" using env by (simp add: env_ok_def)
  note entry = waiting_entry [OF inv iter]
  have calls: "ag_driver ?ag = ag_driver ag @ ?cs"
    and tm: "\<And>k. map_of (taskMap (ag_sm ?ag)) k =
      (if k \<in> taskId ` set (take (length ids) ts)
       then map_option (currentStatus_update (\<lambda>_. STARTING)) (map_of (taskMap ?s) k) else map_of (taskMap ?s) k)"
    using waiting_loop_spec [of "ae_lc E" ts ag] by (simp_all add: handleWaitingOSDTasks_def ts_def ids_def)
  have kept: "tasks_kept ?s (ag_sm ?ag)" by (simp add: handleWaitingOSDTasks_def waiting_loop_kept)
  have same: "ts ! m = t" if "m < length ts" "map_of (taskMap ?s) k = Some t" "executorId (ts ! m) = executorId t" for m k t
    using entry(1) [of "ts ! m"] d(2) that unfolding ts_def eids_ok_def by (metis nth_mem option.inject)
  show ?thesis
  proof (rule world_agent [OF w agent_inv_handleWaiting [OF env d(1)] _ kept calls])
    show "eids_ok E (ag_sm ?ag)"
      by (rule eids_ok_kept [OF d(2) kept]) (auto simp: tm split: if_splits)
    show "\<forall>c \<in> set ?cs. call_ok E (ag_sm ?ag) c"
    proof
      fix c assume "c \<in> set ?cs"
      then obtain t i where t: "t \<in> set ts" and c: "c = SendFrameworkMessage (executorId t) (slaveId t) (launchOSD_message (ae_lc E) i)"
        by (auto simp: launch_calls_def dest!: set_zip_leftD)
      have "has_entry ?s (slaveId t) (executorId t)" using has_entryI [OF entry(1)] t unfolding ts_def by blast
      with c show "call_ok E (ag_sm ?ag) c" using has_entry_kept [OF kept] by auto
    qed
  next
    fix tid t' assume t': "map_of (taskMap (ag_sm ?ag)) tid = Some t'"
    have none: "launch_to E t (?cs ! m) \<Longrightarrow> m < length ?cs \<Longrightarrow> map_of (taskMap ?s) k = Some t \<Longrightarrow> ts ! m = t" for k t m
      using same launch_calls_nth [of m "ae_lc E" ts ids] by (fastforce simp: launch_to_def)
    show "chan_ok (net tid) (exec (slaveId t', executorId t')) (launch_msgs E (ag_driver ?ag) dn t') tid t'"
    proof (cases "tid \<in> taskId ` set (take (length ids) ts)")
      case True
      then obtain t where t: "t \<in> set ts" "tid = taskId t" by (auto dest: in_set_takeD)
      note e = entry [OF t(1) [unfolded ts_def]]
      have t'_eq: "t' = t\<lparr>currentStatus := STARTING\<rparr>" using t' True t(2) e(1) by (simp add: tm)
      have "launch_msgs E (ag_driver ?ag) dn t \<subseteq> insert (length (ag_driver ag) + m) (launch_msgs E (ag_driver ag) dn t)"
        if m: "m < length ts" "ts ! m = t" for m
      proof
        fix i assume i: "i \<in> launch_msgs E (ag_driver ?ag) dn t"
        show "i \<in> insert (length (ag_driver ag) + m) (launch_msgs E (ag_driver ag) dn t)"
        proof (cases "i < length (ag_driver ag)")
          case False
          then have lt: "launch_to E t (?cs ! (i - length (ag_driver ag)))" "i - length (ag_driver ag) < length ?cs"
            using i by (auto simp: launch_msgs_def calls nth_append)
          then have "ts ! (i - length (ag_driver ag)) = t" "i - length (ag_driver ag) < length ts"
            using none e(1) launch_calls_nth by blast+
          then have "i - length (ag_driver ag) = m"
            using waiting_distinct [OF inv iter] m by (auto simp: ts_def distinct_map nth_eq_iff_index_eq)
          with False have "i = length (ag_driver ag) + m" by linarith
          then show ?thesis by simp
        qed (use i in \<open>auto simp: launch_msgs_def calls nth_append\<close>)
      qed
      moreover obtain m where "m < length ts" "ts ! m = t" using t(1) by (auto simp: in_set_conv_nth)
      ultimately have "launch_msgs E (ag_driver ?ag) dn t \<subseteq>
          insert (length (ag_driver ag) + m) (launch_msgs E (ag_driver ag) dn t)" by blast
      then show ?thesis
        using chan_ok_smaller [OF chan_ok_id_given [OF d(6) [OF e(1)] e(3), of t']] unfolding t(2)
        by (simp add: t'_eq)
    next
      case False
      then have t: "map_of (taskMap ?s) tid = Some t'" using t' by (simp add: tm)
      have "\<forall>c \<in> set ?cs. \<not> launch_to E t' c"
      proof
        fix c assume "c \<in> set ?cs"
        then obtain m where m: "m < length ?cs" "c = ?cs ! m" by (auto simp: in_set_conv_nth)
        have tt: "taskId t' = tid" using inv t by (auto simp: sm_inv_def)
        have "ts ! m \<in> set (take (length ids) ts)"
          using launch_calls_nth [OF m(1)] by (auto simp: in_set_conv_nth intro!: exI [of _ m])
        then show "\<not> launch_to E t' c" using none [OF _ m(1) t] m(2) False tt by auto
      qed
      then show ?thesis using d(6) [OF t] unfolding calls by (simp add: launch_msgs_append)
    qed
  qed simp
qed

subsection \<open>Offers\<close>

lemma addStagingTask_map [simp]:
  "map_of (taskMap (addStagingTask tid eid ty host sid s)) =
     (map_of (taskMap s))(tid \<mapsto> TaskState_new tid eid ty host sid STAGING)"
  by (cases ty) (simp_all add: addStagingTask_def Let_def)

lemma indexNum_addStagingTask [simp]: "indexNum t (addStagingTask tid eid ty host sid s) = indexNum t s"
  by (cases t; cases ty) (simp_all add: addStagingTask_def Let_def)

text \<open>The executor id of the next task of a type is not in use.\<close>

lemma fresh_executor_id:
  assumes "env_ok E" and "eids_ok E s" and "map_of (taskMap s) k = Some t"
  shows "executorId t \<noteq> executor_id_of E ty (indexNum ty s) now"
  using assms executor_id_of_eqD [of E "taskType t" _ _ ty "indexNum ty s" now]
  unfolding eids_ok_def env_ok_def by (metis less_irrefl)

lemma eids_ok_launch:
  assumes env: "env_ok E" and ok: "eids_ok E s" and tm1: "taskMap s1 = taskMap s"
    and idx: "\<forall>t. indexNum t s1 = indexNum t s + (if t = ty then 1 else 0)"
  shows "eids_ok E (addStagingTask tid (executor_id_of E ty (indexNum ty s) now) ty host sid s1)"
proof -
  let ?eid = "executor_id_of E ty (indexNum ty s) now"
  let ?new = "TaskState_new tid ?eid ty host sid STAGING" and ?s = "addStagingTask tid ?eid ty host sid s1"
  have tm: "map_of (taskMap ?s) = (map_of (taskMap s))(tid \<mapsto> ?new)" by (simp add: tm1)
  have new: "taskType ?new = ty" "executorId ?new = ?eid" by (simp_all add: TaskState_new_def)
  have "\<exists>j now. executorId t = executor_id_of E (taskType t) j now \<and> j < indexNum (taskType t) ?s"
    if "map_of (taskMap ?s) k = Some t" for k t
  proof (cases "k = tid")
    case True
    then have "t = ?new" using that by (simp add: tm)
    then show ?thesis
      using idx by (intro exI [of _ "indexNum ty s"] exI [of _ now]) (simp add: new)
  next
    case False
    then have "map_of (taskMap s) k = Some t" using that by (simp add: tm1)
    then obtain j now where "executorId t = executor_id_of E (taskType t) j now" "j < indexNum (taskType t) s"
      using ok unfolding eids_ok_def by blast
    moreover from this have "j < indexNum (taskType t) ?s" using idx by auto
    ultimately show ?thesis by blast
  qed
  moreover have "k = k'" if "map_of (taskMap ?s) k = Some t" "map_of (taskMap ?s) k' = Some t'"
      "executorId t = executorId t'" for k k' t t'
    using that ok fresh_executor_id [OF env ok, of k t ty now] fresh_executor_id [OF env ok, of k' t' ty now] new
    unfolding eids_ok_def tm by (auto split: if_splits)
  ultimately show ?thesis unfolding eids_ok_def by blast
qed

lemma world_launch:
  assumes w: "world_ok E exec net dn ag" and env: "env_ok E" and inv': "agent_inv E ag'"
    and k: "k = indexNum ty (ag_sm ag)" and eid: "eid = executor_id_of E ty k now"
    and sm: "ag_sm ag' = addStagingTask (task_id_of E ty k offer) eid ty (o_hostname offer) (o_slave_id offer) s1"
    and tm1: "taskMap s1 = taskMap (ag_sm ag)"
    and idx: "\<forall>t. indexNum t s1 = indexNum t (ag_sm ag) + (if t = ty then 1 else 0)"
    and calls: "ag_driver ag' = ag_driver ag @
      LaunchTasks (o_id offer) [node_task E offer ty k ini role executor labels] # cs"
    and cs: "\<forall>c \<in> set cs. register_call E c" and ex: "node_executor eid executor" and ini: "ini = 0 \<or> ini = 1"
  shows "world_ok E exec net dn ag'"
proof -
  let ?tid = "task_id_of E ty k offer" and ?task = "node_task E offer ty k ini role executor labels"
  let ?new = "TaskState_new ?tid eid ty (o_hostname offer) (o_slave_id offer) STAGING"
  note d = world_okD [OF w]
  have L: "lexcast_ok (ae_lc E)" using env by (simp add: env_ok_def)
  have tm: "map_of (taskMap (ag_sm ag')) = (map_of (taskMap (ag_sm ag)))(?tid \<mapsto> ?new)"
    by (simp add: sm tm1)
  have fresh: "map_of (taskMap (ag_sm ag)) ?tid = None"
    using fresh_task_id [OF env] d(1) unfolding k by (simp add: agent_inv_def core_inv_def)
  have fresh_eid: "executorId t \<noteq> eid" if "map_of (taskMap (ag_sm ag)) j = Some t" for j t
    using fresh_executor_id [OF env d(2) that] by (simp add: eid k)
  have kept: "tasks_kept (ag_sm ag) (ag_sm ag')"
    using fresh tasks_kept_eq [OF refl, of "ag_sm ag"] by (auto simp: tasks_kept_def tm)
  have new: "taskType ?new = ty" "executorId ?new = eid" "slaveId ?new = o_slave_id offer" "currentStatus ?new = STAGING"
    by (simp_all add: TaskState_new_def)
  have no_launch: "\<not> launch_to E t c" if "c = LaunchTasks (o_id offer) [?task] \<or> register_call E c" for t c
    using that launch_not_register [OF L] by (auto simp: launch_to_def register_call_def)
  then have msgs: "launch_msgs E (ag_driver ag') dn t = launch_msgs E (ag_driver ag) dn t" for t
    unfolding calls by (rule launch_msgs_append [OF ballI]) (use cs in auto)
  show ?thesis
  proof (rule world_agent [OF w inv' _ kept calls])
    show "eids_ok E (ag_sm ag')" unfolding sm eid k by (rule eids_ok_launch [OF env d(2) tm1 idx])
    have "node_launch E (ag_sm ag') ?task"
      using ex ini unfolding node_launch_def node_executor_def
      by (intro conjI exI [of _ ?new] exI [of _ offer] exI [of _ k] exI [of _ ini] exI [of _ role]
          exI [of _ executor] exI [of _ labels])
         (simp_all add: tm new x_key_def, simp add: node_task_def Let_def)
    moreover have "call_ok E (ag_sm ag') c" if "c \<in> set cs" for c
      using cs that by (auto simp: register_call_def)
    ultimately show "\<forall>c \<in> set (LaunchTasks (o_id offer) [?task] # cs). call_ok E (ag_sm ag') c" by simp
  next
    fix tid t assume t: "map_of (taskMap (ag_sm ag')) tid = Some t"
    show "chan_ok (net tid) (exec (slaveId t, executorId t)) (launch_msgs E (ag_driver ag') dn t) tid t"
    proof (cases "tid = ?tid")
      case True
      then have t_new: "t = ?new" using t by (simp add: tm)
      have "net ?tid = []"
        using d(7) [of ?tid] fresh task_id_not_disk [of E ty k offer] by auto
      moreover have no: "\<not> has_entry (ag_sm ag) sid eid" for sid
        using fresh_eid by (auto simp: has_entry_def)
      then have "exec (slaveId t, executorId t) = Absent"
        using d(8) [of "slaveId t" eid] executor_id_not_disk [of E ty k now] by (auto simp: t_new new eid)
      moreover have "launch_msgs E (ag_driver ag) dn t = {}"
      proof -
        have "\<not> launch_to E t c" if c: "c \<in> set (ag_driver ag)" for c
        proof
          assume "launch_to E t c"
          then obtain n where "c = SendFrameworkMessage eid (slaveId t) (launchOSD_message (ae_lc E) n)"
            by (auto simp: launch_to_def t_new new)
          with d(3) c no launch_not_register [OF L] show False by fastforce
        qed
        then show ?thesis by (auto simp: launch_msgs_def)
      qed
      ultimately show ?thesis unfolding msgs True by (simp add: t_new new)
    next
      case False
      with t d(6) show ?thesis unfolding msgs by (simp add: tm)
    qed
  qed simp
qed

lemma world_offer_step:
  assumes w: "world_ok E exec net dn ag" and env: "env_ok E" and ph: "phase = currentPhase (ag_sm ag)"
    and s: "offer_step E phase (offer, now) ((ty, tok, ini), ag) = Inr (loc', ag')" and ini: "ini = 0 \<or> ini = 1"
  shows "world_ok E exec net dn ag' \<and> (snd (snd loc') = 0 \<or> snd (snd loc') = 1)"
proof -
  have inv': "agent_inv E ag'" by (rule offer_step_inv(1) [OF env world_okD(1) [OF w] ph s])
  from s ph show ?thesis
  proof (cases rule: offer_step_cases)
    case declined
    then obtain cs where "ag_driver ag' = ag_driver ag @ cs" "\<forall>c \<in> set cs. disk_call c" by blast
    then have "world_ok E exec net dn ag'"
      by (intro world_quiet [OF w inv']) (use declined(1,2) in \<open>auto simp: same_tasks_def\<close>)
    then show ?thesis using declined(5) ini by simp
  next
    case (launched t1 k eid ini' executor labels cs ag1)
    have i: "ini' = 0 \<or> ini' = 1" using launched(8) ini by simp
    have "world_ok E exec net dn ag'"
      by (rule world_launch [OF w env inv' launched(2,12,5) _ launched(4,10,11,13) i])
         (use launched(3) in \<open>simp add: same_tasks_def\<close>)
    then show ?thesis using launched(9) i by simp
  qed
qed

lemma world_offers:
  assumes w: "world_ok E exec net dn ag" and env: "env_ok E"
    and "resourceOffers E ty0 tok0 offers ag = Inr ag'"
  shows "world_ok E exec net dn ag'"
proof -
  obtain loc' where loop:
    "offers_loop E (currentPhase (ag_sm ag)) offers ((ty0, tok0, 0), handleWaitingOSDTasks E ag) = Inr (loc', ag')"
    using assms(3) by (rule resourceOffers_loop)
  let ?P = "\<lambda>_ loc ag. world_ok E exec net dn ag \<and> (snd (snd loc) = 0 \<or> snd (snd loc) = 1)"
  from loop have "?P offers loc' ag'"
  proof (rule offers_loop_induct [where P = ?P])
    show "?P [] (ty0, tok0, 0) (handleWaitingOSDTasks E ag)" using world_waiting [OF w env] by simp
  next
    fix offer now pre ty tok ini ag1 loc2 ag2
    assume "offer_step E (currentPhase (ag_sm ag)) (offer, now) ((ty, tok, ini), ag1) = Inr (loc2, ag2)"
      "currentPhase (ag_sm ag) = currentPhase (ag_sm ag1)" "?P pre (ty, tok, ini) ag1"
    then show "?P (pre @ [(offer, now)]) loc2 ag2"
      using world_offer_step [OF _ env, of exec net dn ag1] by simp
  qed simp
  then show ?thesis by simp
qed

subsection \<open>Status updates and replies\<close>

definition status_set :: "string \<Rightarrow> Status \<Rightarrow> StateMachine \<Rightarrow> StateMachine \<Rightarrow> bool" where
  "status_set tid new s s' \<longleftrightarrow>
     (\<forall>ty. indexNum ty s' = indexNum ty s) \<and>
     (\<forall>k. map_of (taskMap s') k =
        (if k = tid then map_option (currentStatus_update (\<lambda>_. new)) (map_of (taskMap s) k)
         else map_of (taskMap s) k))"

lemma status_set_updates:
  "status_set tid RUNNING s (updateTaskToRunning tid s)" "status_set tid FAILED s (updateTaskToFailed tid s)"
  "status_set tid WAITING_OSDID s (updateTaskToWaitingOSDID tid s)"
proof -
  note defs = updateTaskToRunning_def updateTaskToFailed_def updateTaskToWaitingOSDID_def
  have "status_set tid RUNNING s (updateTaskToRunning tid s) \<and> status_set tid FAILED s (updateTaskToFailed tid s) \<and>
        status_set tid WAITING_OSDID s (updateTaskToWaitingOSDID tid s)"
    by (cases "map_of (taskMap s) tid") (simp_all add: defs status_set_def Let_def)
  then show "status_set tid RUNNING s (updateTaskToRunning tid s)" "status_set tid FAILED s (updateTaskToFailed tid s)"
    "status_set tid WAITING_OSDID s (updateTaskToWaitingOSDID tid s)" by simp_all
qed

lemma world_head_legal:
  assumes w: "world_ok E exec net dn ag" and net: "net tid = st # sts"
  shows "status_legal (ag_sm ag) st"
proof (cases "map_of (taskMap (ag_sm ag)) tid")
  case (Some t)
  have "fits t st" using chan_ok_queue [OF world_okD(6) [OF w Some]] net by (simp add: queue_ok_def)
  moreover have "st_task_id st = tid" using world_okD(5) [OF w] net by auto
  ultimately show ?thesis using Some by (auto simp: status_legal_def fits_def)
next
  case None
  moreover have "st_task_id st = tid" using world_okD(5) [OF w] net by auto
  ultimately show ?thesis by (simp add: status_legal_def)
qed

lemma world_delivered:
  assumes w: "world_ok E exec net dn ag" and net: "net tid = st # sts" and inv': "agent_inv E ag'"
    and set: "status_set tid new (ag_sm ag) (ag_sm ag') \<or> taskMap (ag_sm ag') = taskMap (ag_sm ag) \<and>
        (\<forall>ty. indexNum ty (ag_sm ag') = indexNum ty (ag_sm ag))"
    and new: "new = WAITING_OSDID \<Longrightarrow> st_state st = TASK_STARTING" and calls: "ag_driver ag' = ag_driver ag"
  shows "world_ok E exec (net(tid := sts)) dn ag'"
proof -
  note d = world_okD [OF w]
  have old: "\<exists>t new'. map_of (taskMap (ag_sm ag)) k = Some t \<and> t' = t\<lparr>currentStatus := new'\<rparr> \<and>
      (k \<noteq> tid \<longrightarrow> t' = t) \<and>
      (new' = WAITING_OSDID \<longrightarrow> st_state st = TASK_STARTING \<or> currentStatus t = WAITING_OSDID)"
    if k: "map_of (taskMap (ag_sm ag')) k = Some t'" for k t'
  proof (cases "map_of (taskMap (ag_sm ag)) k = Some t'")
    case True
    then show ?thesis by (intro exI [of _ t'] exI [of _ "currentStatus t'"]) simp
  next
    case False
    then have "status_set tid new (ag_sm ag) (ag_sm ag')" using set k by auto
    then have "map_of (taskMap (ag_sm ag')) k =
        (if k = tid then map_option (currentStatus_update (\<lambda>_. new)) (map_of (taskMap (ag_sm ag)) k)
         else map_of (taskMap (ag_sm ag)) k)" unfolding status_set_def by blast
    with k False obtain t where "k = tid" "map_of (taskMap (ag_sm ag)) k = Some t" "t' = t\<lparr>currentStatus := new\<rparr>"
      by (auto split: if_splits)
    with new show ?thesis by blast
  qed
  have kept: "tasks_kept (ag_sm ag) (ag_sm ag')"
    using set
  proof
    assume "status_set tid new (ag_sm ag) (ag_sm ag')"
    then show ?thesis
      using tasks_kept_eq [OF refl, of "ag_sm ag"] by (fastforce simp: tasks_kept_def status_set_def)
  qed (simp add: tasks_kept_eq)
  have calls': "ag_driver ag' = ag_driver ag @ []" using calls by simp
  show ?thesis
  proof (rule world_agent [OF w inv' _ kept calls'])
    show "eids_ok E (ag_sm ag')"
    proof (rule eids_ok_kept [OF d(2) kept])
      show "dom (map_of (taskMap (ag_sm ag'))) \<subseteq> dom (map_of (taskMap (ag_sm ag)))" using old by blast
      show "\<forall>ty. indexNum ty (ag_sm ag) \<le> indexNum ty (ag_sm ag')" using set by (auto simp: status_set_def)
    qed
    show "\<forall>k. set ((net(tid := sts)) k) \<subseteq> set (net k)" using net by auto
  next
    fix k t' assume "map_of (taskMap (ag_sm ag')) k = Some t'"
    from old [OF this] obtain t new' where t: "map_of (taskMap (ag_sm ag)) k = Some t" "t' = t\<lparr>currentStatus := new'\<rparr>"
        "k \<noteq> tid \<longrightarrow> t' = t" "new' = WAITING_OSDID \<longrightarrow> st_state st = TASK_STARTING \<or> currentStatus t = WAITING_OSDID"
      by blast
    show "chan_ok ((net(tid := sts)) k) (exec (slaveId t', executorId t')) (launch_msgs E (ag_driver ag') dn t') k t'"
    proof (cases "k = tid")
      case True
      then show ?thesis
        using chan_ok_delivered [of st sts _ _ k t t'] d(6) [OF t(1)] t(2,4) net by (simp add: calls)
    next
      case False
      then show ?thesis using d(6) [OF t(1)] t(3) by (simp add: calls)
    qed
  qed simp
qed

lemma world_status:
  assumes w: "world_ok E exec net dn ag" and net: "net tid = st # sts"
    and s: "statusUpdate E st ag = Inr ag'"
  shows "world_ok E exec (net(tid := sts)) dn ag'"
proof -
  have inv': "agent_inv E ag'"
    by (rule agent_inv_statusUpdate [OF world_okD(1) [OF w] world_head_legal [OF w net] s])
  have tid: "st_task_id st = tid" using world_okD(5) [OF w] net by auto
  note deliver = world_delivered [OF w net inv']
  from s show ?thesis
  proof (cases rule: statusUpdate_cases)
    case running
    then show ?thesis using status_set_updates(1) tid by (intro deliver [of RUNNING]) auto
  next
    case starting
    then show ?thesis using status_set_updates(3) tid by (intro deliver [of WAITING_OSDID]) auto
  next
    case failed
    then show ?thesis using status_set_updates(2) tid by (intro deliver [of FAILED]) auto
  next
    case (disk h hc)
    then show ?thesis
      using same_tasks_setConfig same_index_setConfig
      by (intro deliver [of FAILED]) (auto simp: same_tasks_def same_index_def)
  next
    case ignored
    then show ?thesis by (intro deliver [of FAILED]) auto
  qed
qed

lemma world_reply:
  assumes w: "world_ok E exec net dn ag" and s: "frameworkMessage E eid data ag = Inr ag'"
  shows "world_ok E exec net dn ag'"
proof -
  have inv': "agent_inv E ag'" by (rule agent_inv_frameworkMessage [OF world_okD(1) [OF w] s])
  have "taskMap (ag_sm ag') = taskMap (ag_sm ag) \<and> (\<forall>ty. indexNum ty (ag_sm ag') = indexNum ty (ag_sm ag)) \<and>
      ag_driver ag' = ag_driver ag"
    using s by (auto simp: frameworkMessage_def addPendingOSDID_def split: if_splits elim!: bind_resE)
  then show ?thesis by (intro world_quiet [OF w inv', of "[]"]) auto
qed

section \<open>Steps of the executors\<close>

text \<open>One executor moves: it is in state \<open>X\<close> now and \<open>sts\<close> are under way, all for the task \<open>own\<close>.\<close>

lemma world_exec:
  assumes w: "world_ok E exec net dn ag" and "dn \<subseteq> dn'" and "dn' \<subseteq> {..<length (ag_driver ag)}"
    and X: "X \<noteq> Absent" "disk_named eid \<or> has_entry (ag_sm ag) sid eid"
    and alive: "\<And>x. X = Alive x \<Longrightarrow> x_myTaskId x = [] \<or>
        (\<exists>t. map_of (taskMap (ag_sm ag)) (x_myTaskId x) = Some t \<and> slaveId t = sid \<and> executorId t = eid)"
    and sts: "\<forall>st \<in> set sts. st_task_id st = own"
    and own: "sts \<noteq> [] \<Longrightarrow> disk_named own \<or> own = [] \<or>
        (\<exists>t. map_of (taskMap (ag_sm ag)) own = Some t \<and> slaveId t = sid \<and> executorId t = eid)"
    and chan: "\<And>tid t. map_of (taskMap (ag_sm ag)) tid = Some t \<Longrightarrow> slaveId t = sid \<Longrightarrow> executorId t = eid \<Longrightarrow>
        chan_ok (net tid @ (if tid = own then sts else [])) X (launch_msgs E (ag_driver ag) dn' t) tid t"
  shows "world_ok E (exec((sid, eid) := X)) (post sts net) dn' ag"
proof -
  note d = world_okD [OF w]
  have post: "post sts net tid = net tid @ (if tid = own then sts else [])" for tid
    using sts by (auto simp: post_def filter_id_conv filter_empty_conv)
  have "chan_ok (post sts net tid) ((exec((sid, eid) := X)) (slaveId t, executorId t))
      (launch_msgs E (ag_driver ag) dn' t) tid t" if t: "map_of (taskMap (ag_sm ag)) tid = Some t" for tid t
  proof (cases "slaveId t = sid \<and> executorId t = eid")
    case True
    then show ?thesis using chan [OF t] unfolding post by simp
  next
    case False
    have "\<not> disk_named tid \<and> tid \<noteq> []"
      using d(1) t task_id_not_disk unfolding agent_inv_def core_inv_def ids_ok_def by metis
    then have "tid \<noteq> own \<or> sts = []" using own t False by (cases "sts = []") auto
    then have "post sts net tid = net tid" unfolding post by auto
    moreover have "(exec((sid, eid) := X)) (slaveId t, executorId t) = exec (slaveId t, executorId t)"
      using False by auto
    ultimately show ?thesis
      using chan_ok_smaller [OF d(6) [OF t] launch_msgs_done [OF assms(2)]] by simp
  qed
  moreover have "\<forall>tid. \<forall>st \<in> set (post sts net tid). st_task_id st = tid"
    using d(5) by (auto simp: post_def)
  moreover have "tid \<in> dom (map_of (taskMap (ag_sm ag))) \<or> disk_named tid \<or> tid = []"
    if "post sts net tid \<noteq> []" for tid
    using d(7) [of tid] own that unfolding post by (cases "tid = own \<and> sts \<noteq> []") auto
  moreover have "disk_named e \<or> has_entry (ag_sm ag) s e" if "(exec((sid, eid) := X)) (s, e) \<noteq> Absent" for s e
    using d(8) [of s e] X that by (auto split: if_splits)
  moreover have "x_myTaskId x = [] \<or>
      (\<exists>t. map_of (taskMap (ag_sm ag)) (x_myTaskId x) = Some t \<and> slaveId t = s \<and> executorId t = e)"
    if "(exec((sid, eid) := X)) (s, e) = Alive x" for s e x
    using d(9) [of s e x] alive that by (auto split: if_splits)
  ultimately show ?thesis
    unfolding world_ok_def using d(1-3) assms(3) by blast
qed

text \<open>The entry of the task that an executor runs; ids are not shared.\<close>

lemma one_entry:
  assumes "eids_ok E s" and "map_of (taskMap s) k = Some t" and "map_of (taskMap s) k' = Some t'"
    and "executorId t = executorId t'"
  shows "k = k' \<and> t = t'"
  using assms unfolding eids_ok_def by (metis option.inject)

lemma entry_not_disk:
  assumes "agent_inv E ag" and "eids_ok E (ag_sm ag)" and "map_of (taskMap (ag_sm ag)) k = Some t"
  shows "\<not> disk_named (executorId t)" "\<not> disk_named k" "k \<noteq> []"
  using assms executor_id_not_disk task_id_not_disk
  unfolding agent_inv_def core_inv_def ids_ok_def eids_ok_def by metis+

lemma launched_taskD:
  assumes "world_ok E exec net dn (cl_ag c)" and "launched_task c task"
  shows "disk_launch task \<or> node_launch E (ag_sm (cl_ag c)) task"
  using assms world_okD(3) unfolding launched_task_def by fastforce

lemma world_launchTask:
  assumes w: "world_ok E exec net dn ag" and env: "env_ok E" and task: "node_launch E (ag_sm ag) task"
    and absent: "exec (x_key task) = Absent" and x: "statuses x = []" "x_myTaskId x = []"
    and run: "x_launchTask os (ae_lc E) indet task x = Some (Inr x')"
  shows "world_ok E (exec(x_key task := Alive x')) (post (statuses x') net) dn ag"
proof -
  note d = world_okD [OF w]
  obtain t offer k ini role executor labels where task_eq: "task = node_task E offer (taskType t) k ini role executor labels"
    and ini: "ini = 0 \<or> ini = 1" and t: "map_of (taskMap (ag_sm ag)) (ti_task_id task) = Some t"
    and key: "x_key task = (slaveId t, executorId t)"
    using task unfolding node_launch_def by blast
  have L: "lexcast_ok (ae_lc E)" using env by (simp add: env_ok_def)
  have ty: "\<forall>y c ty y'. task_data os (ae_lc E) indet task y = Inr (c, ty, y') \<longrightarrow> ty = taskType_int (taskType t)"
    unfolding task_eq by (simp add: node_data_read [OF L ini])
  from x_launchTask_status [OF run ty] obtain st where
    st: "st \<in> first_states (taskType_int (taskType t))"
      "statuses x' = [\<lparr>st_task_id = ti_task_id task, st_state = st, st_message = None\<rparr>]"
      "x_myTaskId x' = ti_task_id task \<or> st = TASK_FAILED \<and> x_myTaskId x' = []"
    using x by auto
  let ?st = "\<lparr>st_task_id = ti_task_id task, st_state = st, st_message = None\<rparr>"
  note ch = d(6) [OF t, unfolded key [symmetric] absent]
  have fits: "fits t ?st"
    using st(1) ch by (cases "taskType t") (auto simp: fits_def first_states_def)
  show ?thesis
    unfolding key st(2)
  proof (rule world_exec [OF w order_refl d(4)])
    show "disk_named (executorId t) \<or> has_entry (ag_sm ag) (slaveId t) (executorId t)"
      using has_entryI [OF t] by simp
    show "x_myTaskId y = [] \<or> (\<exists>u. map_of (taskMap (ag_sm ag)) (x_myTaskId y) = Some u \<and>
        slaveId u = slaveId t \<and> executorId u = executorId t)" if "Alive x' = Alive y" for y
      using that st(3) t by auto
    show "\<forall>u \<in> set [?st]. st_task_id u = ti_task_id task" by simp
    show "disk_named (ti_task_id task) \<or> ti_task_id task = [] \<or>
        (\<exists>u. map_of (taskMap (ag_sm ag)) (ti_task_id task) = Some u \<and> slaveId u = slaveId t \<and> executorId u = executorId t)"
      using t by auto
    fix tid u assume u: "map_of (taskMap (ag_sm ag)) tid = Some u" "executorId u = executorId t"
    then have "tid = ti_task_id task \<and> u = t" using one_entry [OF d(2) u(1) t] by simp
    then show "chan_ok (net tid @ (if tid = ti_task_id task then [?st] else [])) (Alive x')
        (launch_msgs E (ag_driver ag) dn u) tid u"
      using chan_ok_launched [OF ch fits, of x'] st(3) by auto
  qed simp
qed

lemma x_frameworkMessage_register:
  assumes "lexcast_ok L"
    and "x_frameworkMessage os L (lc_str L (toExecutor_int REGISTER_OSD)) x = Some (Inr x')"
  shows "statuses x' = statuses x \<and> x_myTaskId x' = x_myTaskId x"
proof -
  obtain out y where y: "registerOSD os x = (out, y)" by fastforce
  then have "quiet x y" by (auto simp: registerOSD_def dest: quiet_shell)
  with registerOSD_message_read [OF assms(1) y] assms(2) show ?thesis
    by (auto simp: quiet_def statuses_def x_emit_def)
qed

lemma world_message:
  assumes w: "world_ok E exec net dn ag" and env: "env_ok E"
    and i: "i < length (ag_driver ag)" "i \<notin> dn" "ag_driver ag ! i = SendFrameworkMessage eid sid data"
    and x: "exec (sid, eid) = Alive x" and run: "x_frameworkMessage os (ae_lc E) data x = Some (Inr x')"
  shows "world_ok E (exec((sid, eid) := Alive x')) (post (drop (length (statuses x)) (statuses x')) net) (insert i dn) ag"
proof -
  note d = world_okD [OF w]
  have L: "lexcast_ok (ae_lc E)" using env by (simp add: env_ok_def)
  have dn: "dn \<subseteq> insert i dn" "insert i dn \<subseteq> {..<length (ag_driver ag)}" using d(4) i(1) by auto
  have ent: "disk_named eid \<or> has_entry (ag_sm ag) sid eid" using d(8) [of sid eid] x by simp
  have "SendFrameworkMessage eid sid data \<in> set (ag_driver ag)" using nth_mem [OF i(1)] i(3) by simp
  with d(3) have "call_ok E (ag_sm ag) (SendFrameworkMessage eid sid data)" by blast
  then consider (register) "data = lc_str (ae_lc E) (toExecutor_int REGISTER_OSD)"
    | (launch) n where "data = launchOSD_message (ae_lc E) n" "has_entry (ag_sm ag) sid eid" by auto
  then show ?thesis
  proof cases
    case register
    then have same: "statuses x' = statuses x" "x_myTaskId x' = x_myTaskId x"
      using x_frameworkMessage_register [OF L] run by blast+
    show ?thesis
    proof (rule world_exec [OF w dn _ ent, where own = "[]"])
      show "chan_ok (net tid @ (if tid = [] then drop (length (statuses x)) (statuses x') else [])) (Alive x')
          (launch_msgs E (ag_driver ag) (insert i dn) t) tid t"
        if "map_of (taskMap (ag_sm ag)) tid = Some t" "slaveId t = sid" "executorId t = eid" for tid t
        using chan_ok_smaller [OF chan_ok_same_id [OF d(6) [OF that(1), unfolded that(2,3) x] same(2)]
          launch_msgs_done [OF dn(1)]] same(1) by auto
      show "x_myTaskId y = [] \<or> (\<exists>t. map_of (taskMap (ag_sm ag)) (x_myTaskId y) = Some t \<and> slaveId t = sid \<and> executorId t = eid)"
        if "Alive x' = Alive y" for y
        using d(9) [OF x] same(2) that by auto
    qed (simp_all add: same)
  next
    case (launch n)
    then obtain tid t where t: "map_of (taskMap (ag_sm ag)) tid = Some t" "slaveId t = sid" "executorId t = eid"
      by (auto simp: has_entry_def)
    note ch = d(6) [OF t(1), unfolded t(2,3) x]
    have P: "i \<in> launch_msgs E (ag_driver ag) dn t"
      using i launch(1) t(2,3) by (auto simp: launch_msgs_def launch_to_def)
    have less: "launch_msgs E (ag_driver ag) (insert i dn) t = launch_msgs E (ag_driver ag) dn t - {i}"
      by (auto simp: launch_msgs_def)
    have "currentStatus t = STARTING" using ch P by (auto simp: alive_ok_def)
    moreover have "task_ok t"
      using d(1) t(1) unfolding agent_inv_def core_inv_def sm_inv_def by blast
    ultimately have osd: "taskType t = OSD" by (auto simp: task_ok_def)
    from launchOSD_status run obtain st where st: "st_task_id st = x_myTaskId x" "st_state st \<noteq> TASK_STARTING"
        "statuses x' = statuses x @ [st]" "x_myTaskId x' = x_myTaskId x"
      unfolding launch(1) launchOSD_message_read [OF L] by fastforce
    note started = chan_ok_started(1) [OF ch P osd st(2), of x'] chan_ok_started(2) [OF ch P osd st(2)]
    show ?thesis
    proof (rule world_exec [OF w dn _ ent, where own = tid])
      show "x_myTaskId y = [] \<or> (\<exists>t. map_of (taskMap (ag_sm ag)) (x_myTaskId y) = Some t \<and> slaveId t = sid \<and> executorId t = eid)"
        if "Alive x' = Alive y" for y
        using d(9) [OF x] st(4) that by auto
      show "chan_ok (net k @ (if k = tid then drop (length (statuses x)) (statuses x') else [])) (Alive x')
          (launch_msgs E (ag_driver ag) (insert i dn) u) k u"
        if u: "map_of (taskMap (ag_sm ag)) k = Some u" "executorId u = eid" for k u
        using one_entry [OF d(2) u(1) t(1)] u(2) t(3) started(1) less st(3) by simp
    qed (use st started(2) t in auto)
  qed
qed

lemma statuses_shutdown:
  "drop (length (statuses x)) (statuses (x_shutdown os x)) =
     [\<lparr>st_task_id = x_myTaskId x, st_state = TASK_KILLED, st_message = None\<rparr>]"
  unfolding statuses_def x_shutdown_trace by simp

lemma world_shutdown:
  assumes w: "world_ok E exec net dn ag" and x: "exec (sid, eid) = Alive x"
  shows "world_ok E (exec((sid, eid) := Gone)) (post (drop (length (statuses x)) (statuses (x_shutdown os x))) net) dn ag"
proof -
  note d = world_okD [OF w]
  let ?st = "\<lparr>st_task_id = x_myTaskId x, st_state = TASK_KILLED, st_message = None\<rparr>"
  have ent: "disk_named eid \<or> has_entry (ag_sm ag) sid eid" using d(8) [of sid eid] x by simp
  show ?thesis
    unfolding statuses_shutdown
  proof (rule world_exec [OF w order_refl d(4) _ ent])
    show "chan_ok (net tid @ (if tid = x_myTaskId x then [?st] else [])) Gone (launch_msgs E (ag_driver ag) dn t) tid t"
      if "map_of (taskMap (ag_sm ag)) tid = Some t" for tid t
      using chan_ok_lost [OF d(6) [OF that], of ?st] chan_ok_queue [OF d(6) [OF that]] by (auto simp: ends_def)
  qed (use d(9) [OF x] in auto)
qed

lemma world_lost:
  assumes w: "world_ok E exec net dn ag" and task: "disk_launch task \<or> node_launch E (ag_sm ag) task"
    and sts: "\<forall>st \<in> set sts. st_task_id st = ti_task_id task" and "disk_launch task \<or> (\<exists>st. sts = [st] \<and> ends st)"
  shows "world_ok E (exec(x_key task := Gone)) (post sts net) dn ag"
proof -
  note d = world_okD [OF w]
  define sid eid where "sid = ti_slave_id task" and "eid = ei_executor_id (ti_executor task)"
  have key: "x_key task = (sid, eid)" by (simp add: x_key_def sid_def eid_def)
  have cases: "disk_named eid \<and> disk_named (ti_task_id task) \<or>
      (\<exists>t. map_of (taskMap (ag_sm ag)) (ti_task_id task) = Some t \<and> slaveId t = sid \<and> executorId t = eid)"
    using task unfolding disk_launch_def node_launch_def key eid_def by auto
  show ?thesis
    unfolding key
  proof (rule world_exec [OF w order_refl d(4), where own = "ti_task_id task"])
    show "disk_named eid \<or> has_entry (ag_sm ag) sid eid" using cases by (auto simp: has_entry_def)
    fix tid t assume t: "map_of (taskMap (ag_sm ag)) tid = Some t" "slaveId t = sid" "executorId t = eid"
    have nd: "\<not> disk_named eid" using entry_not_disk(1) [OF d(1,2) t(1)] t(3) by simp
    then have "\<not> disk_launch task" by (auto simp: disk_launch_def eid_def)
    then obtain st where "sts = [st]" "ends st" using assms(4) by blast
    then show "chan_ok (net tid @ (if tid = ti_task_id task then sts else [])) Gone (launch_msgs E (ag_driver ag) dn t) tid t"
      using chan_ok_lost [OF d(6) [OF t(1)], of st] chan_ok_queue [OF d(6) [OF t(1)]] by auto
  qed (use cases sts in auto)
qed

section \<open>The closed system\<close>

lemma cluster_inv_init: "cluster_init c \<Longrightarrow> cluster_inv E c"
  unfolding cluster_init_def agent_init_def
  by (auto simp: cluster_inv_def world_ok_def eids_ok_def agent_inv_def CephSchedulerAgent_new_def core_inv_new)
     (simp_all add: StateMachine_new_def)

lemma ran_sel [simp]:
  "cl_ag (ran key x x' X c) = cl_ag c" "cl_exec (ran key x x' X c) = (cl_exec c)(key := X)"
  "cl_net (ran key x x' X c) = post (drop (length (statuses x)) (statuses x')) (cl_net c)"
  "cl_done (ran key x x' X c) = cl_done c"
  by (simp_all add: ran_def)

lemma fresh_executor:
  assumes "x = x_registered os host (CephExecutor_new pid w)"
  shows "statuses x = []" "x_myTaskId x = []"
  using assms by (simp_all add: x_registered_def CephExecutor_new_def statuses_def)

lemma cluster_inv_step:
  assumes env: "env_ok E" and "cluster_inv E c" and "cluster_step E J c c'"
  shows "cluster_inv E c'"
proof -
  have w: "world_ok E (cl_exec c) (cl_net c) (cl_done c) (cl_ag c)" using assms(2) by (simp add: cluster_inv_def)
  from assms(3) show ?thesis
  proof (cases rule: cluster_step.cases)
    case offers
    then show ?thesis using world_offers [OF w env] by (simp add: cluster_inv_def)
  next
    case (request data p)
    then show ?thesis
      using world_quiet [OF w, of "(cl_ag c)\<lparr>ag_pendingOSD := p\<rparr>" "[]"] world_okD(1) [OF w]
      by (simp add: cluster_inv_def agent_inv_def)
  next
    case status
    then show ?thesis using world_status [OF w] by (simp add: cluster_inv_def)
  next
    case reply
    then show ?thesis using world_reply [OF w] by (simp add: cluster_inv_def)
  next
    case (launch task x os host pid v indet x')
    have "node_launch E (ag_sm (cl_ag c)) task"
      using launched_taskD [OF w launch(2)] launch(3) by (auto simp: disk_launch_def)
    then show ?thesis
      using world_launchTask [OF w env _ launch(4) fresh_executor [OF launch(5)] launch(6)] fresh_executor(1) [OF launch(5)] launch(1)
      by (simp add: cluster_inv_def)
  next
    case message
    then show ?thesis using world_message [OF w env] by (simp add: cluster_inv_def)
  next
    case (shutdown key x os)
    then show ?thesis using world_shutdown [OF w, of "fst key" "snd key" x os] by (simp add: cluster_inv_def)
  next
    case (disk task popen host v y)
    have "disk_launch task"
      using launched_taskD [OF w disk(2)] disk(3) by (auto simp: node_launch_def)
    moreover have "\<forall>st \<in> set (de_sent y). st_task_id st = ti_task_id task"
      by (rule de_launchTask_own [OF disk(5)]) (simp add: de_registered_def DiskExecutor_new_def)
    ultimately show ?thesis using world_lost [OF w] disk(1) by (simp add: cluster_inv_def)
  next
    case (lost task st)
    then show ?thesis using world_lost [OF w launched_taskD [OF w lost(2)], of "[st]"] by (simp add: cluster_inv_def)
  qed
qed

interpretation closed: step_invariant cluster_init "cluster_step E J" "\<lambda>c. env_ok E \<longrightarrow> cluster_inv E c"
  for E :: "'y agent_env" and J :: "'j json_lib"
  by unfold_locales (use cluster_inv_init cluster_inv_step in blast)+

text \<open>A step of the closed system is a step of the scheduler, or the scheduler does not notice it.\<close>

lemma cluster_step_simulates:
  assumes "cluster_inv E c" and "cluster_step E J c c'"
  shows "cl_ag c' = cl_ag c \<or> agent_step E J (cl_ag c) (cl_ag c')"
  using assms(2)
proof (cases rule: cluster_step.cases)
  case (status tid st sts ag')
  have "status_legal (ag_sm (cl_ag c)) st"
    using world_head_legal status(2) assms(1) unfolding cluster_inv_def by blast
  with status show ?thesis by (auto intro: agent_step.status)
qed (auto intro: agent_step.intros)

lemma cluster_reach_agent:
  assumes "env_ok E" and "reach cluster_init (cluster_step E J) c"
  shows "reach agent_init (agent_step E J) (cl_ag c)"
  using assms(2)
proof (induction rule: reach.induct)
  case (reach_init c)
  then show ?case by (auto simp: cluster_init_def intro: reach.reach_init)
next
  case (reach_step c c')
  have "cluster_inv E c" using closed.inv_reach [OF reach_step(1)] assms(1) by blast
  then show ?case
    using cluster_step_simulates [OF _ reach_step(2)] reach_step(3) by (metis reach.reach_step)
qed

end
