(* ===== verification/Working_Host.thy ===== *)
theory Working_Host
  imports Cluster_Refinement
begin

text \<open>
  The executor on a host where every command does its work: a task that is launched on it reports
  its first status, and an OSD that gets its id reports \<open>TASK_RUNNING\<close> with that id. This is the
  host of the run in \<open>Cluster_Bootstrap\<close>.
\<close>

section \<open>A host on which everything works\<close>

text \<open>
  Every command succeeds and prints \<open>0\<close>, only \<open>hostname\<close> prints nothing; \<open>fork\<close> gives a process.
\<close>

definition working_os :: "'w os" where
  "working_os = \<lparr>os_popen = (\<lambda>w cmd. (Some (case cmd of [] \<Rightarrow> ''0'' | c # cs \<Rightarrow> if c = CHR ''h'' then [] else ''0''), w)),
     os_fork = (\<lambda>w. (42, w)), os_getcwd = (\<lambda>w. Some ''/sandbox''), os_time = (\<lambda>w. 0), os_wifexited = (\<lambda>w. True)\<rparr>"

lemma working_shell [simp]:
  "c \<noteq> CHR ''h'' \<Longrightarrow> x_shell working_os (c # cs) x = (''0'', x_emit (Shell (c # cs)) x)"
  "x_shell working_os (CHR ''h'' # cs) x = ([], x_emit (Shell (CHR ''h'' # cs)) x)"
proof -
  have "read_pipe ''0'' = ''0''" "read_pipe [] = []" by (simp_all add: read_pipe_text NUL_def)
  moreover have "x\<lparr>x_world := x_world x\<rparr> = x" by simp
  ultimately show "c \<noteq> CHR ''h'' \<Longrightarrow> x_shell working_os (c # cs) x = (''0'', x_emit (Shell (c # cs)) x)"
    "x_shell working_os (CHR ''h'' # cs) x = ([], x_emit (Shell (CHR ''h'' # cs)) x)"
    by (simp_all add: x_shell_def runShellCommand_def working_os_def c_str_def NUL_def strip_newlines_def newline_def)
qed

lemma statuses_emit_other [simp]:
  "statuses (x_emit (Shell cmd) x) = statuses x" "statuses (x_emit (Fork c) x) = statuses x"
  "statuses (x_emit (StartFileServer p d) x) = statuses x" "statuses (x_emit (SendMessage m) x) = statuses x"
  by (simp_all add: statuses_def x_emit_def)

lemma working_fork [simp]: "x_fork working_os b cmd x = (42, x_emit (Fork (startLongRunning b cmd)) x)"
  by (simp add: x_fork_def working_os_def)

lemma working_block:
  assumes "lexcast_ok L" and "timeout = show_int n" and "is_int32 n" and "0 < n"
  shows "\<exists>x'. block_until_started working_os L cname timeout x = Some (Inr (True, x')) \<and> quiet x x'"
proof -
  have "poll_started working_os (ps_cmd cname) x = Some (''0'', x_emit (Shell (ps_cmd cname)) x)"
    by (subst poll_started.simps) (simp add: ps_cmd_def)
  then have "\<exists>x'. block_until_started working_os L cname timeout x = Some (Inr (True, x'))"
    using assms by (simp add: block_until_started_def mon_stat_cmd_def)
  then show ?thesis using quiet_block by blast
qed

lemma working_waits:
  assumes "lexcast_ok L"
  shows "\<exists>x'. block_until_started working_os L cname ''60'' x = Some (Inr (True, x')) \<and> quiet x x'"
    "\<exists>x'. block_until_started working_os L cname ''30'' x = Some (Inr (True, x')) \<and> quiet x x'"
proof -
  have "''60'' = show_int 60" "''30'' = show_int 30" by (simp_all add: show_int_def show_nat.simps)
  then show "\<exists>x'. block_until_started working_os L cname ''60'' x = Some (Inr (True, x')) \<and> quiet x x'"
    "\<exists>x'. block_until_started working_os L cname ''30'' x = Some (Inr (True, x')) \<and> quiet x x'"
    using working_block [OF assms, of _ 60] working_block [OF assms, of _ 30] by (simp_all add: is_int32_def)
qed

lemma working_run:
  assumes "lexcast_ok L"
  shows "\<exists>x'. run_container working_os L tid cName fs cmd x = Some (Inr x') \<and>
    statuses x' = statuses x @ [\<lparr>st_task_id = tid, st_state = TASK_RUNNING, st_message = None\<rparr>] \<and>
    x_myTaskId x' = x_myTaskId x"
proof -
  let ?x = "(x_emit (Fork (startLongRunning ''docker'' cmd)) x)\<lparr>x_myPID := 42\<rparr>"
  obtain x1 where b: "block_until_started working_os L cName ''60'' ?x = Some (Inr (True, x1))" and q: "quiet ?x x1"
    using working_waits(1) [OF assms] by blast
  let ?x2 = "if fs then publish_config working_os x1 else x1"
  have "quiet ?x ?x2" using q quiet_trans [OF q quiet_publish] by simp
  then have "statuses ?x2 = statuses x" "x_myTaskId ?x2 = x_myTaskId x" by (simp_all add: quiet_def)
  with b show ?thesis by (simp add: run_container_def Let_def)
qed

lemma working_start:
  assumes "lexcast_ok L"
  shows "\<exists>x'. start_node working_os L tid dir cName (taskType_int ty) x = Some (Inr x') \<and>
    statuses x' = statuses x @ [\<lparr>st_task_id = tid, st_state = (if ty = OSD then TASK_STARTING else TASK_RUNNING),
      st_message = None\<rparr>] \<and> x_myTaskId x' = x_myTaskId x"
proof (cases ty)
  case MON
  let ?x = "x_emit (Shell ''hostname -i'') (x_emit (Shell ''hostname -I'') x)"
  obtain d x1 where d: "downloadDockerImage working_os ''ceph/daemon'' ?x = (d, x1)" by fastforce
  have "explode [] CHR '' '' = []" by simp
  then obtain cmd where "constructMonCommand working_os L dir cName x = Inr (cmd, ?x)"
    by (simp add: constructMonCommand_def getPublicNetworkIP_def)
  then show ?thesis
    using working_run [OF assms, of tid cName True cmd x1] quiet_download [OF d] MON d
    by (simp add: start_node_def quiet_def)
next
  case OSD
  obtain d x1 where d: "downloadDockerImage working_os ''ceph/daemon'' x = (d, x1)" by fastforce
  then show ?thesis using quiet_download [OF d] OSD by (simp add: start_node_def quiet_def)
next
  case RADOSGW
  obtain d x1 where d: "downloadDockerImage working_os ''ceph/daemon'' x = (d, x1)" by fastforce
  then show ?thesis
    using working_run [OF assms, of tid cName False "constructRADOSGWCommand dir cName" x1] quiet_download [OF d] RADOSGW
    by (simp add: start_node_def quiet_def)
qed

lemma getContainerName_task: "\<exists>cName. getContainerName (task_id_of E ty k offer) = Inr cName"
proof -
  have "task_id_of E ty k offer \<noteq> []" by (cases ty) (simp_all add: task_id_of_def createTaskName_def)
  then show ?thesis
    by (cases "explode (task_id_of E ty k offer) CHR ''.''") (simp_all add: getContainerName_def)
qed

lemma working_launch:
  fixes x :: "'w ceph_exec"
  assumes L: "lexcast_ok (ae_lc E)" and "ini = 0 \<or> ini = 1" and "labels \<noteq> []"
  shows "\<exists>x'. x_launchTask working_os (ae_lc E) indet (node_task E offer ty k ini role executor labels) x = Some (Inr x') \<and>
    statuses x' = statuses x @ [\<lparr>st_task_id = task_id_of E ty k offer,
      st_state = (if ty = OSD then TASK_STARTING else TASK_RUNNING), st_message = None\<rparr>] \<and>
    x_myTaskId x' = task_id_of E ty k offer"
proof -
  let ?task = "node_task E offer ty k ini role executor labels" and ?tid = "task_id_of E ty k offer"
  obtain cName where name: "getContainerName ?tid = Inr cName" using getContainerName_task by blast
  note data = node_data_read [OF L assms(2)]
  have parse: "parseHostConfig ?task y = (True, parse_labels labels y)" for y :: "'w ceph_exec"
    using assms(3) by (simp add: parseHostConfig_def)
  have dir: "createLocalSharedConfigDir working_os d y = (True, x_emit (Shell (existsConfigFiles_cmd (x_localSharedConfigDirRoot y) d)) y)"
    for d and y :: "'w ceph_exec"
    by (simp add: createLocalSharedConfigDir_def existsConfigFiles_def existsConfigFiles_cmd_def Let_def)
  have copy: "copySharedConfigFiles working_os y = (True, x_emit (Shell (copyFiles_cmd (x_localSharedConfigDirRoot y) (x_sandboxAbsolutePath y))) y)"
    for y :: "'w ceph_exec"
    by (simp add: copySharedConfigFiles_def copyFiles_cmd_def Let_def)
  have "\<exists>d y. x_launchTask working_os (ae_lc E) indet ?task x =
      start_node working_os (ae_lc E) ?tid d cName (taskType_int ty) y"
    using assms(2) by (auto simp: x_launchTask_def data parse dir copy name remove_if_space_def Let_def)
  then obtain d y where start: "x_launchTask working_os (ae_lc E) indet ?task x =
      start_node working_os (ae_lc E) ?tid d cName (taskType_int ty) y" by blast
  obtain x' where x': "start_node working_os (ae_lc E) ?tid d cName (taskType_int ty) y = Some (Inr x')"
    "statuses x' = statuses y @ [\<lparr>st_task_id = ?tid, st_state = (if ty = OSD then TASK_STARTING else TASK_RUNNING), st_message = None\<rparr>]"
    using working_start [OF L] by blast
  have ty: "\<forall>y c ty' y'. task_data working_os (ae_lc E) indet ?task (y :: 'w ceph_exec) = Inr (c, ty', y') \<longrightarrow> ty' = taskType_int ty"
    by (simp add: data)
  from x_launchTask_status [OF start [unfolded x'(1)] ty] x'(2)
  show ?thesis unfolding start x'(1) by (auto split: if_splits)
qed

lemma working_prepare: "\<exists>x'. x_prepareDisks working_os x = (True, x')"
  by (simp add: x_prepareDisks_def mountDisk_def Let_def)

lemma working_launchOSD:
  assumes "lexcast_ok L"
  shows "\<exists>x'. launchOSD working_os L osdId x = Some (Inr x') \<and>
    statuses x' = statuses x @ [\<lparr>st_task_id = x_myTaskId x, st_state = TASK_RUNNING, st_message = Some (consumed_message L osdId)\<rparr>]"
proof -
  let ?dir = "x_localSharedConfigDirRoot x @ ''/'' @ localConfigDirName"
  let ?x1 = "x\<lparr>x_localMountOSDDir := ?dir @ ''/var/lib/ceph/osd/ceph-'' @ osdId,
                x_localMountJNLDir := ?dir @ ''/var/lib/ceph/osd/jnl-'' @ osdId\<rparr>"
  obtain x2 where p: "x_prepareDisks working_os ?x1 = (True, x2)"
    using working_prepare by blast
  let ?x3 = "(x_emit (Fork (startLongRunning ''docker'' (constructOSDCommand ?dir osdId (x_containerName x2)))) x2)\<lparr>x_myPID := 42\<rparr>"
  obtain x4 where b: "block_until_started working_os L (x_containerName ?x3) ''30'' ?x3 = Some (Inr (True, x4))" and q: "quiet ?x3 x4"
    using working_waits(2) [OF assms] by blast
  have st: "statuses x4 = statuses x" using quietD [OF q] quietD [OF quiet_prepare [OF p]] by simp
  have "\<exists>x'. launchOSD working_os L osdId x = Some (Inr x') \<and> x' = x_emit (SendStatus \<lparr>st_task_id = x_myTaskId x,
      st_state = TASK_RUNNING, st_message = Some (consumed_message L osdId)\<rparr>) x4"
    unfolding launchOSD_def Let_def p prod.case working_fork b by simp
  with st show ?thesis by auto
qed

end
