(* ===== verification/Cluster_Bootstrap.thy ===== *)
theory Cluster_Bootstrap
  imports Working_Host Bootstrap_Progress
begin

text \<open>
  The closed system can bootstrap a cluster: with one usable offer and a host where every command
  works, there is a run in which the executors themselves report, the initial MON registers the
  OSDs and every task comes up. Between two tasks the system is \<open>calm\<close>; the next task is launched,
  goes through its states (\<open>going\<close>), and the system is calm again with one task less missing.
\<close>

section \<open>States of the run\<close>

definition up_and_alive :: "'w cluster \<Rightarrow> TaskState \<Rightarrow> bool" where
  "up_and_alive c t \<longleftrightarrow> currentStatus t = RUNNING \<and> (\<exists>x. cl_exec c (slaveId t, executorId t) = Alive x)"

definition mon_up :: "'y agent_env \<Rightarrow> 'w cluster \<Rightarrow> bool" where
  "mon_up E c \<longleftrightarrow>
     (\<exists>offer t. let tid = task_id_of E MON 0 offer; tasks = map_of (taskMap (ag_sm (cl_ag c))) in
        tasks tid = Some t \<and> taskType t = MON \<and> up_and_alive c t \<and>
        (\<forall>k u. tasks k = Some u \<longrightarrow> taskType u = MON \<longrightarrow> k = tid))"

text \<open>Every task but \<open>tid\<close> has come up.\<close>

definition going :: "'y agent_env \<Rightarrow> Offer \<Rightarrow> 'w cluster \<Rightarrow> string \<Rightarrow> TaskState \<Rightarrow> bool" where
  "going E offer c tid t \<longleftrightarrow> cluster_inv E c \<and> ready E offer (cl_ag c) \<and>
     map_of (taskMap (ag_sm (cl_ag c))) tid = Some t \<and>
     (\<forall>k u. map_of (taskMap (ag_sm (cl_ag c))) k = Some u \<longrightarrow> k \<noteq> tid \<longrightarrow> up_and_alive c u)"

definition calm :: "'y agent_env \<Rightarrow> Offer \<Rightarrow> 'w cluster \<Rightarrow> bool" where
  "calm E offer c \<longleftrightarrow> cluster_inv E c \<and> ready E offer (cl_ag c) \<and>
     (\<forall>k u. map_of (taskMap (ag_sm (cl_ag c))) k = Some u \<longrightarrow> up_and_alive c u) \<and>
     (mon_up E c \<or> taskMap (ag_sm (cl_ag c)) = [] \<and> monIndex (ag_sm (cl_ag c)) = 0)"

text \<open>Mesos has the task and has not started its executor.\<close>

definition launchable :: "'y agent_env \<Rightarrow> 'w cluster \<Rightarrow> string \<Rightarrow> TaskState \<Rightarrow> bool" where
  "launchable E c tid t \<longleftrightarrow>
     (\<exists>offer k ini role executor labels.
        launched_task c (node_task E offer (taskType t) k ini role executor labels) \<and>
        tid = task_id_of E (taskType t) k offer \<and> (ini = 0 \<or> ini = 1) \<and> labels \<noteq> [] \<and>
        node_executor (executorId t) executor \<and> slaveId t = o_slave_id offer) \<and>
     cl_exec c (slaveId t, executorId t) = Absent"

lemma two_steps: "cluster_step E J a b \<Longrightarrow> cluster_step E J b c \<Longrightarrow> (cluster_step E J)\<^sup>*\<^sup>* a c"
  by (simp add: r_into_rtranclp converse_rtranclp_into_rtranclp)

text \<open>The number of tasks of each type and the requests stay the same.\<close>

definition same_load :: "'w cluster \<Rightarrow> 'w cluster \<Rightarrow> bool" where
  "same_load c c' \<longleftrightarrow> (\<forall>ty. live ty (ag_sm (cl_ag c')) = live ty (ag_sm (cl_ag c))) \<and>
     ag_pendingOSD (cl_ag c') = ag_pendingOSD (cl_ag c)"

lemma same_load_trans: "same_load a b \<Longrightarrow> same_load b c \<Longrightarrow> same_load a c"
  by (simp add: same_load_def)

lemma launched_taskI:
  "LaunchTasks oid tasks \<in> set (ag_driver (cl_ag c)) \<Longrightarrow> task \<in> set tasks \<Longrightarrow> launched_task c task"
  unfolding launched_task_def by blast

lemma launchableI:
  assumes "launched_task c (node_task E offer (taskType t) k ini role executor labels)"
    and "tid = task_id_of E (taskType t) k offer" and "ini = 0 \<or> ini = 1" and "labels \<noteq> []"
    and "node_executor (executorId t) executor" and "slaveId t = o_slave_id offer"
    and "cl_exec c (slaveId t, executorId t) = Absent"
  shows "launchable E c tid t"
  using assms unfolding launchable_def by blast

lemma going_inv:
  assumes "going E offer c tid t"
  shows "cluster_inv E c" "world_ok E (cl_exec c) (cl_net c) (cl_done c) (cl_ag c)" "ready E offer (cl_ag c)"
    "sm_inv (ag_sm (cl_ag c))" "map_of (taskMap (ag_sm (cl_ag c))) tid = Some t"
  using assms by (simp_all add: going_def cluster_inv_def ready_def agent_inv_def core_inv_def)

lemma going_settled:
  assumes "going E offer c tid t" and "up_and_alive c t" and "mon_up E c"
  shows "calm E offer c"
  using assms unfolding going_def calm_def by (metis option.inject)

section \<open>The initial MON\<close>

lemma initial_mon_loop_one:
  assumes "(k, t) \<in> set es" and "take 4 (taskId t) = ''mon0''"
    and "\<And>k' u. (k', u) \<in> set es \<Longrightarrow> take 4 (taskId u) = ''mon0'' \<Longrightarrow> u = t"
  shows "initial_mon_loop cur es = t"
  using assms
proof (induction es arbitrary: cur)
  case (Cons e es)
  obtain k' u where e: "e = (k', u)" by fastforce
  show ?case
  proof (cases "take 4 (taskId u) = ''mon0''")
    case True
    then show ?thesis using Cons(4) [of k' u] e by (simp add: eval_nat_numeral)
  next
    case False
    then have "(k, t) \<in> set es" using Cons(2,3) e by auto
    then have "initial_mon_loop u es = t" by (rule Cons(1) [OF _ Cons(3)]) (rule Cons(4) [OF list.set_intros(2)])
    with False e show ?thesis by (simp add: eval_nat_numeral)
  qed
qed simp

lemma mon0_name:
  assumes "lexcast_ok (ae_lc E)"
  shows "take 4 (task_id_of E MON 0 offer) = ''mon0''"
    "take 4 (task_id_of E ty k offer) = ''mon0'' \<Longrightarrow> ty = MON"
  using assms by (simp_all add: task_id_of_def createTaskName_def lexcast_strD)
    (cases ty; simp add: task_id_of_def createTaskName_def)

lemma mon_upE:
  assumes E: "env_ok E" and inv: "cluster_inv E c" and "mon_up E c"
  obtains offer t x where "map_of (taskMap (ag_sm (cl_ag c))) (task_id_of E MON 0 offer) = Some t"
    "taskType t = MON" "currentStatus t = RUNNING" "cl_exec c (slaveId t, executorId t) = Alive x"
    "initialMon E (cl_ag c) = t"
proof -
  let ?s = "ag_sm (cl_ag c)"
  obtain offer t x where t: "map_of (taskMap ?s) (task_id_of E MON 0 offer) = Some t" "taskType t = MON"
      "currentStatus t = RUNNING" "cl_exec c (slaveId t, executorId t) = Alive x"
    and one: "\<And>k u. map_of (taskMap ?s) k = Some u \<Longrightarrow> taskType u = MON \<Longrightarrow> k = task_id_of E MON 0 offer"
    using assms(3) unfolding mon_up_def up_and_alive_def Let_def by blast
  have core: "sm_inv ?s" "ids_ok E ?s"
    using inv by (simp_all add: cluster_inv_def world_ok_def agent_inv_def core_inv_def)
  have L: "lexcast_ok (ae_lc E)" using E by (simp add: env_ok_def)
  have u: "taskId u = k \<and> map_of (taskMap ?s) k = Some u \<and> (\<exists>j offer. k = task_id_of E (taskType u) j offer)"
    if "(k, u) \<in> set (ae_iter E (taskMap ?s))" for k u
  proof -
    have "(k, u) \<in> set (taskMap ?s)" using that iter_set [OF E] by blast
    then have "map_of (taskMap ?s) k = Some u" using core(1) by (auto simp: sm_inv_def)
    then show ?thesis using core unfolding sm_inv_def ids_ok_def by blast
  qed
  have "initialMon E (cl_ag c) = t"
    unfolding initialMon_def getInitialMon_def
  proof (rule initial_mon_loop_one)
    show in_iter: "(task_id_of E MON 0 offer, t) \<in> set (ae_iter E (taskMap ?s))"
      using map_of_SomeD [OF t(1)] iter_set [OF E] by blast
    then show "take 4 (taskId t) = ''mon0''" using u mon0_name(1) [OF L] by fastforce
    show "u = t" if "(k, u) \<in> set (ae_iter E (taskMap ?s))" "take 4 (taskId u) = ''mon0''" for k u
      using u [OF that(1)] that(2) mon0_name(2) [OF L] one t(1) by (metis option.inject)
  qed
  with that t show thesis by blast
qed

lemma mon_up_kept:
  assumes "mon_up E c"
    and "\<And>k u. taskType u = MON \<Longrightarrow> map_of (taskMap (ag_sm (cl_ag c'))) k = Some u \<longleftrightarrow> map_of (taskMap (ag_sm (cl_ag c))) k = Some u"
    and "\<And>key x. cl_exec c key = Alive x \<Longrightarrow> \<exists>x'. cl_exec c' key = Alive x'"
  shows "mon_up E c'"
  using assms unfolding mon_up_def up_and_alive_def Let_def by metis

section \<open>The executor starts\<close>

lemma post_one: "post [st] net = net(st_task_id st := net (st_task_id st) @ [st])"
  by (auto simp: post_def fun_eq_iff)

lemma executor_starts:
  fixes c :: "'w cluster"
  assumes E: "env_ok E" and g: "going E offer c tid t" and l: "launchable E c tid t"
  obtains x c' where "cluster_step E J c c'" and "going E offer c' tid t" and "cl_ag c' = cl_ag c"
    and "cl_exec c' = (cl_exec c)(((slaveId t, executorId t)) := Alive x)" and "x_myTaskId x = tid"
    and "cl_net c' tid = [\<lparr>st_task_id = tid, st_state = (if taskType t = OSD then TASK_STARTING else TASK_RUNNING), st_message = None\<rparr>]"
proof -
  let ?st = "\<lparr>st_task_id = tid, st_state = (if taskType t = OSD then TASK_STARTING else TASK_RUNNING), st_message = None\<rparr>"
  obtain off k ini role executor labels where task: "launched_task c (node_task E off (taskType t) k ini role executor labels)"
    and tid: "tid = task_id_of E (taskType t) k off" and ini: "ini = 0 \<or> ini = 1" and lab: "labels \<noteq> []"
    and ex: "node_executor (executorId t) executor" "slaveId t = o_slave_id off"
    and absent: "cl_exec c (slaveId t, executorId t) = Absent"
    using l unfolding launchable_def by blast
  let ?task = "node_task E off (taskType t) k ini role executor labels"
  let ?x = "x_registered working_os [] (CephExecutor_new 0 (undefined :: 'w))"
  have key: "x_key ?task = (slaveId t, executorId t)" "ei_command (ti_executor ?task) = ''./ceph-mesos-executor''"
    using ex by (simp_all add: x_key_def node_executor_def node_task_def Let_def)
  obtain x where run: "x_launchTask working_os (ae_lc E) 0 ?task ?x = Some (Inr x)"
      "statuses x = statuses ?x @ [?st]" "x_myTaskId x = tid"
    using working_launch [of E ini labels "0" off "taskType t" k role executor ?x] E ini lab tid by (auto simp: env_ok_def)
  let ?c = "ran (x_key ?task) ?x x (Alive x) c"
  have step: "cluster_step E J c ?c"
    by (rule cluster_step.launch [OF task key(2) _ refl run(1)]) (use key absent in simp)
  have "cl_net c tid = []"
    using world_okD(6) [OF going_inv(2,5) [OF g]] absent by simp
  then have "cl_net ?c tid = [?st]" using run(2) by (simp add: post_one)
  moreover have "cluster_inv E ?c" by (rule cluster_inv_step [OF E going_inv(1) [OF g] step])
  ultimately show thesis using that [OF step] g run(3) key(1) by (auto simp: going_def up_and_alive_def)
qed

section \<open>A status update arrives\<close>

lemma status_arrives:
  assumes E: "env_ok E" and g: "going E offer c tid t" and net: "cl_net c tid = st # sts"
    and f: "f = updateTaskToRunning tid \<and> new = RUNNING \<or> f = updateTaskToWaitingOSDID tid \<and> new = WAITING_OSDID"
    and ex: "expected t new" and upd: "statusUpdate E st (cl_ag c) = Inr (onSM f (cl_ag c))"
  obtains c' where "cluster_step E J c c'" and "going E offer c' tid (t\<lparr>currentStatus := new\<rparr>)"
    and "same_load c c'" and "cl_exec c' = cl_exec c"
    and "taskMap (ag_sm (cl_ag c')) = map_put tid (t\<lparr>currentStatus := new\<rparr>) (taskMap (ag_sm (cl_ag c)))"
    and "pendingOSDID (ag_sm (cl_ag c')) = pendingOSDID (ag_sm (cl_ag c))"
proof -
  let ?c = "c\<lparr>cl_ag := onSM f (cl_ag c), cl_net := (cl_net c)(tid := sts)\<rparr>"
  note sr = status_ready [OF going_inv(3,5) [OF g] f ex]
  have step: "cluster_step E J c ?c" by (rule cluster_step.status [OF net upd])
  have "cluster_inv E ?c" by (rule cluster_inv_step [OF E going_inv(1) [OF g] step])
  moreover have "pendingOSDID (f (ag_sm (cl_ag c))) = pendingOSDID (ag_sm (cl_ag c))"
    using f by (auto simp: updateTaskToRunning_def updateTaskToWaitingOSDID_def Let_def split: option.splits)
  ultimately show thesis using that [OF step] g sr(1,4,5) by (simp add: going_def up_and_alive_def same_load_def)
qed

section \<open>The MON registers an OSD\<close>

lemma registered:
  fixes c :: "'w cluster"
  assumes E: "env_ok E" and g: "going E offer c tid t" and l: "launchable E c tid t" and m: "mon_up E c"
    and i: "i < length (ag_driver (cl_ag c))" "i \<notin> cl_done c"
      "ag_driver (cl_ag c) ! i = SendFrameworkMessage (executorId (initialMon E (cl_ag c))) (slaveId (initialMon E (cl_ag c)))
        (lc_str (ae_lc E) (toExecutor_int REGISTER_OSD))"
  obtains c' where "(cluster_step E J)\<^sup>*\<^sup>* c c'" and "going E offer c' tid t" and "launchable E c' tid t" and "mon_up E c'"
    and "same_load c c'" and "pendingOSDID (ag_sm (cl_ag c')) \<noteq> []"
proof -
  let ?mon = "initialMon E (cl_ag c)"
  let ?key = "(slaveId ?mon, executorId ?mon)"
  have L: "lexcast_ok (ae_lc E)" using E by (simp add: env_ok_def)
  obtain x where x: "cl_exec c ?key = Alive x" using mon_upE [OF E going_inv(1) [OF g] m] by metis
  obtain cmd where reg: "registerOSD working_os x = (''0'', x_emit (Shell cmd) x)" by (simp add: registerOSD_def)
  let ?x = "x_emit (SendMessage ''0'') (x_emit (Shell cmd) x)"
  let ?c1 = "ran ?key x ?x (Alive ?x) (c\<lparr>cl_done := insert i (cl_done c)\<rparr>)"
  let ?c2 = "?c1\<lparr>cl_ag := onSM (addPendingOSDID 0) (cl_ag c), cl_replies := cl_replies c\<rparr>"
  have s1: "cluster_step E J c ?c1"
    by (rule cluster_step.message [OF i x registerOSD_message_read [OF L reg]])
  have "cl_replies ?c1 = cl_replies c @ (executorId ?mon, show_int 0) # []"
    by (simp add: ran_def x_emit_def)
  moreover have "frameworkMessage E (executorId ?mon) (show_int 0) (cl_ag ?c1) = Inr (onSM (addPendingOSDID 0) (cl_ag c))"
    using L by (simp add: frameworkMessage_def lexical_cast_int_show is_int32_def del: show_int_small)
  ultimately have s2: "cluster_step E J ?c1 ?c2"
    by (metis append_Nil2 cluster_step.reply)
  have inv: "cluster_inv E ?c2" by (rule cluster_inv_step [OF E cluster_inv_step [OF E going_inv(1) [OF g] s1] s2])
  note r = message_ready [OF going_inv(3) [OF g], where n = 0]
  have tm: "taskMap (addPendingOSDID 0 s) = taskMap s" for s by (simp add: addPendingOSDID_def)
  have "going E offer ?c2 tid t" using g inv r(1) by (auto simp: going_def up_and_alive_def tm)
  moreover have "launchable E ?c2 tid t"
    using l x by (auto simp: launchable_def launched_task_def)
  moreover have "mon_up E ?c2" by (rule mon_up_kept [OF m]) (auto simp: tm)
  moreover have "same_load c ?c2" using r(4) by (simp add: same_load_def)
  moreover have "pendingOSDID (ag_sm (cl_ag ?c2)) \<noteq> []" by (simp add: addPendingOSDID_def)
  ultimately show thesis using that two_steps [OF s1 s2] by blast
qed

section \<open>The scheduler gives an id\<close>

lemma id_given:
  assumes E: "env_ok E" and g: "going E offer c tid t" and t: "taskType t = OSD" "currentStatus t = WAITING_OSDID"
    and ids: "pendingOSDID (ag_sm (cl_ag c)) \<noteq> []"
  obtains c' i n where "cluster_step E J c c'" and "going E offer c' tid (t\<lparr>currentStatus := STARTING\<rparr>)"
    and "same_load c c'" and "cl_exec c' = cl_exec c"
    and "map_of (taskMap (ag_sm (cl_ag c'))) = (map_of (taskMap (ag_sm (cl_ag c))))(tid \<mapsto> t\<lparr>currentStatus := STARTING\<rparr>)"
    and "i < length (ag_driver (cl_ag c'))" and "i \<notin> cl_done c'"
    and "ag_driver (cl_ag c') ! i = SendFrameworkMessage (executorId t) (slaveId t) (launchOSD_message (ae_lc E) n)"
proof -
  let ?ag = "handleWaitingOSDTasks E (cl_ag c)" and ?s = "ag_sm (cl_ag c)" and ?t = "t\<lparr>currentStatus := STARTING\<rparr>"
  let ?c = "c\<lparr>cl_ag := ?ag\<rparr>" and ?ts = "getWaitingOSDTask (ae_iter E) (ag_sm (cl_ag c))"
  have step: "cluster_step E J c ?c"
    by (rule cluster_step.offers [of E MON 0 "[]"]) (simp add: resourceOffers_def)
  have iter: "map_order_ok (ae_iter E)" using E by (simp add: env_ok_def)
  note entry = waiting_entry [OF going_inv(4) [OF g] iter]
  have tt: "taskId t = tid" using going_inv(4,5) [OF g] by (auto simp: sm_inv_def)
  have "u = t" if "u \<in> set ?ts" for u
    using entry [OF that] g unfolding going_def up_and_alive_def by fastforce
  moreover have "t \<in> set ?ts"
    using map_of_SomeD [OF going_inv(5) [OF g]] t iter_set [OF E] by (force simp: getWaitingOSDTask_def)
  moreover have "distinct ?ts" using waiting_distinct [OF going_inv(4) [OF g] iter] distinct_map by blast
  ultimately have ts: "?ts = [t]"
    by (metis distinct_length_2_or_more list.set_cases list.set_intros(1) list.set_intros(2) neq_Nil_conv)
  obtain n ns where ns: "rev (pendingOSDID ?s) = n # ns" using ids by (cases "rev (pendingOSDID ?s)") auto
  have tm: "map_of (taskMap (ag_sm ?ag)) = (map_of (taskMap ?s))(tid \<mapsto> ?t)"
    and calls: "ag_driver ?ag = ag_driver (cl_ag c) @ [SendFrameworkMessage (executorId t) (slaveId t) (launchOSD_message (ae_lc E) n)]"
    using waiting_loop_spec [of "ae_lc E" "[t]" "cl_ag c"] ids going_inv(5) [OF g] tt ns
    by (auto simp: handleWaitingOSDTasks_def ts launch_calls_def fun_eq_iff take_Cons' split: if_splits)
  have wr: "ready E offer ?ag" "same_load c ?c"
    using waiting_ready(1) [OF E going_inv(3) [OF g]] handleWaiting_live_leaked(1) [OF E going_inv(4) [OF g]]
    by (simp_all add: same_load_def)
  have "going E offer ?c tid ?t"
    using g wr(1) cluster_inv_step [OF E going_inv(1) [OF g] step] by (simp add: going_def up_and_alive_def tm)
  moreover have "length (ag_driver (cl_ag c)) \<notin> cl_done c" using world_okD(4) [OF going_inv(2) [OF g]] by blast
  ultimately show thesis using that [OF step, of "length (ag_driver (cl_ag c))" n] tm wr(2) by (simp add: calls)
qed

section \<open>The OSD starts\<close>

lemma osd_starts:
  fixes c :: "'w cluster"
  assumes E: "env_ok E" and g: "going E offer c tid t" and t: "taskType t = OSD" "currentStatus t = STARTING"
    and i: "i < length (ag_driver (cl_ag c))" "i \<notin> cl_done c"
      "ag_driver (cl_ag c) ! i = SendFrameworkMessage (executorId t) (slaveId t) (launchOSD_message (ae_lc E) n)"
    and x: "cl_exec c (slaveId t, executorId t) = Alive x"
  obtains x' c' where "cluster_step E J c c'" and "going E offer c' tid t" and "cl_ag c' = cl_ag c"
    and "cl_exec c' = (cl_exec c)((slaveId t, executorId t) := Alive x')"
    and "cl_net c' tid = [\<lparr>st_task_id = tid, st_state = TASK_RUNNING, st_message = Some (consumed_message (ae_lc E) (show_int n))\<rparr>]"
proof -
  let ?st = "\<lparr>st_task_id = tid, st_state = TASK_RUNNING, st_message = Some (consumed_message (ae_lc E) (show_int n))\<rparr>"
  have L: "lexcast_ok (ae_lc E)" using E by (simp add: env_ok_def)
  have "i \<in> launch_msgs E (ag_driver (cl_ag c)) (cl_done c) t"
    using i by (auto simp: launch_msgs_def launch_to_def)
  then have q: "cl_net c tid = []" "x_myTaskId x = tid"
    using world_okD(6) [OF going_inv(2,5) [OF g]] x by (auto simp: alive_ok_def)
  obtain x' where x': "x_frameworkMessage working_os (ae_lc E) (launchOSD_message (ae_lc E) n) x = Some (Inr x')"
      "statuses x' = statuses x @ [?st]"
    using working_launchOSD [OF L, of "show_int n" x] q(2) unfolding launchOSD_message_read [OF L] by auto
  let ?c = "ran (slaveId t, executorId t) x x' (Alive x') (c\<lparr>cl_done := insert i (cl_done c)\<rparr>)"
  have step: "cluster_step E J c ?c" by (rule cluster_step.message [OF i x x'(1)])
  have "cl_net ?c tid = [?st]" using q(1) x'(2) by (simp add: post_one)
  with that [OF step] g cluster_inv_step [OF E going_inv(1) [OF g] step] show thesis by (auto simp: going_def up_and_alive_def)
qed

section \<open>The next task\<close>

lemma calm_idle:
  assumes "calm E offer c"
  shows "nPend ty (ag_sm (cl_ag c)) = 0" "nRun ty (ag_sm (cl_ag c)) = live ty (ag_sm (cl_ag c))"
proof -
  let ?s = "ag_sm (cl_ag c)"
  have "sm_inv ?s" using assms by (simp add: calm_def ready_def agent_inv_def core_inv_def)
  then have "\<not> is_pending (currentStatus u)" if "(k, u) \<in> set (taskMap ?s)" for k u
    using assms that by (auto simp: calm_def up_and_alive_def is_pending_def sm_inv_def)
  then show "nPend ty ?s = 0" by (auto simp: n_defs count_vals_0_iff)
  then show "nRun ty ?s = live ty ?s" by (simp add: live_def)
qed

text \<open>The type of task that may come next, together with what that says about the initial MON.\<close>

definition next_type :: "'y agent_env \<Rightarrow> 'w cluster \<Rightarrow> TaskType \<Rightarrow> bool" where
  "next_type E c ty \<longleftrightarrow> may_launch ty (ag_sm (cl_ag c)) \<and>
     (ty \<noteq> MON \<and> mon_up E c \<or> ty = MON \<and> taskMap (ag_sm (cl_ag c)) = [] \<and> monIndex (ag_sm (cl_ag c)) = 0)"

lemma calm_next_type:
  assumes c: "calm E offer c" and ml: "may_launch ty (ag_sm (cl_ag c))"
  shows "next_type E c ty"
proof -
  let ?s = "ag_sm (cl_ag c)"
  have inv: "sm_inv ?s" using c by (simp add: calm_def ready_def agent_inv_def core_inv_def)
  then have c': "currentPhase ?s = phase_of ?s" "runningNum MON ?s = nRun MON ?s" "0 \<le> stagingNum MON ?s"
    using counters_nonneg [OF inv, of MON] by (auto simp: sm_inv_def counters_ok_def)
  have "nRun MON ?s \<noteq> 0" if "mon_up E c"
    using that unfolding mon_up_def up_and_alive_def Let_def by (force simp: n_defs count_vals_0_iff dest!: map_of_SomeD)
  then have "1 \<le> nRun MON ?s" if "mon_up E c" using that n_nonneg(1) [of MON ?s] by linarith
  then have "ty \<noteq> MON" if "mon_up E c" using that ml c'(2,3) by auto
  moreover have "ty = MON" if "taskMap ?s = []"
  proof -
    have "nRun MON ?s = 0" using that by (simp add: n_defs)
    then show ?thesis using ml c'(1,2) by (cases ty) (auto simp: phase_of_def)
  qed
  ultimately show ?thesis using c ml unfolding next_type_def calm_def by blast
qed

lemma calm_may_launch:
  assumes c: "calm E offer c" and ph: "currentPhase (ag_sm (cl_ag c)) \<noteq> WAINTING_REQUEST"
  obtains ty where "next_type E c ty" "live ty (ag_sm (cl_ag c)) < (if ty = OSD then 3 else 1)"
proof -
  have "core_inv E (ag_sm (cl_ag c))" "\<not> osd_stuck (ag_sm (cl_ag c))"
    using c by (simp_all add: calm_def ready_def agent_inv_def)
  from idle_may_launch [OF this ph calm_idle(1) [OF c]] show thesis using that calm_next_type [OF c] by blast
qed

text \<open>The last of the calls that a step has added is not delivered yet.\<close>

lemma last_call_open:
  assumes "world_ok E exec net dn ag" and "ag_driver ag' = ag_driver ag @ cs" and "cs \<noteq> []"
  obtains i where "i < length (ag_driver ag')" "i \<notin> dn" "ag_driver ag' ! i = last (ag_driver ag')"
proof
  show "length (ag_driver ag') - 1 \<notin> dn" using world_okD(4) [OF assms(1)] assms(2,3) by (cases cs) auto
qed (use assms(2,3) in \<open>simp_all add: last_conv_nth\<close>)

lemma next_task:
  assumes E: "env_ok E" and calm: "calm E offer c" and nx: "next_type E c ty" and rq: "taken (cl_ag c) reqs"
  obtains c' tid t where "cluster_step E J c c'" and "going E offer c' tid t" and "launchable E c' tid t"
    and "currentStatus t = STAGING" and "ag_pendingOSD (cl_ag c') = reqs"
    and "\<And>ty'. live ty' (ag_sm (cl_ag c')) = live ty' (ag_sm (cl_ag c)) + (if ty' = ty then 1 else 0)"
    and "taskType t \<noteq> MON \<and> mon_up E c' \<or>
      taskType t = MON \<and> tid = task_id_of E MON 0 offer \<and> dom (map_of (taskMap (ag_sm (cl_ag c')))) = {tid}"
    and "taskType t = OSD \<Longrightarrow> \<exists>i < length (ag_driver (cl_ag c')). i \<notin> cl_done c' \<and>
      ag_driver (cl_ag c') ! i = SendFrameworkMessage (executorId (initialMon E (cl_ag c'))) (slaveId (initialMon E (cl_ag c')))
        (lc_str (ae_lc E) (toExecutor_int REGISTER_OSD))"
proof -
  let ?s = "ag_sm (cl_ag c)"
  have inv: "cluster_inv E c" and w: "world_ok E (cl_exec c) (cl_net c) (cl_done c) (cl_ag c)" and r: "ready E offer (cl_ag c)"
    using calm by (simp_all add: calm_def cluster_inv_def)
  have ty: "may_launch ty ?s" and mon: "ty \<noteq> MON \<and> mon_up E c \<or> ty = MON \<and> taskMap ?s = [] \<and> monIndex ?s = 0"
    using nx by (simp_all add: next_type_def)
  define k where "k = indexNum ty ?s"
  let ?tid = "task_id_of E ty k offer" and ?eid = "executor_id_of E ty k 0"
  let ?t = "TaskState_new ?tid ?eid ty (o_hostname offer) (o_slave_id offer) STAGING"
  obtain ag' executor labels cs where ro: "resourceOffers E MON 0 [(offer, 0)] (cl_ag c) = Inr ag'"
    and r': "ready E offer ag'" "\<And>ty'. live ty' (ag_sm ag') = live ty' ?s + (if ty' = ty then 1 else 0)" "ag_pendingOSD ag' = reqs"
    and tm: "taskMap (ag_sm ag') = map_put ?tid ?t (taskMap ?s)"
    and calls: "ag_driver ag' = ag_driver (cl_ag c) @ LaunchTasks (o_id offer)
      [node_task E offer ty k (if ty = MON \<and> k = 0 then 1 else 0) (cfg_role (ag_config (cl_ag c))) executor labels] # cs"
    and lab: "labels \<noteq> []" and ex: "node_executor ?eid executor"
    and reg: "ty = OSD \<Longrightarrow> last (ag_driver ag') = SendFrameworkMessage (executorId (initialMon E ag')) (slaveId (initialMon E ag'))
      (lc_str (ae_lc E) (toExecutor_int REGISTER_OSD))"
    using launch_ready [OF E r idle_no_waiting [OF E calm_idle(1) [OF calm]] rq ty k_def] by metis
  let ?c = "c\<lparr>cl_ag := ag'\<rparr>"
  let ?task = "node_task E offer ty k (if ty = MON \<and> k = 0 then 1 else 0) (cfg_role (ag_config (cl_ag c))) executor labels"
  have step: "cluster_step E J c ?c" by (rule cluster_step.offers [OF ro])
  have new: "taskType ?t = ty" "currentStatus ?t = STAGING" "executorId ?t = ?eid" "slaveId ?t = o_slave_id offer"
    by (simp_all add: TaskState_new_def)
  have go: "going E offer ?c ?tid ?t"
    using cluster_inv_step [OF E inv step] r'(1) calm by (auto simp: going_def calm_def up_and_alive_def tm)
  have "\<not> has_entry ?s (o_slave_id offer) ?eid"
    using fresh_executor_id [OF E world_okD(2) [OF w]] unfolding has_entry_def k_def by blast
  then have "cl_exec c (o_slave_id offer, ?eid) = Absent"
    using world_okD(8) [OF w] executor_id_not_disk by blast
  moreover have "launched_task ?c ?task"
    by (rule launched_taskI [of "o_id offer" "[?task]"]) (simp_all add: calls)
  ultimately have lau: "launchable E ?c ?tid ?t"
    using launchableI [of ?c E offer ?t k] lab ex by (simp add: new split: if_splits)
  have first: "ty \<noteq> MON \<and> mon_up E ?c \<or>
      ty = MON \<and> ?tid = task_id_of E MON 0 offer \<and> dom (map_of (taskMap (ag_sm (cl_ag ?c)))) = {?tid}"
  proof (cases "ty = MON")
    case True
    then show ?thesis using mon by (simp add: tm k_def)
  next
    case False
    have fresh: "map_of (taskMap ?s) ?tid = None"
      using fresh_task_id [OF E] r unfolding k_def by (simp add: ready_def agent_inv_def core_inv_def)
    have "mon_up E ?c" by (rule mon_up_kept [of E c]) (use mon False fresh new in \<open>auto simp: tm\<close>)
    with False show ?thesis by simp
  qed
  show thesis
  proof (rule that [OF step go lau])
    show "taskType ?t \<noteq> MON \<and> mon_up E ?c \<or> taskType ?t = MON \<and> ?tid = task_id_of E MON 0 offer \<and>
        dom (map_of (taskMap (ag_sm (cl_ag ?c)))) = {?tid}"
      unfolding new by (rule first)
    show "\<exists>i < length (ag_driver (cl_ag ?c)). i \<notin> cl_done ?c \<and>
        ag_driver (cl_ag ?c) ! i = SendFrameworkMessage (executorId (initialMon E (cl_ag ?c))) (slaveId (initialMon E (cl_ag ?c)))
          (lc_str (ae_lc E) (toExecutor_int REGISTER_OSD))" if "taskType ?t = OSD"
    proof -
      note osd = reg [OF that [unfolded new]]
      obtain i where "i < length (ag_driver ag')" "i \<notin> cl_done c" "ag_driver ag' ! i = last (ag_driver ag')"
        by (rule last_call_open [OF w calls]) simp
      then show ?thesis using osd by (intro exI [of _ i]) simp
    qed
  qed (use r'(2,3) new in simp_all)
qed

section \<open>One task after the other\<close>

text \<open>The executor of a launched task starts, and its first status arrives.\<close>

lemma task_starts:
  fixes c :: "'w cluster"
  assumes E: "env_ok E" and g: "going E offer c tid t" and l: "launchable E c tid t" and st: "currentStatus t = STAGING"
    and new: "new = (if taskType t = OSD then WAITING_OSDID else RUNNING)"
  obtains x c' where "(cluster_step E J)\<^sup>*\<^sup>* c c'" and "going E offer c' tid (t\<lparr>currentStatus := new\<rparr>)"
    and "same_load c c'"
    and "cl_exec c' = (cl_exec c)((slaveId t, executorId t) := Alive x)"
    and "taskMap (ag_sm (cl_ag c')) = map_put tid (t\<lparr>currentStatus := new\<rparr>) (taskMap (ag_sm (cl_ag c)))"
    and "pendingOSDID (ag_sm (cl_ag c')) = pendingOSDID (ag_sm (cl_ag c))"
proof -
  obtain x c1 where c1: "cluster_step E J c c1" "going E offer c1 tid t" "cl_ag c1 = cl_ag c"
      "cl_exec c1 = (cl_exec c)((slaveId t, executorId t) := Alive x)"
    and net: "cl_net c1 tid = [\<lparr>st_task_id = tid, st_state = (if taskType t = OSD then TASK_STARTING else TASK_RUNNING), st_message = None\<rparr>]"
    using executor_starts [OF E g l] by metis
  let ?f = "if taskType t = OSD then updateTaskToWaitingOSDID tid else updateTaskToRunning tid"
  have "expected t new" using st by (simp add: new)
  moreover have "statusUpdate E \<lparr>st_task_id = tid, st_state = (if taskType t = OSD then TASK_STARTING else TASK_RUNNING), st_message = None\<rparr>
      (cl_ag c1) = Inr (onSM ?f (cl_ag c1))" by (simp add: statusUpdate_def)
  ultimately obtain c' where "cluster_step E J c1 c'" "going E offer c' tid (t\<lparr>currentStatus := new\<rparr>)"
    "same_load c1 c'" "cl_exec c' = cl_exec c1"
    "taskMap (ag_sm (cl_ag c')) = map_put tid (t\<lparr>currentStatus := new\<rparr>) (taskMap (ag_sm (cl_ag c1)))"
    "pendingOSDID (ag_sm (cl_ag c')) = pendingOSDID (ag_sm (cl_ag c1))"
    using status_arrives [OF E c1(2) net, of ?f new] by (metis new)
  with that [of c' x] two_steps [OF c1(1)] c1(3,4) show thesis by (simp add: same_load_def)
qed

text \<open>From the first status of an OSD to its last.\<close>

lemma osd_comes_up:
  fixes c :: "'w cluster"
  assumes E: "env_ok E" and g: "going E offer c tid t" and t: "taskType t = OSD" "currentStatus t = WAITING_OSDID"
    and ids: "pendingOSDID (ag_sm (cl_ag c)) \<noteq> []" and x: "cl_exec c (slaveId t, executorId t) = Alive x" and m: "mon_up E c"
  shows "\<exists>c'. (cluster_step E J)\<^sup>*\<^sup>* c c' \<and> calm E offer c' \<and> same_load c c'"
proof -
  let ?t = "t\<lparr>currentStatus := STARTING\<rparr>"
  obtain c1 i n where c1: "cluster_step E J c c1" "going E offer c1 tid ?t"
      "same_load c c1" "cl_exec c1 = cl_exec c"
      "map_of (taskMap (ag_sm (cl_ag c1))) = (map_of (taskMap (ag_sm (cl_ag c))))(tid \<mapsto> ?t)"
    and i: "i < length (ag_driver (cl_ag c1))" "i \<notin> cl_done c1"
      "ag_driver (cl_ag c1) ! i = SendFrameworkMessage (executorId t) (slaveId t) (launchOSD_message (ae_lc E) n)"
    using id_given [OF E g t ids] by metis
  obtain x' c2 where c2: "cluster_step E J c1 c2" "going E offer c2 tid ?t" "cl_ag c2 = cl_ag c1"
      "cl_exec c2 = (cl_exec c1)((slaveId t, executorId t) := Alive x')"
    and net: "cl_net c2 tid = [\<lparr>st_task_id = tid, st_state = TASK_RUNNING, st_message = Some (consumed_message (ae_lc E) (show_int n))\<rparr>]"
    by (rule osd_starts [OF E c1(2) _ _ i(1,2), of n x]) (use i(3) t(1) x c1(4) in simp_all)
  have L: "lexcast_ok (ae_lc E)" using E by (simp add: env_ok_def)
  have upd: "statusUpdate E \<lparr>st_task_id = tid, st_state = TASK_RUNNING, st_message = Some (consumed_message (ae_lc E) (show_int n))\<rparr>
      (cl_ag c2) = Inr (onSM (updateTaskToRunning tid) (cl_ag c2))"
    by (rule consumed_message_read [OF L]) (simp_all add: show_int_no_delim)
  have ex: "expected ?t RUNNING" using t by simp
  obtain c3 where c3: "cluster_step E J c2 c3" "going E offer c3 tid (?t\<lparr>currentStatus := RUNNING\<rparr>)"
      "same_load c2 c3" "cl_exec c3 = cl_exec c2"
      "taskMap (ag_sm (cl_ag c3)) = map_put tid (?t\<lparr>currentStatus := RUNNING\<rparr>) (taskMap (ag_sm (cl_ag c2)))"
    using status_arrives [OF E c2(2) net _ ex upd] by blast
  have "mon_up E c3"
    by (rule mon_up_kept [OF m])
       (use c1(4,5) c2(3,4) c3(4,5) going_inv(5) [OF g] t(1) in auto)
  then have "calm E offer c3"
    by (rule going_settled [OF c3(2), rotated]) (simp add: up_and_alive_def c2(4) c3(4))
  moreover have "(cluster_step E J)\<^sup>*\<^sup>* c c3"
    using c1(1) c2(1) c3(1) by (meson converse_rtranclp_into_rtranclp rtranclp.rtrancl_refl)
  moreover have "same_load c c3" using c1(3) c2(3) c3(3) by (simp add: same_load_def)
  ultimately show ?thesis by blast
qed

lemma task_comes_up:
  fixes c :: "'w cluster"
  assumes E: "env_ok E" and calm: "calm E offer c" and nx: "next_type E c ty" and rq: "taken (cl_ag c) reqs"
  shows "\<exists>c'. (cluster_step E J)\<^sup>*\<^sup>* c c' \<and> calm E offer c' \<and> ag_pendingOSD (cl_ag c') = reqs \<and>
    (\<forall>ty'. live ty' (ag_sm (cl_ag c')) = live ty' (ag_sm (cl_ag c)) + (if ty' = ty then 1 else 0))"
proof -
  obtain c1 tid t where s1: "cluster_step E J c c1" and g1: "going E offer c1 tid t" and l1: "launchable E c1 tid t"
    and t: "currentStatus t = STAGING" and m1: "ag_pendingOSD (cl_ag c1) = reqs"
      "\<And>ty'. live ty' (ag_sm (cl_ag c1)) = live ty' (ag_sm (cl_ag c)) + (if ty' = ty then 1 else 0)"
    and first: "taskType t \<noteq> MON \<and> mon_up E c1 \<or>
      taskType t = MON \<and> tid = task_id_of E MON 0 offer \<and> dom (map_of (taskMap (ag_sm (cl_ag c1)))) = {tid}"
    and reg: "taskType t = OSD \<Longrightarrow> \<exists>i < length (ag_driver (cl_ag c1)). i \<notin> cl_done c1 \<and>
      ag_driver (cl_ag c1) ! i = SendFrameworkMessage (executorId (initialMon E (cl_ag c1))) (slaveId (initialMon E (cl_ag c1)))
        (lc_str (ae_lc E) (toExecutor_int REGISTER_OSD))"
    using next_task [OF E calm nx rq] by metis
  have "\<exists>c'. (cluster_step E J)\<^sup>*\<^sup>* c1 c' \<and> calm E offer c' \<and> same_load c1 c'"
  proof (cases "taskType t = OSD")
    case True
    with first have "mon_up E c1" by auto
    then obtain c2 where c2: "(cluster_step E J)\<^sup>*\<^sup>* c1 c2" "going E offer c2 tid t" "launchable E c2 tid t" "mon_up E c2"
        "same_load c1 c2" "pendingOSDID (ag_sm (cl_ag c2)) \<noteq> []"
      using registered [OF E g1 l1] reg [OF True] by metis
    let ?t = "t\<lparr>currentStatus := WAITING_OSDID\<rparr>"
    obtain x c3 where c3: "(cluster_step E J)\<^sup>*\<^sup>* c2 c3" "going E offer c3 tid ?t"
        "same_load c2 c3"
        "cl_exec c3 = (cl_exec c2)((slaveId t, executorId t) := Alive x)"
        "taskMap (ag_sm (cl_ag c3)) = map_put tid ?t (taskMap (ag_sm (cl_ag c2)))"
        "pendingOSDID (ag_sm (cl_ag c3)) = pendingOSDID (ag_sm (cl_ag c2))"
      using task_starts [OF E c2(2,3) t, of WAITING_OSDID] True by metis
    have "mon_up E c3"
      by (rule mon_up_kept [OF c2(4)]) (use c3(4,5) going_inv(5) [OF c2(2)] True in auto)
    then obtain c4 where "(cluster_step E J)\<^sup>*\<^sup>* c3 c4" "calm E offer c4" "same_load c3 c4"
      using osd_comes_up [OF E c3(2), of x] True c2(6) c3(4,6) by auto
    then show ?thesis using c2(1,5) c3(1,3) by (meson rtranclp_trans same_load_trans)
  next
    case False
    let ?t = "t\<lparr>currentStatus := RUNNING\<rparr>"
    obtain x c2 where c2: "(cluster_step E J)\<^sup>*\<^sup>* c1 c2" "going E offer c2 tid ?t"
        "same_load c1 c2"
        "cl_exec c2 = (cl_exec c1)((slaveId t, executorId t) := Alive x)"
        "taskMap (ag_sm (cl_ag c2)) = map_put tid ?t (taskMap (ag_sm (cl_ag c1)))"
      using task_starts [OF E g1 l1 t, of RUNNING] False by metis
    have "mon_up E c2"
    proof (cases "taskType t = MON")
      case True
      then have "map_of (taskMap (ag_sm (cl_ag c2))) = [tid \<mapsto> ?t]" "tid = task_id_of E MON 0 offer"
        using first c2(5) by (auto simp: fun_eq_iff)
      then show ?thesis
        unfolding mon_up_def up_and_alive_def Let_def using True c2(4) by (intro exI [of _ offer] exI [of _ ?t]) simp
    next
      case False
      then have "mon_up E c1" using first by blast
      then show ?thesis by (rule mon_up_kept) (use c2(4,5) going_inv(5) [OF g1] False in auto)
    qed
    then have "calm E offer c2"
      by (rule going_settled [OF c2(2), rotated]) (simp add: up_and_alive_def c2(4))
    with c2(1,3) show ?thesis by blast
  qed
  then obtain c' where "(cluster_step E J)\<^sup>*\<^sup>* c1 c'" "calm E offer c'" "same_load c1 c'" by blast
  with m1 converse_rtranclp_into_rtranclp [of "cluster_step E J", OF s1] show ?thesis
    by (intro exI [of _ c']) (simp add: same_load_def)
qed

lemma calm_completes:
  fixes c :: "'w cluster"
  assumes "env_ok E" and "calm E offer c"
  shows "\<exists>c'. (cluster_step E J)\<^sup>*\<^sup>* c c' \<and> calm E offer c' \<and> currentPhase (ag_sm (cl_ag c')) = WAINTING_REQUEST \<and>
    ag_pendingOSD (cl_ag c') = ag_pendingOSD (cl_ag c)"
  using assms(2)
proof (induction "nat (missing (ag_sm (cl_ag c)))" arbitrary: c rule: less_induct)
  case less
  show ?case
  proof (cases "currentPhase (ag_sm (cl_ag c)) = WAINTING_REQUEST")
    case False
    obtain ty where ty: "next_type E c ty" "live ty (ag_sm (cl_ag c)) < (if ty = OSD then 3 else 1)"
      by (rule calm_may_launch [OF less(2) False])
    obtain c1 where c1: "(cluster_step E J)\<^sup>*\<^sup>* c c1" "calm E offer c1" "ag_pendingOSD (cl_ag c1) = ag_pendingOSD (cl_ag c)"
        "\<And>ty'. live ty' (ag_sm (cl_ag c1)) = live ty' (ag_sm (cl_ag c)) + (if ty' = ty then 1 else 0)"
      using task_comes_up [OF assms(1) less(2) ty(1) taken_bootstrap [OF False]] by blast
    have "nat (missing (ag_sm (cl_ag c1))) < nat (missing (ag_sm (cl_ag c)))"
      using missing_work_nonneg(1) [of "ag_sm (cl_ag c1)"] missing_launched [OF c1(4) ty(2)] by simp
    from less(1) [OF this c1(2)] show ?thesis using rtranclp_trans [OF c1(1)] c1(3) by fastforce
  qed (use less(2) in blast)
qed

text \<open>When requests are served every pending instance brings one more OSD.\<close>

lemma calm_phase:
  assumes "calm E offer c"
  shows "currentPhase (ag_sm (cl_ag c)) = WAINTING_REQUEST \<longleftrightarrow>
    1 \<le> live MON (ag_sm (cl_ag c)) \<and> 3 \<le> live OSD (ag_sm (cl_ag c)) \<and> 1 \<le> live RADOSGW (ag_sm (cl_ag c))"
proof -
  have inv: "sm_inv (ag_sm (cl_ag c))" using assms by (simp add: calm_def ready_def agent_inv_def core_inv_def)
  have "runningNum ty (ag_sm (cl_ag c)) = live ty (ag_sm (cl_ag c))" for ty
    using inv calm_idle(2) [OF assms, of ty] by (auto simp: sm_inv_def counters_ok_def)
  from this [of MON] this [of OSD] this [of RADOSGW] inv show ?thesis
    by (auto simp: sm_inv_def phase_of_def)
qed

lemma calm_grows:
  fixes c :: "'w cluster"
  assumes E: "env_ok E" and "calm E offer c" and "currentPhase (ag_sm (cl_ag c)) = WAINTING_REQUEST"
    and "\<forall>r \<in> set (ag_pendingOSD (cl_ag c)). 1 \<le> r"
  shows "\<exists>c'. (cluster_step E J)\<^sup>*\<^sup>* c c' \<and> calm E offer c' \<and> currentPhase (ag_sm (cl_ag c')) = WAINTING_REQUEST \<and>
    ag_pendingOSD (cl_ag c') = [] \<and>
    live OSD (ag_sm (cl_ag c')) = live OSD (ag_sm (cl_ag c)) + sum_list (ag_pendingOSD (cl_ag c))"
  using assms(2-)
proof (induction "nat (sum_list (ag_pendingOSD (cl_ag c)))" arbitrary: c rule: less_induct)
  case less
  show ?case
  proof (cases "ag_pendingOSD (cl_ag c)")
    case Nil
    with less show ?thesis by (intro exI [of _ c]) simp
  next
    case (Cons r rs)
    let ?reqs = "if r = 1 then rs else (r - 1) # rs"
    have rq: "taken (cl_ag c) ?reqs"
      using less(3) Cons by (auto simp: taken_def fetchPendingRESTfulRequest_def Let_def)
    have nx: "next_type E c OSD" by (rule calm_next_type [OF less(2)]) (simp add: less(3))
    obtain c1 where c1: "(cluster_step E J)\<^sup>*\<^sup>* c c1" "calm E offer c1" "ag_pendingOSD (cl_ag c1) = ?reqs"
        "\<forall>ty. live ty (ag_sm (cl_ag c1)) = live ty (ag_sm (cl_ag c)) + (if ty = OSD then 1 else 0)"
      using task_comes_up [OF E less(2) nx rq] by blast
    have ph: "currentPhase (ag_sm (cl_ag c1)) = WAINTING_REQUEST"
      using less(3) c1(4) unfolding calm_phase [OF less(2)] calm_phase [OF c1(2)] by simp
    have pos: "1 \<le> r" "\<forall>r \<in> set rs. 1 \<le> r" using less(4) Cons by simp_all
    then have "0 \<le> sum_list rs" by (intro sum_list_nonneg) force
    then have sum: "nat (sum_list (ag_pendingOSD (cl_ag c1))) < nat (sum_list (ag_pendingOSD (cl_ag c)))"
      using pos(1) Cons c1(3) by auto
    have "\<forall>r \<in> set (ag_pendingOSD (cl_ag c1)). 1 \<le> r" using pos c1(3) by auto
    from less(1) [OF sum c1(2) ph this] obtain c' where c': "(cluster_step E J)\<^sup>*\<^sup>* c1 c'" "calm E offer c'"
        "currentPhase (ag_sm (cl_ag c')) = WAINTING_REQUEST" "ag_pendingOSD (cl_ag c') = []"
        "live OSD (ag_sm (cl_ag c')) = live OSD (ag_sm (cl_ag c1)) + sum_list (ag_pendingOSD (cl_ag c1))" by blast
    have "live OSD (ag_sm (cl_ag c')) = live OSD (ag_sm (cl_ag c)) + sum_list (ag_pendingOSD (cl_ag c))"
      using c'(5) c1(3,4) Cons by simp
    with c'(2-4) rtranclp_trans [OF c1(1) c'(1)] show ?thesis by blast
  qed
qed

section \<open>The start and the end\<close>

lemma calm_init:
  assumes "cluster_init c" and "usable E (cl_ag c) offer"
  shows "calm E offer c"
proof -
  obtain indet config where ag: "cl_ag c = CephSchedulerAgent_new indet config"
    using assms(1) by (auto simp: cluster_init_def agent_init_def)
  have inv: "cluster_inv E c" by (rule cluster_inv_init [OF assms(1)])
  have "\<not> osd_stuck (ag_sm (cl_ag c))"
    by (simp add: ag CephSchedulerAgent_new_def osd_stuck_def leaked_def n_defs StateMachine_new_def)
  then have "ready E offer (cl_ag c)"
    using inv assms(2) by (simp add: ready_def cluster_inv_def world_ok_def)
  with inv show ?thesis by (simp add: calm_def ag CephSchedulerAgent_new_def StateMachine_new_def)
qed

lemma calm_up:
  assumes "calm E offer c" and "map_of (taskMap (ag_sm (cl_ag c))) tid = Some t"
  shows "currentStatus t = RUNNING \<and> (\<exists>x. cl_exec c (slaveId t, executorId t) = Alive x)"
  using assms unfolding calm_def up_and_alive_def by blast

lemma calm_request:
  assumes "env_ok E" and c: "calm E offer c" and p: "processData J data (ag_pendingOSD (cl_ag c)) = Inr p"
  shows "cluster_step E J c (c\<lparr>cl_ag := (cl_ag c)\<lparr>ag_pendingOSD := p\<rparr>\<rparr>)"
    "calm E offer (c\<lparr>cl_ag := (cl_ag c)\<lparr>ag_pendingOSD := p\<rparr>\<rparr>)"
proof -
  let ?c = "c\<lparr>cl_ag := (cl_ag c)\<lparr>ag_pendingOSD := p\<rparr>\<rparr>"
  show step: "cluster_step E J c ?c" by (rule cluster_step.request [OF p])
  have "ready E offer (cl_ag ?c)"
    by (rule ready_same [of E offer "cl_ag c"]) (use c in \<open>simp_all add: calm_def ready_def agent_inv_def\<close>)
  moreover have "mon_up E ?c" if "mon_up E c" by (rule mon_up_kept [OF that]) simp_all
  ultimately show "calm E offer ?c"
    using c cluster_inv_step [OF assms(1) _ step] by (auto simp: calm_def up_and_alive_def)
qed

end
