(* ===== verification/Partition_Safety.thy ===== *)
theory Partition_Safety
  imports Cluster_Model
begin

text \<open>
  The partitions of a host along a run of the scheduler: devices that wait to be prepared,
  partitions in the pools of \<open>HostConfig\<close>, and partitions that the labels of launched tasks
  carry. None of them occurs twice, so no partition is given to two OSD tasks.
\<close>

section \<open>Partitions in the labels of launched tasks\<close>

definition host_of :: "StateMachine \<Rightarrow> string \<Rightarrow> string option" where
  "host_of s tid = map_option hostName (map_of (taskMap s) tid)"

definition label_values :: "string \<Rightarrow> TaskInfo \<Rightarrow> string list" where
  "label_values key task =
     (case ti_labels task of
        None \<Rightarrow> []
      | Some ls \<Rightarrow> filter (\<lambda>p. p \<noteq> []) (map snd (filter (\<lambda>l. fst l = key) ls)))"

fun call_parts :: "string \<Rightarrow> StateMachine \<Rightarrow> string \<Rightarrow> driver_call \<Rightarrow> string list" where
  "call_parts key s h (LaunchTasks oid tasks) =
     concat (map (label_values key) (filter (\<lambda>task. host_of s (ti_task_id task) = Some h) tasks))"
| "call_parts key s h _ = []"

text \<open>What the tasks of host \<open>h\<close> were given, in the order of their launch.\<close>

definition given :: "string \<Rightarrow> agent \<Rightarrow> string \<Rightarrow> string list" where
  "given key ag h = concat (map (call_parts key (ag_sm ag) h) (ag_driver ag))"

section \<open>Invariant\<close>

definition osd_all :: "HostConfig \<Rightarrow> string list" where
  "osd_all hc = osdPartitions hc @ map (\<lambda>d. d @ ''1'') (hc_pendingOSDDevs hc)"

definition jnl_all :: "'y agent_env \<Rightarrow> HostConfig \<Rightarrow> string list" where
  "jnl_all E hc = jnlPartitions hc @ jnl_names (ae_lc E) (jnlPartsCount hc) (hc_pendingJNLDevs hc)"

text \<open>The devices of a host file are different from each other, and journals are not named like partitions.\<close>

definition hosts_ok :: "'y agent_env \<Rightarrow> bool" where
  "hosts_ok E \<longleftrightarrow>
     (\<forall>h hc. HostConfig_by_hostname (ae_config E) h = Inr hc \<longrightarrow>
        distinct (hc_pendingOSDDevs hc) \<and> distinct (hc_pendingJNLDevs hc) \<and>
        (\<forall>d \<in> set (hc_pendingJNLDevs hc). dev_name_ok d))"

definition known :: "agent \<Rightarrow> bool" where
  "known ag \<longleftrightarrow> (\<forall>oid tasks. LaunchTasks oid tasks \<in> set (ag_driver ag) \<longrightarrow>
     (\<forall>task \<in> set tasks. disk_named (ti_task_id task) \<or> ti_task_id task \<in> dom (map_of (taskMap (ag_sm ag)))))"

definition host_parts_ok :: "'y agent_env \<Rightarrow> agent \<Rightarrow> string \<Rightarrow> bool" where
  "host_parts_ok E ag h \<longleftrightarrow>
     (case hostConfigMap (ag_sm ag) h of
        None \<Rightarrow> given osddevsKey ag h = [] \<and> given jnldevsKey ag h = []
      | Some hc \<Rightarrow> distinct (given osddevsKey ag h @ osd_all hc) \<and> distinct (given jnldevsKey ag h @ jnl_all E hc))"

definition parts_inv :: "'y agent_env \<Rightarrow> agent \<Rightarrow> bool" where
  "parts_inv E ag \<longleftrightarrow> agent_inv E ag \<and> known ag \<and> (\<forall>h. host_parts_ok E ag h)"

lemma host_partsD:
  "host_parts_ok E ag h \<Longrightarrow> distinct (given osddevsKey ag h) \<and> distinct (given jnldevsKey ag h)"
  by (auto simp: host_parts_ok_def split: option.splits)

lemma host_parts_cong:
  assumes "given osddevsKey ag' h = given osddevsKey ag h" and "given jnldevsKey ag' h = given jnldevsKey ag h"
    and "hostConfigMap (ag_sm ag') h = hostConfigMap (ag_sm ag) h"
  shows "host_parts_ok E ag' h = host_parts_ok E ag h"
  unfolding host_parts_ok_def assms ..

text \<open>The tasks that were launched stay with their hosts.\<close>

lemma call_parts_kept:
  assumes "agent_inv E ag" and "agent_inv E ag'" and "known ag" and "tasks_kept (ag_sm ag) (ag_sm ag')"
    and "c \<in> set (ag_driver ag)"
  shows "call_parts key (ag_sm ag') h c = call_parts key (ag_sm ag) h c"
proof (cases c)
  case (LaunchTasks oid tasks)
  have nd: "host_of (ag_sm ag) tid = None \<and> host_of (ag_sm ag') tid = None" if "disk_named tid" for tid
    using assms(1,2) that task_id_not_disk unfolding agent_inv_def core_inv_def ids_ok_def host_of_def
    by (metis (no_types, lifting) not_None_eq option.map_disc_iff)
  have "host_of (ag_sm ag') (ti_task_id task) = host_of (ag_sm ag) (ti_task_id task)" if "task \<in> set tasks" for task
  proof (cases "disk_named (ti_task_id task)")
    case False
    have "LaunchTasks oid tasks \<in> set (ag_driver ag)" using assms(5) LaunchTasks by simp
    then have "ti_task_id task \<in> dom (map_of (taskMap (ag_sm ag)))"
      using assms(3) that False unfolding known_def by blast
    then obtain t where "map_of (taskMap (ag_sm ag)) (ti_task_id task) = Some t" by blast
    moreover from this obtain st where "map_of (taskMap (ag_sm ag')) (ti_task_id task) = Some (t\<lparr>currentStatus := st\<rparr>)"
      using assms(4) unfolding tasks_kept_def by blast
    ultimately show ?thesis by (simp add: host_of_def)
  qed (use nd in simp)
  then show ?thesis
    unfolding LaunchTasks call_parts.simps by (metis (no_types, lifting) filter_cong)
qed simp_all

lemma given_kept:
  assumes "agent_inv E ag" and "agent_inv E ag'" and "known ag" and "tasks_kept (ag_sm ag) (ag_sm ag')"
    and "ag_driver ag' = ag_driver ag @ cs"
  shows "given key ag' h = given key ag h @ concat (map (call_parts key (ag_sm ag') h) cs)"
proof -
  have "map (call_parts key (ag_sm ag') h) (ag_driver ag) = map (call_parts key (ag_sm ag) h) (ag_driver ag)"
    using call_parts_kept [OF assms(1-4)] by simp
  then show ?thesis unfolding given_def assms(5) map_append concat_append by (simp only:)
qed

lemma known_kept:
  assumes "known ag" and "tasks_kept (ag_sm ag) (ag_sm ag')" and "ag_driver ag' = ag_driver ag @ cs"
    and "\<And>oid tasks task. LaunchTasks oid tasks \<in> set cs \<Longrightarrow> task \<in> set tasks \<Longrightarrow>
       disk_named (ti_task_id task) \<or> ti_task_id task \<in> dom (map_of (taskMap (ag_sm ag')))"
  shows "known ag'"
proof -
  have "dom (map_of (taskMap (ag_sm ag))) \<subseteq> dom (map_of (taskMap (ag_sm ag')))"
    using assms(2) unfolding tasks_kept_def by fastforce
  then show ?thesis
    using assms(1,3,4) unfolding known_def by fastforce
qed

text \<open>A step after which no task was given anything: the pools stay, but for hosts that are new.\<close>

lemma parts_quiet:
  assumes inv: "parts_inv E ag" and hosts: "hosts_ok E" and L: "lexcast_ok (ae_lc E)"
    and "agent_inv E ag'" and kept: "tasks_kept (ag_sm ag) (ag_sm ag')"
    and calls: "ag_driver ag' = ag_driver ag @ cs" and cs: "\<forall>c \<in> set cs. disk_call c \<or> (\<forall>oid tasks. c \<noteq> LaunchTasks oid tasks)"
    and step: "hosts_step E (ag_sm ag) (ag_sm ag')"
  shows "parts_inv E ag'"
proof -
  from inv have i: "agent_inv E ag" "known ag" "\<And>h. host_parts_ok E ag h" by (auto simp: parts_inv_def)
  have "known ag'"
    by (rule known_kept [OF i(2) kept calls]) (use cs in \<open>fastforce simp: disk_launch_def\<close>)
  have none: "call_parts key (ag_sm ag') h c = []" if "c \<in> set cs" for key h c
  proof (cases c)
    case (LaunchTasks oid tasks)
    then have "\<forall>task \<in> set tasks. disk_named (ti_task_id task)" using cs that by (fastforce simp: disk_launch_def)
    moreover have "map_of (taskMap (ag_sm ag')) tid = None" if "disk_named tid" for tid
      using assms(4) that task_id_not_disk unfolding agent_inv_def core_inv_def ids_ok_def
      by (metis not_None_eq)
    ultimately show ?thesis by (simp add: LaunchTasks host_of_def filter_empty_conv)
  qed simp_all
  have given: "given key ag' h = given key ag h" for key h
    using given_kept [OF i(1) assms(4) i(2) kept calls] none by simp
  have "host_parts_ok E ag' h" for h
  proof (cases "hostConfigMap (ag_sm ag') h")
    case None
    then have "hostConfigMap (ag_sm ag) h = None" using step by (auto simp: hosts_step_def)
    then show ?thesis using i(3) [of h] None by (simp add: host_parts_ok_def given)
  next
    case (Some hc')
    then have fr: "host_from E (ag_sm ag) h hc'" using step by (simp add: hosts_step_def)
    show ?thesis
    proof (cases "hostConfigMap (ag_sm ag) h")
      case None
      then obtain hc where hc: "HostConfig_by_hostname (ae_config E) h = Inr hc" "same_pools hc hc'"
        using fr by (auto simp: host_from_None)
      have "osdPartitions hc = []" "jnlPartitions hc = []"
        using hc(1) by (auto simp: HostConfig_by_hostname_def elim!: bind_resE)
      moreover have "distinct (map (\<lambda>d. d @ ''1'') (hc_pendingOSDDevs hc))"
          "distinct (jnl_names (ae_lc E) (jnlPartsCount hc) (hc_pendingJNLDevs hc))"
        using hosts hc(1) osd_names_distinct jnl_names_distinct [OF L] unfolding hosts_ok_def by blast+
      ultimately show ?thesis
        using i(3) [of h] None Some hc(2)
        by (simp add: host_parts_ok_def given same_pools_def osd_all_def jnl_all_def)
    next
      case s: (Some hc)
      then have "same_pools hc hc'" using fr by (simp add: host_from_Some)
      with i(3) [of h] s Some show ?thesis
        by (simp add: host_parts_ok_def given same_pools_def osd_all_def jnl_all_def)
    qed
  qed
  then show ?thesis using \<open>known ag'\<close> assms(4) by (simp add: parts_inv_def)
qed

section \<open>Steps\<close>

text \<open>Taking a partition from the pool moves it behind those that were given.\<close>

lemma distinct_take_last:
  assumes "distinct (g @ ps @ qs)" and "ps \<noteq> []"
  shows "distinct ((g @ [last ps]) @ butlast ps @ qs)"
proof -
  obtain rs p where "ps = rs @ [p]" using assms(2) by (metis rev_exhaust)
  with assms(1) show ?thesis by auto
qed

lemma addHostConfig_osd:
  assumes "addHostConfig OSD h ag = (labels, ag')" and "hostConfigMap (ag_sm ag) h = Some hc"
  shows "\<exists>hc'. hostConfigMap (ag_sm ag') = (hostConfigMap (ag_sm ag))(h \<mapsto> hc') \<and>
    label_values osddevsKey (node_task E offer OSD k ini role executor labels) =
      (if osdPartitions hc = [] \<or> last (osdPartitions hc) = [] then [] else [last (osdPartitions hc)]) \<and>
    label_values jnldevsKey (node_task E offer OSD k ini role executor labels) =
      (if jnlPartitions hc = [] \<or> last (jnlPartitions hc) = [] then [] else [last (jnlPartitions hc)]) \<and>
    osdPartitions hc' = butlast (osdPartitions hc) \<and> jnlPartitions hc' = butlast (jnlPartitions hc) \<and>
    hc_pendingOSDDevs hc' = hc_pendingOSDDevs hc \<and> hc_pendingJNLDevs hc' = hc_pendingJNLDevs hc \<and>
    jnlPartsCount hc' = jnlPartsCount hc"
  using assms
  by (cases "osdPartitions hc = []"; cases "jnlPartitions hc = []")
     (auto simp: addHostConfig_def getConfig_def setConfig_def popOSDPartition_def popJournalPartition_def
       label_values_def Let_def)

lemma addHostConfig_other:
  assumes "addHostConfig ty h ag = (labels, ag')" and "ty \<noteq> OSD"
  shows "ag' = ag \<and> label_values osddevsKey (node_task E offer ty k ini role executor labels) = [] \<and>
    label_values jnldevsKey (node_task E offer ty k ini role executor labels) = []"
  using assms by (auto simp: addHostConfig_def label_values_def Let_def)

lemma agent_inv_hosts: "agent_inv E ag \<Longrightarrow> agent_inv E (ag\<lparr>ag_sm := (ag_sm ag)\<lparr>hostConfigMap := m\<rparr>\<rparr>)"
  using core_inv_frame [OF _ same_tasks_hostConfigMap, of E "ag_sm ag" m]
    same_index_hostConfigMap [of "ag_sm ag" m] by (simp add: agent_inv_def same_index_def)

lemma parts_launch:
  assumes inv: "parts_inv E ag" and inv': "agent_inv E ag'"
    and kept: "tasks_kept (ag_sm ag) (ag_sm ag')" and h: "hostConfigMap (ag_sm ag) h = Some hc"
    and calls: "ag_driver ag' = ag_driver ag @ LaunchTasks oid [node_task E offer ty k ini role executor labels] # cs"
    and cs: "\<forall>c \<in> set cs. register_call E c"
    and entry: "host_of (ag_sm ag') (task_id_of E ty k offer) = Some h"
    and add: "addHostConfig ty h ag0 = (labels, ag1)" "hostConfigMap (ag_sm ag0) = hostConfigMap (ag_sm ag)"
    and hosts': "hostConfigMap (ag_sm ag') = hostConfigMap (ag_sm ag1)"
  shows "parts_inv E ag'"
proof -
  let ?task = "node_task E offer ty k ini role executor labels"
  from inv have i: "agent_inv E ag" "known ag" "\<And>h. host_parts_ok E ag h" by (auto simp: parts_inv_def)
  have "known ag'"
  proof (rule known_kept [OF i(2) kept calls])
    fix o' tasks task assume "LaunchTasks o' tasks \<in> set (LaunchTasks oid [?task] # cs)" "task \<in> set tasks"
    then have "task = ?task" using cs by (auto simp: register_call_def)
    then show "disk_named (ti_task_id task) \<or> ti_task_id task \<in> dom (map_of (taskMap (ag_sm ag')))"
      using entry by (auto simp: host_of_def)
  qed
  have "call_parts key (ag_sm ag') h' c = []" if "c \<in> set cs" for key h' c
    using cs that by (auto simp: register_call_def)
  then have given: "given key ag' h' = given key ag h' @ (if h' = h then label_values key ?task else [])" for key h'
    using given_kept [OF i(1) inv' i(2) kept calls] entry by simp
  have "host_parts_ok E ag' h'" for h'
  proof (cases "ty = OSD")
    case False
    then have "ag1 = ag0" "label_values osddevsKey ?task = []" "label_values jnldevsKey ?task = []"
      using addHostConfig_other [OF add(1)] by blast+
    then have "given osddevsKey ag' h' = given osddevsKey ag h'" "given jnldevsKey ag' h' = given jnldevsKey ag h'"
      by (simp_all add: given)
    then show ?thesis
      using i(3) [of h'] add(2) hosts' \<open>ag1 = ag0\<close> host_parts_cong [of ag' h' ag E] by simp
  next
    case True
    obtain hc' where hc': "hostConfigMap (ag_sm ag') = (hostConfigMap (ag_sm ag))(h \<mapsto> hc')"
        "label_values osddevsKey ?task =
          (if osdPartitions hc = [] \<or> last (osdPartitions hc) = [] then [] else [last (osdPartitions hc)])"
        "label_values jnldevsKey ?task =
          (if jnlPartitions hc = [] \<or> last (jnlPartitions hc) = [] then [] else [last (jnlPartitions hc)])"
        "osdPartitions hc' = butlast (osdPartitions hc)" "jnlPartitions hc' = butlast (jnlPartitions hc)"
        "hc_pendingOSDDevs hc' = hc_pendingOSDDevs hc" "hc_pendingJNLDevs hc' = hc_pendingJNLDevs hc"
        "jnlPartsCount hc' = jnlPartsCount hc"
      using addHostConfig_osd [OF add(1) [unfolded True], of hc E offer k ini role executor] add(2) h hosts'
      unfolding True by auto
    have pool: "distinct (g @ (if ps = [] \<or> last ps = [] then [] else [last ps]) @ butlast ps @ qs)"
      if "distinct (g @ ps @ qs)" for g ps qs :: "string list"
      using distinct_take_last [OF that] that by (auto dest: in_set_butlastD simp: distinct_butlast)
    show ?thesis
    proof (cases "h' = h")
      case True
      have "distinct (given osddevsKey ag h @ osdPartitions hc @ map (\<lambda>d. d @ ''1'') (hc_pendingOSDDevs hc))"
        "distinct (given jnldevsKey ag h @ jnlPartitions hc @
           jnl_names (ae_lc E) (jnlPartsCount hc) (hc_pendingJNLDevs hc))"
        using i(3) [of h] h by (simp_all add: host_parts_ok_def osd_all_def jnl_all_def)
      from pool [OF this(1)] pool [OF this(2)] show ?thesis
        unfolding True host_parts_ok_def hc'(1) given hc'(2,3) fun_upd_same option.case osd_all_def jnl_all_def hc'(4-8)
        by simp
    next
      case False
      then show ?thesis using i(3) [of h'] hc'(1) host_parts_cong [of ag' h' ag E] by (simp add: given)
    qed
  qed
  then show ?thesis using \<open>known ag'\<close> inv' by (simp add: parts_inv_def)
qed

lemma hostConfigMap_waiting: "hostConfigMap (ag_sm (handleWaitingOSDTasks E ag)) = hostConfigMap (ag_sm ag)"
proof -
  have "hostConfigMap (ag_sm (waiting_loop L ts ag)) = hostConfigMap (ag_sm ag)" for L ts
    by (induction ts arbitrary: ag) (simp_all add: Let_def)
  then show ?thesis by (simp add: handleWaitingOSDTasks_def)
qed

lemma parts_waiting:
  assumes inv: "parts_inv E ag" and env: "env_ok E" "hosts_ok E"
  shows "parts_inv E (handleWaitingOSDTasks E ag)"
proof -
  have i: "agent_inv E ag" using inv by (simp add: parts_inv_def)
  obtain cs where cs: "ag_driver (handleWaitingOSDTasks E ag) = ag_driver ag @ cs"
      "\<forall>c \<in> set cs. \<exists>e s m. c = SendFrameworkMessage e s m"
    using waiting_loop_driver unfolding handleWaitingOSDTasks_def by blast
  show ?thesis
    by (rule parts_quiet [OF inv env(2) _ agent_inv_handleWaiting [OF env(1) i] _ cs(1)])
       (use env(1) cs(2) in \<open>auto simp: env_ok_def handleWaitingOSDTasks_def waiting_loop_kept
          hosts_step_same hostConfigMap_waiting [unfolded handleWaitingOSDTasks_def]\<close>)
qed

lemma parts_offer_step:
  assumes inv: "parts_inv E ag" and env: "env_ok E" "hosts_ok E" and ph: "phase = currentPhase (ag_sm ag)"
    and s: "offer_step E phase (offer, now) ((ty, tok, ini), ag) = Inr (loc', ag')"
  shows "parts_inv E ag'"
proof -
  have i: "agent_inv E ag" using inv by (simp add: parts_inv_def)
  have inv': "agent_inv E ag'" by (rule offer_step_inv(1) [OF env(1) i ph s])
  have L: "lexcast_ok (ae_lc E)" using env(1) by (simp add: env_ok_def)
  note quiet = parts_quiet [OF inv env(2) L]
  from s ph show ?thesis
  proof (cases rule: offer_step_cases)
    case declined
    then obtain cs where "ag_driver ag' = ag_driver ag @ cs" "\<forall>c \<in> set cs. disk_call c" by blast
    then show ?thesis
      by (intro quiet [OF inv' _ _ _ declined(7)]) (use declined(1) in \<open>auto simp: same_tasks_def tasks_kept_eq\<close>)
  next
    case (launched t1 k eid ini' executor labels cs ag1 ag0)
    let ?m = "ag\<lparr>ag_sm := (ag_sm ag)\<lparr>hostConfigMap := hostConfigMap (ag_sm ag0)\<rparr>\<rparr>"
    have "hosts_step E (ag_sm ag) (ag_sm ?m)" using launched(14) by (simp add: hosts_step_def)
    then have m: "parts_inv E ?m"
      by (intro quiet [OF agent_inv_hosts [OF i], where cs = "[]"]) (auto simp: tasks_kept_eq)
    obtain hc where hc: "hostConfigMap (ag_sm ag0) (o_hostname offer) = Some hc" using launched(15) by blast
    have fresh: "map_of (taskMap (ag_sm ag)) (task_id_of E t1 k offer) = None"
      using fresh_task_id [OF env(1)] i launched(2) by (simp add: agent_inv_def core_inv_def)
    have "tasks_kept (ag_sm ag) (ag_sm ag')"
      using launched(3,5) fresh by (intro tasks_kept_put) (auto simp: same_tasks_def)
    then have kept: "tasks_kept (ag_sm ?m) (ag_sm ag')" by (simp add: tasks_kept_def)
    show ?thesis
      by (rule parts_launch [OF m inv' kept _ _ launched(11) _ launched(16)])
         (use hc launched(5,10) in \<open>auto simp: host_of_def TaskState_new_def\<close>)
  qed
qed

lemma parts_offers:
  assumes inv: "parts_inv E ag" and env: "env_ok E" "hosts_ok E"
    and "resourceOffers E ty0 tok0 offers ag = Inr ag'"
  shows "parts_inv E ag'"
proof -
  obtain loc' where
    "offers_loop E (currentPhase (ag_sm ag)) offers ((ty0, tok0, 0), handleWaitingOSDTasks E ag) = Inr (loc', ag')"
    using assms(4) by (rule resourceOffers_loop)
  then show ?thesis
    by (rule offers_loop_induct [where P = "\<lambda>_ _. parts_inv E"])
       (use parts_waiting [OF inv env] parts_offer_step [OF _ env] in auto)
qed

lemma pools_disks_done:
  "osd_all (disks_done E hc) = osd_all hc" "jnl_all E (disks_done E hc) = jnl_all E hc"
  by (simp_all add: osd_all_def jnl_all_def disks_done_def setDiskPreparationDone_def updateDiskPartition_eq jnl_names_def)

lemma parts_disks_done:
  assumes inv: "parts_inv E ag" and ag': "ag' = onSM (setConfig h (disks_done E (getConfig (ag_sm ag) h))) ag"
  shows "parts_inv E ag'"
proof -
  from inv have i: "agent_inv E ag" "known ag" "\<And>h. host_parts_ok E ag h" by (auto simp: parts_inv_def)
  have tm: "taskMap (ag_sm ag') = taskMap (ag_sm ag)"
    using same_tasks_setConfig [of "ag_sm ag"] by (simp add: ag' same_tasks_def)
  have inv': "agent_inv E ag'" using i(1) by (simp add: ag' agent_inv_def core_inv_setConfig)
  have given: "given key ag' h' = given key ag h'" for key h'
    using given_kept [OF i(1) inv' i(2) tasks_kept_eq [OF tm], of "[]"] by (simp add: ag')
  have hosts: "hostConfigMap (ag_sm ag') = (case hostConfigMap (ag_sm ag) h of
      None \<Rightarrow> hostConfigMap (ag_sm ag)
    | Some hc \<Rightarrow> (hostConfigMap (ag_sm ag))(h \<mapsto> disks_done E hc))"
    by (simp add: ag' setConfig_def getConfig_def split: option.splits)
  have "host_parts_ok E ag' h'" for h'
  proof (cases "h' = h \<and> hostConfigMap (ag_sm ag) h \<noteq> None")
    case True
    then obtain hc where "hostConfigMap (ag_sm ag) h = Some hc" by blast
    then show ?thesis using i(3) [of h] True by (simp add: host_parts_ok_def given hosts pools_disks_done)
  next
    case False
    then have "hostConfigMap (ag_sm ag') h' = hostConfigMap (ag_sm ag) h'" by (auto simp: hosts split: option.splits)
    then show ?thesis using i(3) [of h'] host_parts_cong given by blast
  qed
  moreover have "known ag'" using i(2) by (simp add: known_def tm) (simp add: ag')
  ultimately show ?thesis using inv' by (simp add: parts_inv_def)
qed

lemma parts_step:
  assumes env: "env_ok E" "hosts_ok E" and inv: "parts_inv E ag" and step: "agent_step E J ag ag'"
  shows "parts_inv E ag'"
proof -
  have i: "agent_inv E ag" using inv by (simp add: parts_inv_def)
  have inv': "agent_inv E ag'" using scheduler.inv_step [OF _ step] env(1) i by blast
  have L: "lexcast_ok (ae_lc E)" using env(1) by (simp add: env_ok_def)
  have kept: "tasks_kept (ag_sm ag) (ag_sm ag')" by (rule agent_step_kept [OF env(1) i step])
  have quiet: "parts_inv E ag'" if "hostConfigMap (ag_sm ag') = hostConfigMap (ag_sm ag)" "ag_driver ag' = ag_driver ag"
    by (rule parts_quiet [OF inv env(2) L inv' kept, where cs = "[]"]) (simp_all add: that hosts_step_same)
  from step show ?thesis
  proof (cases rule: agent_step.cases)
    case offers
    then show ?thesis using parts_offers [OF inv env] by blast
  next
    case (status st)
    have tasks: "parts_inv E ag'"
      if "ag' \<in> {ag, onSM (updateTaskToRunning t) ag, onSM (updateTaskToWaitingOSDID t) ag, onSM (updateTaskToFailed t) ag}" for t
      using that by (intro quiet) (auto simp: updateTaskToRunning_def updateTaskToWaitingOSDID_def
          updateTaskToFailed_def Let_def split: option.splits)
    from status(1) show ?thesis
    proof (cases rule: statusUpdate_cases)
      case (disk h hc)
      then show ?thesis using parts_disks_done [OF inv] by simp
    qed (rule tasks, blast)+
  next
    case message
    then show ?thesis
      by (intro quiet) (auto simp: frameworkMessage_def addPendingOSDID_def split: if_splits elim!: bind_resE)
  next
    case request
    then show ?thesis by (intro quiet) simp_all
  qed
qed

lemma parts_init:
  assumes "agent_init ag"
  shows "parts_inv E ag"
proof -
  obtain indet config where ag: "ag = CephSchedulerAgent_new indet config" using assms by (auto simp: agent_init_def)
  have "agent_inv E ag" using core_inv_new [of E indet config]
    by (simp add: ag agent_inv_def CephSchedulerAgent_new_def StateMachine_new_def)
  then show ?thesis
    by (simp add: parts_inv_def known_def host_parts_ok_def given_def)
       (simp add: ag CephSchedulerAgent_new_def StateMachine_new_def given_def)
qed

interpretation partitions: step_invariant agent_init "agent_step E J" "\<lambda>ag. env_ok E \<and> hosts_ok E \<longrightarrow> parts_inv E ag"
  for E :: "'y agent_env" and J :: "'j json_lib"
  by unfold_locales (use parts_init parts_step in blast)+

end
