(* ===== verification/Driver_Loop.thy ===== *)
theory Driver_Loop
  imports Ceph_Prelude
begin

text \<open>
  The loop of a Mesos driver, as far as the program sees it: \<open>run\<close> calls back into the program
  any number of times and then returns a status, or never returns (\<open>None\<close>). Which callback
  comes next is the driver's choice and may depend on everything that has happened, so it is a
  parameter. An exception that leaves a callback ends the process with that error. The
  three programs (\<^verbatim>\<open>framework\<close> and the two executors) return 0 exactly when the
  driver was stopped.
\<close>

section \<open>Model\<close>

datatype driver_status = DRIVER_NOT_STARTED | DRIVER_RUNNING | DRIVER_ABORTED | DRIVER_STOPPED

datatype 'e driver_action = Calls 'e | Returns driver_status

type_synonym ('e, 's) driver = "nat \<Rightarrow> 's \<Rightarrow> 'e driver_action"

partial_function (option) driver_run ::
  "('e \<Rightarrow> 's \<Rightarrow> 's res option) \<Rightarrow> ('e, 's) driver \<Rightarrow> nat \<Rightarrow> 's \<Rightarrow> (driver_status \<times> 's) res option" where
  "driver_run handle D n s =
     (case D n s of
        Returns st \<Rightarrow> Some (Inr (st, s))
      | Calls e \<Rightarrow> Option.bind (handle e s) (\<lambda>r.
          case r of Inl err \<Rightarrow> Some (Inl err) | Inr s' \<Rightarrow> driver_run handle D (Suc n) s'))"

text \<open>\<open>driver.run() == DRIVER_STOPPED ? 0 : 1\<close>\<close>

definition run_code :: "driver_status \<Rightarrow> int" where
  "run_code st = (if st = DRIVER_STOPPED then 0 else 1)"

section \<open>Callbacks in sequence\<close>

fun run_events :: "('e \<Rightarrow> 's \<Rightarrow> 's res option) \<Rightarrow> 'e list \<Rightarrow> 's \<Rightarrow> 's res option" where
  "run_events handle [] s = Some (Inr s)"
| "run_events handle (e # es) s = Option.bind (handle e s) (\<lambda>r.
     case r of Inl err \<Rightarrow> Some (Inl err) | Inr s' \<Rightarrow> run_events handle es s')"

lemma run_events_Cons:
  "run_events handle (e # es) s = Some (Inr t) \<longleftrightarrow>
     (\<exists>s'. handle e s = Some (Inr s') \<and> run_events handle es s' = Some (Inr t))"
  by (cases "handle e s") (auto split: sum.splits)

lemma run_events_ConsE:
  assumes "run_events handle (e # es) s = Some (Inr t)"
  obtains s' where "handle e s = Some (Inr s')" and "run_events handle es s' = Some (Inr t)"
  using assms run_events_Cons by metis

lemma run_events_append:
  "run_events handle (es @ es') s = Option.bind (run_events handle es s) (\<lambda>r.
     case r of Inl err \<Rightarrow> Some (Inl err) | Inr s' \<Rightarrow> run_events handle es' s')"
proof (induction es arbitrary: s)
  case (Cons e es)
  show ?case
    by (cases "handle e s") (auto simp: Cons.IH split: sum.splits)
qed simp

text \<open>The events that the driver \<open>D\<close> chooses along a run.\<close>

fun chosen :: "('e \<Rightarrow> 's \<Rightarrow> 's res option) \<Rightarrow> ('e, 's) driver \<Rightarrow> nat \<Rightarrow> 's \<Rightarrow> 'e list \<Rightarrow> bool" where
  "chosen handle D n s [] \<longleftrightarrow> True"
| "chosen handle D n s (e # es) \<longleftrightarrow>
     D n s = Calls e \<and> (\<forall>s'. handle e s = Some (Inr s') \<longrightarrow> chosen handle D (Suc n) s' es)"

text \<open>A run that returns is a finite sequence of callbacks, and every such sequence is a run.\<close>

lemma driver_run_round:
  assumes IH: "\<And>handle D n s r. run handle D n s = Some r \<Longrightarrow> \<forall>st t. r = Inr (st, t) \<longrightarrow>
      (\<exists>es. chosen handle D n s es \<and> run_events handle es s = Some (Inr t) \<and> D (n + length es) t = Returns st)"
    and round: "(case D n s of
        Returns st \<Rightarrow> Some (Inr (st, s))
      | Calls e \<Rightarrow> Option.bind (handle e s) (\<lambda>r.
          case r of Inl err \<Rightarrow> Some (Inl err) | Inr s' \<Rightarrow> run handle D (Suc n) s')) = Some r"
  shows "\<forall>st t. r = Inr (st, t) \<longrightarrow>
      (\<exists>es. chosen handle D n s es \<and> run_events handle es s = Some (Inr t) \<and> D (n + length es) t = Returns st)"
proof (intro allI impI)
  fix st t assume r: "r = Inr (st, t)"
  show "\<exists>es. chosen handle D n s es \<and> run_events handle es s = Some (Inr t) \<and> D (n + length es) t = Returns st"
  proof (cases "D n s")
    case (Returns st')
    with r round show ?thesis by (intro exI [of _ "[]"]) auto
  next
    case (Calls e)
    with r round obtain s' where s': "handle e s = Some (Inr s')" "run handle D (Suc n) s' = Some (Inr (st, t))"
      by (cases "handle e s") (auto split: sum.splits)
    from IH [OF s'(2)] obtain es where
      "chosen handle D (Suc n) s' es" "run_events handle es s' = Some (Inr t)" "D (Suc n + length es) t = Returns st"
      by blast
    with Calls s'(1) show ?thesis by (intro exI [of _ "e # es"]) auto
  qed
qed

lemma driver_run_events:
  assumes "driver_run handle D n s = Some (Inr (st, t))"
  shows "\<exists>es. chosen handle D n s es \<and> run_events handle es s = Some (Inr t) \<and> D (n + length es) t = Returns st"
proof -
  have "\<forall>st' t'. Inr (st, t) = (Inr (st', t') :: (driver_status \<times> 'a) res) \<longrightarrow>
      (\<exists>es. chosen handle D n s es \<and> run_events handle es s = Some (Inr t') \<and> D (n + length es) t' = Returns st')"
    by (rule driver_run.raw_induct [OF driver_run_round assms])
  then show ?thesis by blast
qed

lemma run_events_driver:
  assumes "chosen handle D n s es" and "run_events handle es s = Some (Inr t)" and "D (n + length es) t = Returns st"
  shows "driver_run handle D n s = Some (Inr (st, t))"
  using assms
proof (induction es arbitrary: n s)
  case Nil
  then show ?case by (subst driver_run.simps) simp
next
  case (Cons e es)
  from Cons.prems(2) obtain s' where "handle e s = Some (Inr s')" "run_events handle es s' = Some (Inr t)"
    by (rule run_events_ConsE)
  with Cons.prems(1,3) Cons.IH [of "Suc n" s'] show ?case by (subst driver_run.simps) simp
qed

section \<open>Invariants of a driven program\<close>

text \<open>
  The contract between a program and its driver: a callback that Mesos may make (\<open>ok\<close>) keeps
  \<open>inv\<close> when it returns.
\<close>

locale driven =
  fixes handle :: "'e \<Rightarrow> 's \<Rightarrow> 's res option" and ok :: "'e \<Rightarrow> bool" and inv :: "'s \<Rightarrow> bool"
  assumes handle_inv: "ok e \<Longrightarrow> inv s \<Longrightarrow> handle e s = Some (Inr s') \<Longrightarrow> inv s'"
begin

lemma events_inv:
  "run_events handle es s = Some (Inr t) \<Longrightarrow> \<forall>e \<in> set es. ok e \<Longrightarrow> inv s \<Longrightarrow> inv t"
proof (induction es arbitrary: s)
  case (Cons e es)
  from Cons.prems(1) obtain s' where "handle e s = Some (Inr s')" "run_events handle es s' = Some (Inr t)"
    by (rule run_events_ConsE)
  with Cons handle_inv [of e s s'] show ?case by simp
qed simp

lemma run_inv:
  assumes "driver_run handle D n s = Some (Inr (st, t))" and "\<And>m u e. D m u = Calls e \<Longrightarrow> ok e" and "inv s"
  shows "inv t"
proof -
  obtain es where es: "chosen handle D n s es" "run_events handle es s = Some (Inr t)"
    using driver_run_events [OF assms(1)] by blast
  have "\<forall>e \<in> set es. ok e" using es
  proof (induction es arbitrary: n s)
    case (Cons e es)
    from Cons.prems(2) obtain s' where "handle e s = Some (Inr s')" "run_events handle es s' = Some (Inr t)"
      by (rule run_events_ConsE)
    with Cons assms(2) show ?case by auto
  qed simp
  with events_inv es(2) assms(3) show ?thesis by blast
qed

end

section \<open>A driver with a script\<close>

definition scripted :: "'e list \<Rightarrow> ('e, 's) driver" where
  "scripted es n s = (if n < length es then Calls (es ! n) else Returns DRIVER_STOPPED)"

lemma scripted_self: "chosen handle (scripted es) n s (drop n es)"
proof (induction "length es - n" arbitrary: n s)
  case (Suc k)
  then have "n < length es" by simp
  then have d: "drop n es = es ! n # drop (Suc n) es" by (rule Cons_nth_drop_Suc [symmetric])
  have "chosen handle (scripted es) (Suc n) s' (drop (Suc n) es)" for s' using Suc.hyps(2) by (intro Suc.hyps(1)) simp
  then show ?case unfolding d using \<open>n < length es\<close> by (simp add: scripted_def)
qed simp

lemma scripted_run:
  assumes "run_events handle es s = Some (Inr t)"
  shows "driver_run handle (scripted es) 0 s = Some (Inr (DRIVER_STOPPED, t))"
  using run_events_driver [OF scripted_self [where n = 0, unfolded drop_0] assms] by (simp add: scripted_def)

end
