(* ===== verification/Scheduler_Driver.thy ===== *)
theory Scheduler_Driver
  imports Scheduler_Invariants Driver_Loop
begin

text \<open>
  \<^verbatim>\<open>src/scheduler/CephScheduler.cpp\<close>, \<^verbatim>\<open>src/scheduler/CephScheduler.hpp\<close> and the
  callbacks of \<^verbatim>\<open>src/scheduler/CephSchedulerAgent.hpp\<close> as one interface: the events that
  Mesos delivers to the scheduler, the thread of the event loop between them, and
  \<open>framework\<close>, which registers the framework and runs the driver.
\<close>

section \<open>Events\<close>

text \<open>
  The two indeterminate locals of \<open>resourceOffers\<close> and the times it reads come with the event.
\<close>

datatype sched_event =
    Registered string                                \<comment> \<open>framework id\<close>
  | Reregistered
  | Disconnected
  | ResourceOffers TaskType int "(Offer \<times> int) list"
  | OfferRescinded string
  | StatusUpdate TaskStatus
  | FrameworkMessage string string string            \<comment> \<open>executor, slave, data\<close>
  | SlaveLost string
  | ExecutorLost string string int
  | SchedulerError string

text \<open>\<open>CephSchedulerAgent\<close>: six of its callbacks have an empty body, \<open>registered\<close> only logs.\<close>

fun agent_callback :: "'y agent_env \<Rightarrow> sched_event \<Rightarrow> agent \<Rightarrow> agent res" where
  "agent_callback E (Registered frameworkId) ag = Inr ag"
| "agent_callback E Reregistered ag = Inr ag"
| "agent_callback E Disconnected ag = Inr ag"
| "agent_callback E (ResourceOffers ty0 tok0 offers) ag = resourceOffers E ty0 tok0 offers ag"
| "agent_callback E (OfferRescinded offerId) ag = Inr ag"
| "agent_callback E (StatusUpdate st) ag = statusUpdate E st ag"
| "agent_callback E (FrameworkMessage eid sid data) ag = frameworkMessage E eid data ag"
| "agent_callback E (SlaveLost sid) ag = Inr ag"
| "agent_callback E (ExecutorLost eid sid st) ag = Inr ag"
| "agent_callback E (SchedulerError msg) ag = Inr ag"

text \<open>\<open>CephScheduler\<close> forwards four callbacks to its agent; the bodies of the others are empty.\<close>

fun CephScheduler_callback :: "'y agent_env \<Rightarrow> sched_event \<Rightarrow> agent \<Rightarrow> agent res" where
  "CephScheduler_callback E (Registered frameworkId) agent = agent_callback E (Registered frameworkId) agent"
| "CephScheduler_callback E (StatusUpdate st) agent = agent_callback E (StatusUpdate st) agent"
| "CephScheduler_callback E (FrameworkMessage eid sid data) agent =
     agent_callback E (FrameworkMessage eid sid data) agent"
| "CephScheduler_callback E (ResourceOffers ty0 tok0 offers) agent =
     agent_callback E (ResourceOffers ty0 tok0 offers) agent"
| "CephScheduler_callback E _ agent = Inr agent"

section \<open>The running scheduler\<close>

text \<open>
  The agent and whether the thread of its event loop still runs. A round of that thread falls
  between two callbacks: what \<open>try_receive\<close> gave and what the array held before.
\<close>

record sched =
  sc_agent :: agent
  sc_loop :: bool

datatype sched_action = Callback sched_event | Round receive string

definition event_round :: "'j json_lib \<Rightarrow> receive \<Rightarrow> string \<Rightarrow> sched \<Rightarrow> sched res" where
  "event_round J r stale s =
     (if \<not> sc_loop s then Inr s
      else case r of
        MQ_Empty \<Rightarrow> Inr s
      | MQ_Exception \<Rightarrow> Inr (s\<lparr>sc_loop := False\<rparr>)
      | MQ_Message msg \<Rightarrow>
          bind_res (buffer_string msg stale) (\<lambda>data.
            case processData J data (ag_pendingOSD (sc_agent s)) of
              Inl e \<Rightarrow> Inr (s\<lparr>sc_loop := False\<rparr>)
            | Inr p \<Rightarrow> Inr (s\<lparr>sc_agent := (sc_agent s)\<lparr>ag_pendingOSD := p\<rparr>\<rparr>)))"

fun sched_act :: "'y agent_env \<Rightarrow> 'j json_lib \<Rightarrow> sched_action \<Rightarrow> sched \<Rightarrow> sched res" where
  "sched_act E J (Callback e) s =
     bind_res (CephScheduler_callback E e (sc_agent s)) (\<lambda>ag. Inr (s\<lparr>sc_agent := ag\<rparr>))"
| "sched_act E J (Round r stale) s = event_round J r stale s"

definition CephScheduler_new :: "int \<Rightarrow> Config \<Rightarrow> sched" where
  "CephScheduler_new indet config = \<lparr>sc_agent = CephSchedulerAgent_new indet config, sc_loop = True\<rparr>"

record FrameworkInfo =
  fi_user :: string
  fi_name :: string
  fi_role :: string
  fi_checkpoint :: bool

definition framework_info :: "Config \<Rightarrow> FrameworkInfo" where
  "framework_info config =
     \<lparr>fi_user = ''root'', fi_name = cfg_id config, fi_role = cfg_role config, fi_checkpoint = True\<rparr>"

text \<open>
  \<open>D\<close> is the driver that Mesos makes for the framework and its master; the destructors at the
  end only free memory.
\<close>

definition framework ::
  "'y agent_env \<Rightarrow> 'j json_lib \<Rightarrow> int \<Rightarrow> (FrameworkInfo \<Rightarrow> string \<Rightarrow> (sched_action, sched) driver) \<Rightarrow> Config \<Rightarrow>
   int res option" where
  "framework E J indet D config =
     map_option (\<lambda>r. bind_res r (\<lambda>(st, s). Inr (run_code st)))
       (driver_run (\<lambda>e s. Some (sched_act E J e s)) (D (framework_info config) (cfg_master config)) 0
          (CephScheduler_new indet config))"

section \<open>Properties\<close>

text \<open>The wrapper adds nothing and drops nothing.\<close>

lemma CephScheduler_forwards: "CephScheduler_callback E e ag = agent_callback E e ag"
  by (cases e) simp_all

text \<open>Rounds one after the other are the loop of the thread.\<close>

lemma event_round_simps [simp]:
  "\<not> sc_loop s \<Longrightarrow> event_round J r stale s = Inr s"
  "event_round J MQ_Empty stale s = Inr s"
  "sc_loop s \<Longrightarrow> event_round J MQ_Exception stale s = Inr (s\<lparr>sc_loop := False\<rparr>)"
  "sc_loop s \<Longrightarrow> event_round J (MQ_Message msg) stale s =
     bind_res (buffer_string msg stale) (\<lambda>data.
       case processData J data (ag_pendingOSD (sc_agent s)) of
         Inl e \<Rightarrow> Inr (s\<lparr>sc_loop := False\<rparr>)
       | Inr p \<Rightarrow> Inr (s\<lparr>sc_agent := (sc_agent s)\<lparr>ag_pendingOSD := p\<rparr>\<rparr>))"
  by (simp_all add: event_round_def)

lemma event_rounds_dead:
  "\<not> sc_loop s \<Longrightarrow> run_events (\<lambda>(r, stale) s. Some (event_round J r stale s)) rounds s = Some (Inr s)"
  by (induction rounds) auto

lemma event_rounds_recvData:
  assumes "sc_loop s"
  shows "map_option (\<lambda>r. bind_res r (\<lambda>t. Inr (ag_pendingOSD (sc_agent t))))
           (run_events (\<lambda>(r, stale) s. Some (event_round J r stale s)) rounds s) =
         Some (recvData J rounds (ag_pendingOSD (sc_agent s)))"
  using assms
proof (induction rounds arbitrary: s)
  case (Cons round rounds)
  obtain r stale where round: "round = (r, stale)" by fastforce
  show ?case
  proof (cases r)
    case (MQ_Message msg)
    with Cons.prems Cons.IH [of "s\<lparr>sc_agent := (sc_agent s)\<lparr>ag_pendingOSD := p\<rparr>\<rparr>" for p] round show ?thesis
      by (cases "buffer_string msg stale")
         (simp_all add: event_rounds_dead split: sum.split)
  qed (use Cons round in \<open>auto simp: event_rounds_dead\<close>)
qed simp

text \<open>Events that leave the scheduler as it is.\<close>

fun ignored :: "sched_event \<Rightarrow> bool" where
  "ignored (ResourceOffers ty0 tok0 offers) \<longleftrightarrow> False"
| "ignored (FrameworkMessage eid sid data) \<longleftrightarrow> False"
| "ignored (StatusUpdate st) \<longleftrightarrow>
     st_state st \<in> {TASK_STAGING, TASK_KILLED, TASK_LOST, TASK_ERROR}"
| "ignored _ \<longleftrightarrow> True"

lemma ignored_same: "ignored e \<Longrightarrow> CephScheduler_callback E e ag = Inr ag"
  by (cases e) (auto simp: statusUpdate_def)

lemma events_ignored:
  "run_events (\<lambda>e ag. Some (CephScheduler_callback E e ag)) es ag =
   run_events (\<lambda>e ag. Some (CephScheduler_callback E e ag)) (filter (\<lambda>e. \<not> ignored e) es) ag"
  by (induction es arbitrary: ag) (auto simp: ignored_same split: sum.splits)

text \<open>A run of the driver is a run of the scheduler's step relation.\<close>

fun legal_act :: "sched_action \<Rightarrow> sched \<Rightarrow> bool" where
  "legal_act (Callback (StatusUpdate st)) s \<longleftrightarrow> status_legal (ag_sm (sc_agent s)) st"
| "legal_act _ s \<longleftrightarrow> True"

fun legal_run :: "'y agent_env \<Rightarrow> 'j json_lib \<Rightarrow> sched_action list \<Rightarrow> sched \<Rightarrow> bool" where
  "legal_run E J [] s \<longleftrightarrow> True"
| "legal_run E J (e # es) s \<longleftrightarrow> legal_act e s \<and>
     (case sched_act E J e s of Inl err \<Rightarrow> True | Inr s' \<Rightarrow> legal_run E J es s')"

lemma sched_act_step:
  assumes "sched_act E J e s = Inr s'" and "legal_act e s"
  shows "sc_agent s' = sc_agent s \<or> agent_step E J (sc_agent s) (sc_agent s')"
proof (cases e)
  case (Round r stale)
  with assms(1) have "sc_agent s' = sc_agent s \<or> (\<exists>data p. processData J data (ag_pendingOSD (sc_agent s)) = Inr p \<and>
      sc_agent s' = (sc_agent s)\<lparr>ag_pendingOSD := p\<rparr>)"
    by (auto simp: event_round_def split: if_splits receive.splits sum.splits elim!: bind_resE) blast
  then show ?thesis using agent_step.request by metis
next
  case (Callback ev)
  with assms show ?thesis
    by (cases ev) (auto intro: agent_step.intros elim!: bind_resE)
qed

lemma sched_run_reach:
  assumes "run_events (\<lambda>e s. Some (sched_act E J e s)) es s = Some (Inr t)" and "legal_run E J es s"
    and "reach init (agent_step E J) (sc_agent s)"
  shows "reach init (agent_step E J) (sc_agent t)"
  using assms
proof (induction es arbitrary: s)
  case (Cons e es)
  from Cons.prems(1) obtain s' where s': "sched_act E J e s = Inr s'"
      "run_events (\<lambda>e s. Some (sched_act E J e s)) es s' = Some (Inr t)"
    using run_events_Cons by (metis option.inject)
  then have "reach init (agent_step E J) (sc_agent s')"
    using sched_act_step [OF s'(1)] Cons.prems(2,3) by (auto intro: reach_step)
  with Cons s' show ?case by simp
qed simp

lemma sched_new_reach: "reach agent_init (agent_step E J) (sc_agent (CephScheduler_new indet config))"
  by (rule reach_init) (auto simp: CephScheduler_new_def agent_init_def)

lemma framework_returns:
  "framework E J indet D config = Some (Inr n) \<longleftrightarrow>
     (\<exists>st s. n = run_code st \<and>
        driver_run (\<lambda>e s. Some (sched_act E J e s)) (D (framework_info config) (cfg_master config)) 0
          (CephScheduler_new indet config) = Some (Inr (st, s)))"
  by (auto simp: framework_def res_simps split: prod.splits)

lemma scripted_legal:
  assumes "chosen (\<lambda>e s. Some (sched_act E J e s)) (scripted es) n s fs" and "legal_run E J (drop n es) s"
  shows "legal_run E J fs s"
  using assms
proof (induction fs arbitrary: n s)
  case (Cons f fs)
  then have "n < length es" "f = es ! n" by (auto simp: scripted_def split: if_splits)
  then have d: "drop n es = f # drop (Suc n) es" by (simp add: Cons_nth_drop_Suc)
  show ?case
    using Cons.prems Cons.IH [of "Suc n"] unfolding d by (auto split: sum.splits)
qed simp

end
