(* ===== verification/Demo_Disks.thy ===== *)
theory Demo_Disks
  imports Demo_Cluster Partition_Safety Scheduler_Driver
begin

text \<open>
  A second concrete environment: every host has a management network, and host \<open>h2\<close> has two
  devices for OSDs. A script of events for the scheduler in it: the MON runs on \<open>h1\<close>, the disks
  of \<open>h2\<close> are prepared and two OSDs are launched there.
\<close>

definition disk_yaml :: "string yaml_lib" where
  "disk_yaml = \<lparr>y_load = (\<lambda>s. Some s),
     y_index = (\<lambda>n k. Inr (if k = ''mgmtdev'' then Some ''0.0.0.0/0''
                           else if k = ''osddevs'' \<and> n = ''disks'' then Some ''sdb,sdc'' else None)),
     y_string = (\<lambda>n. Some n), y_int = (\<lambda>n. None), y_strings = (\<lambda>n. Some [take 3 n, drop 4 n])\<rparr>"

definition disk_config_env :: "string config_env" where
  "disk_config_env = \<lparr>ce_flags = default_flags, ce_yaml = disk_yaml,
     ce_file = (\<lambda>f. if f = ''/etc/cephmesos/cephmesos.yml'' then Some []
                    else if f = ''/etc/cephmesos/cephmesos.d/h2.yml'' then Some ''disks'' else None)\<rparr>"

definition disk_env :: "string agent_env" where
  "disk_env = \<lparr>ae_config = disk_config_env, ae_lc = dec_lexcast, ae_iter = (\<lambda>m. m),
     ae_indet_type = MON, ae_indet_status = STAGING,
     ae_net = \<lparr>net_gethostname = (0, ''master''), net_gethostbyname = (\<lambda>h. Some ''10.0.0.1'')\<rparr>,
     ae_res = demo_res\<rparr>"

lemma disk_env_ok [simp]: "env_ok disk_env"
  by (simp add: env_ok_def disk_env_def dec_lexcast_ok map_order_ok_def)

lemma disk_parse:
  assumes "parse_config_string disk_config_env s = Inr c"
  shows "cfg_osddevs c \<in> {[], [''sdb'', ''sdc'']} \<and> cfg_jnldevs c = []"
  using assms by (cases "s = ''disks''")
    (auto simp: parse_config_string_def yaml_get_def disk_config_env_def disk_yaml_def)

lemma disk_hosts_ok [simp]: "hosts_ok disk_env"
proof -
  have "hc_pendingOSDDevs hc \<in> {[], [''sdb'', ''sdc'']} \<and> hc_pendingJNLDevs hc = []"
    if "HostConfig_by_hostname disk_config_env h = Inr hc" for h hc
    using that unfolding HostConfig_by_hostname_def get_config_by_hostname_def
    by (elim bind_resE) (auto simp: merge_config_def dest!: disk_parse)
  then show ?thesis by (fastforce simp: hosts_ok_def disk_env_def)
qed

lemmas disk_defs = disk_env_def disk_config_env_def disk_yaml_def demo_res_def demo_config_def demo_offer_def demo_status_def

definition disk_host :: "string \<Rightarrow> HostConfig" where
  "disk_host h = projr (HostConfig_by_hostname disk_config_env h)"

lemma disk_host_read:
  "HostConfig_by_hostname disk_config_env ''h1'' = Inr (disk_host ''h1'')"
  "HostConfig_by_hostname disk_config_env ''h2'' = Inr (disk_host ''h2'')"
  by (simp_all add: disk_host_def config_eval disk_defs Let_def c_str_def NUL_def)

lemma disk_host_sel [simp]:
  "isPreparingDiskFlag (disk_host ''h1'') = False" "isPreparingDiskFlag (disk_host ''h2'') = False"
  "hc_pendingOSDDevs (disk_host ''h1'') = []" "hc_pendingOSDDevs (disk_host ''h2'') = [''sdb'', ''sdc'']"
  "hc_pendingJNLDevs (disk_host ''h1'') = []" "hc_pendingJNLDevs (disk_host ''h2'') = []"
  "osdPartitions (disk_host ''h1'') = []" "osdPartitions (disk_host ''h2'') = []"
  "jnlPartitions (disk_host ''h1'') = []" "jnlPartitions (disk_host ''h2'') = []"
  "jnlPartsCount (disk_host ''h2'') = 4"
  "getMgmtDev (disk_host ''h1'') = ''0.0.0.0/0''" "getMgmtDev (disk_host ''h2'') = ''0.0.0.0/0''"
  "getDataDev (disk_host ''h1'') = []" "getDataDev (disk_host ''h2'') = []"
  by (simp_all add: disk_host_def config_eval disk_defs Let_def c_str_def NUL_def getMgmtDev_def getDataDev_def)

text \<open>What the disk executor on \<open>h2\<close> reports when every device worked.\<close>

definition disk_done :: TaskStatus where
  "disk_done = disk_ready_status ''ceph-mesos-disk-executor.2.h2.S1''
     (prepareReturnValue dec_lexcast (de_registered ''h2'' (DiskExecutor_new ())))"

definition disk_script :: "sched_action list" where
  "disk_script =
     [Callback (ResourceOffers OSD 7 [(demo_offer ''o1'' ''h1'', 1)]),
      Callback (StatusUpdate (demo_status ''mon0.h1.S1'' TASK_RUNNING)),
      Callback (ResourceOffers MON 0 [(demo_offer ''o2'' ''h2'', 2)]),
      Callback (StatusUpdate disk_done),
      Callback (ResourceOffers MON 0 [(demo_offer ''o3'' ''h2'', 3), (demo_offer ''o4'' ''h2'', 3)])]"

definition disk_sm_mon :: "Status \<Rightarrow> StateMachine" where
  "disk_sm_mon st = (StateMachine_new 4 demo_config)\<lparr>
     taskMap := [demo_task ''mon0.h1.S1'' ''ceph-mesos-executor.0.0.1'' MON st],
     hostConfigMap := [''h1'' \<mapsto> disk_host ''h1''], monIndex := 1,
     currentPhase := (if st = RUNNING then BOOTSTRAP_OSD else BOOTSTRAP_MON),
     monStagingNum := (if st = RUNNING then 0 else 1), monRunningNum := (if st = RUNNING then 1 else 0)\<rparr>"

lemmas disk_states = demo_ag_def demo_task_def disk_sm_mon_def

lemma disk_run_mon:
  "\<exists>task. resourceOffers disk_env OSD 7 [(demo_offer ''o1'' ''h1'', 1)] (CephSchedulerAgent_new 4 demo_config) =
     Inr (demo_ag (disk_sm_mon STAGING) [LaunchTasks ''o1'' [task]]) \<and>
     ti_task_id task = ''mon0.h1.S1'' \<and>
     task = node_task disk_env (demo_offer ''o1'' ''h1'') MON 0 1 ''ceph'' (ti_executor task)
       [(mgmtdevKey, ''0.0.0.0/0''), (datadevKey, [])] \<and>
     ei_command (ti_executor task) = ''./ceph-mesos-executor''"
  using disk_host_read by (simp add: disk_states agent_eval disk_defs)

lemma disk_run_up:
  "statusUpdate disk_env (demo_status ''mon0.h1.S1'' TASK_RUNNING) (demo_ag (disk_sm_mon STAGING) ds) =
     Inr (demo_ag (disk_sm_mon RUNNING) ds)"
  by (simp add: disk_states agent_eval disk_defs)

definition disk_sm_hosts :: "HostConfig \<Rightarrow> StateMachine" where
  "disk_sm_hosts hc = (disk_sm_mon RUNNING)\<lparr>hostConfigMap := [''h1'' \<mapsto> disk_host ''h1'', ''h2'' \<mapsto> hc]\<rparr>"

lemma disk_run_disks:
  "\<exists>task. resourceOffers disk_env MON 0 [(demo_offer ''o2'' ''h2'', 2)] (demo_ag (disk_sm_mon RUNNING) ds) =
     Inr (demo_ag (disk_sm_hosts (setDiskPreparationOnGoing (disk_host ''h2'')))
        (ds @ [LaunchTasks ''o2'' [task], DeclineOffer ''o2''])) \<and>
     ti_task_id task = ''ceph-mesos-disk-executor.2.h2.S1''"
  using disk_host_read by (simp add: disk_sm_hosts_def disk_states agent_eval disk_defs setDiskPreparationOnGoing_def disk_task_def)

definition disk_host_ready :: "string list \<Rightarrow> HostConfig" where
  "disk_host_ready ps = (disk_host ''h2'')\<lparr>osdPartitions := ps, jnlPartitions := [],
     hc_pendingOSDDevs := [], hc_pendingJNLDevs := [], isPreparingDiskFlag := False, doneDiskPreparationFlag := True\<rparr>"

lemma disk_run_ready:
  "statusUpdate disk_env disk_done (demo_ag (disk_sm_hosts (setDiskPreparationOnGoing (disk_host ''h2''))) ds) =
     Inr (demo_ag (disk_sm_hosts (disk_host_ready [''sdb1'', ''sdc1''])) ds)"
proof -
  let ?x = "de_registered ''h2'' (DiskExecutor_new ())"
  have x: "de_myHostname ?x = ''h2''" "de_failedOSDDevs ?x = []" "de_failedJNLDevs ?x = []"
    by (simp_all add: de_registered_def DiskExecutor_new_def)
  have lc: "ae_lc disk_env = dec_lexcast" by (simp add: disk_env_def)
  have "statusUpdate disk_env disk_done ag = Inr (disks_accepted disk_env ''h2'' ag)" for ag
    using disk_ready_read [of disk_env ?x] x unfolding disk_done_def lc by (simp add: dec_lexcast_ok plain_name_def)
  then show ?thesis
    by (simp add: disks_accepted_def disk_sm_hosts_def disk_host_ready_def updateDiskPartition_eq lc
        setDiskPreparationDone_def setDiskPreparationOnGoing_def demo_ag_def onSM_def getConfig_def setConfig_def jnl_names_def)
qed

text \<open>The two OSDs get the two partitions.\<close>

lemma disk_run_osds:
  "\<exists>t1 t2 m1 m2 s. resourceOffers disk_env MON 0 [(demo_offer ''o3'' ''h2'', 3), (demo_offer ''o4'' ''h2'', 3)]
       (demo_ag (disk_sm_hosts (disk_host_ready [''sdb1'', ''sdc1''])) ds) =
     Inr (demo_ag s (ds @ [LaunchTasks ''o3'' [t1], m1, LaunchTasks ''o4'' [t2], m2])) \<and>
     label_values osddevsKey t1 = [''sdc1''] \<and> label_values osddevsKey t2 = [''sdb1''] \<and>
     host_of s ''mon0.h1.S1'' = Some ''h1'' \<and> host_of s ''ceph-mesos-disk-executor.2.h2.S1'' = None \<and>
     host_of s (ti_task_id t1) = Some ''h2'' \<and> host_of s (ti_task_id t2) = Some ''h2'' \<and>
     (\<forall>key s h. call_parts key s h m1 = []) \<and> (\<forall>key s h. call_parts key s h m2 = [])"
  by (simp add: disk_sm_hosts_def disk_host_ready_def disk_states agent_eval disk_defs label_values_def host_of_def label_keys)

lemma disk_legal:
  "status_legal (disk_sm_mon STAGING) (demo_status ''mon0.h1.S1'' TASK_RUNNING)"
  "status_legal s disk_done"
  by (simp_all add: status_legal_def disk_states TaskState_new_def demo_status_def disk_done_def disk_ready_status_def
      split: option.splits)

text \<open>The script as a run of the scheduler.\<close>

lemma disk_run:
  "\<exists>s. run_events (\<lambda>e s. Some (sched_act disk_env J e s)) disk_script (CephScheduler_new 4 demo_config) = Some (Inr s) \<and>
     legal_run disk_env J disk_script (CephScheduler_new 4 demo_config) \<and>
     given osddevsKey (sc_agent s) ''h2'' = [''sdc1'', ''sdb1'']"
proof -
  let ?ag0 = "CephSchedulerAgent_new 4 demo_config"
  obtain t0 where r1: "resourceOffers disk_env OSD 7 [(demo_offer ''o1'' ''h1'', 1)] ?ag0 =
      Inr (demo_ag (disk_sm_mon STAGING) [LaunchTasks ''o1'' [t0]])" and t0: "ti_task_id t0 = ''mon0.h1.S1''"
    using disk_run_mon by blast
  obtain td where r3: "resourceOffers disk_env MON 0 [(demo_offer ''o2'' ''h2'', 2)]
      (demo_ag (disk_sm_mon RUNNING) [LaunchTasks ''o1'' [t0]]) =
      Inr (demo_ag (disk_sm_hosts (setDiskPreparationOnGoing (disk_host ''h2'')))
        [LaunchTasks ''o1'' [t0], LaunchTasks ''o2'' [td], DeclineOffer ''o2''])" (is "_ = Inr (demo_ag _ ?ds)")
    and td: "ti_task_id td = ''ceph-mesos-disk-executor.2.h2.S1''"
    using disk_run_disks [of "[LaunchTasks ''o1'' [t0]]"] by auto
  obtain t1 t2 m1 m2 sm where r5: "resourceOffers disk_env MON 0 [(demo_offer ''o3'' ''h2'', 3), (demo_offer ''o4'' ''h2'', 3)]
       (demo_ag (disk_sm_hosts (disk_host_ready [''sdb1'', ''sdc1''])) ?ds) =
     Inr (demo_ag sm (?ds @ [LaunchTasks ''o3'' [t1], m1, LaunchTasks ''o4'' [t2], m2]))"
    and g: "label_values osddevsKey t1 = [''sdc1'']" "label_values osddevsKey t2 = [''sdb1'']"
      "host_of sm ''mon0.h1.S1'' = Some ''h1''" "host_of sm ''ceph-mesos-disk-executor.2.h2.S1'' = None"
      "host_of sm (ti_task_id t1) = Some ''h2''" "host_of sm (ti_task_id t2) = Some ''h2''"
      "\<forall>key s h. call_parts key s h m1 = []" "\<forall>key s h. call_parts key s h m2 = []"
    using disk_run_osds [of ?ds] by blast
  show ?thesis
    using g t0 td
    by (simp add: disk_script_def CephScheduler_new_def r1 disk_run_up r3 disk_run_ready r5 disk_legal given_def)
       (simp add: demo_ag_def)
qed

end
