(* ===== verification/Cluster_Results.thy ===== *)
theory Cluster_Results
  imports Cluster_Bootstrap Demo_Disks
begin

text \<open>
  Results about the closed system of scheduler and executors and about the partitions of the
  hosts, with a concrete run in which the executor of the first MON reports.
\<close>

section \<open>The MON of the demo host\<close>

lemma demo_match: "matchIPToCIDR dec_lexcast ''0'' ''0.0.0.0/0'' = Inr True"
proof -
  have "explode ''0.0.0.0/0'' CHR ''/'' = [''0.0.0.0'', ''0'']"
    using explode_delim [of "CHR ''/''" "''0.0.0.0''" "''0''"] explode_single [of "''0''" "CHR ''/''"] by simp
  moreover have "lexical_cast_int dec_lexcast ''0'' = Inr 0"
    using lexical_cast_int_show [OF dec_lexcast_ok, of 0] by (simp add: is_int32_def)
  ultimately show ?thesis by (simp add: matchIPToCIDR_def cpp_div_def)
qed

lemma demo_mon_container:
  assumes "x_mgmtNIC x = ''0.0.0.0/0''"
  shows "\<exists>x'. start_node (demo_os ''0'') dec_lexcast tid dir cName (taskType_int MON) x = Some (Inr x') \<and>
    statuses x' = statuses x @ [\<lparr>st_task_id = tid, st_state = TASK_RUNNING, st_message = None\<rparr>]"
proof -
  have "explode ''0'' CHR '' '' = [''0'']" by (intro explode_single) simp_all
  then obtain cmd x1 where c: "constructMonCommand (demo_os ''0'') dec_lexcast dir cName x = Inr (cmd, x1)"
    using assms by (simp add: constructMonCommand_def getPublicNetworkIP_def demo_match x_emit_def)
  obtain d x2 where d: "downloadDockerImage (demo_os ''0'') ''ceph/daemon'' x1 = (d, x2)" by fastforce
  obtain pid x3 where f: "x_fork (demo_os ''0'') ''docker'' cmd x2 = (pid, x3)" by fastforce
  obtain x4 where b: "block_until_started (demo_os ''0'') dec_lexcast cName ''60'' (x3\<lparr>x_myPID := pid\<rparr>) = Some (Inr (True, x4))"
    using demo_started [OF lexcast_30(2)] by auto
  have "statuses (publish_config (demo_os ''0'') x4) = statuses x"
    using quiet_mon [OF c] quiet_download [OF d] quiet_fork [OF f] quiet_block [OF b] quiet_publish [of x4 "demo_os ''0''"]
    by (simp add: quiet_def)
  then show ?thesis
    by (simp add: start_node_def c d run_container_def f b Let_def)
qed

lemma demo_mon_launch:
  fixes x :: "unit ceph_exec"
  assumes task: "task = node_task disk_env (demo_offer ''o1'' ''h1'') MON 0 1 ''ceph'' executor
       [(mgmtdevKey, ''0.0.0.0/0''), (datadevKey, [])]" and "ti_task_id task = ''mon0.h1.S1''"
  shows "\<exists>x'. x_launchTask (demo_os ''0'') dec_lexcast indet task x = Some (Inr x') \<and>
    statuses x' = statuses x @ [demo_status ''mon0.h1.S1'' TASK_RUNNING]"
proof -
  have lc: "ae_lc disk_env = dec_lexcast" by (simp add: disk_env_def)
  have "getContainerName (''mon0'' @ CHR ''.'' # ''h1.S1'') = Inr ''mon0''"
    unfolding getContainerName_def by (subst explode_delim) simp_all
  then have name: "getContainerName ''mon0.h1.S1'' = Inr ''mon0''" by simp
  note data = node_data_read [of disk_env 1, unfolded lc]
  have sel: "x_mgmtNIC (x_emit e y) = x_mgmtNIC y" "statuses (x_emit (Shell cmd) y) = statuses y"
      "statuses (y\<lparr>x_mgmtNIC := n, x_dataNIC := d\<rparr>) = statuses y"
    for e cmd n d and y :: "unit ceph_exec" by (simp_all add: x_emit_def statuses_def)
  have "\<exists>dir y. x_launchTask (demo_os ''0'') dec_lexcast indet task x =
      start_node (demo_os ''0'') dec_lexcast ''mon0.h1.S1'' dir ''mon0'' (taskType_int MON) y \<and>
      x_mgmtNIC y = ''0.0.0.0/0'' \<and> statuses y = statuses x"
    using assms(2) unfolding task
    by (simp add: x_launchTask_def data dec_lexcast_ok name deleteConfigDir_def parseHostConfig_def remove_if_space_def
        createLocalSharedConfigDir_def existsConfigFiles_def Let_def)
       (intro exI conjI, rule refl, simp_all add: sel)
  then show ?thesis using demo_mon_container by (fastforce simp: demo_status_def)
qed

section \<open>A run of the closed system\<close>

definition cluster_start :: "unit cluster" where
  "cluster_start = \<lparr>cl_ag = CephSchedulerAgent_new 4 demo_config, cl_exec = (\<lambda>_. Absent), cl_net = (\<lambda>_. []),
     cl_done = {}, cl_replies = []\<rparr>"

lemma cluster_start_init: "cluster_init cluster_start"
  by (auto simp: cluster_init_def cluster_start_def agent_init_def)

lemma cluster_start_usable: "usable demo_env (cl_ag cluster_start) (demo_offer ''o1'' ''h1'')"
  using demo_usable by (simp add: cluster_start_def demo_start_def)

text \<open>The first offer, then the executor of the MON runs and its status is under way.\<close>

lemma cluster_run:
  "\<exists>c. reach cluster_init (cluster_step disk_env J) (c :: unit cluster) \<and> ag_sm (cl_ag c) = disk_sm_mon STAGING \<and>
     cl_net c ''mon0.h1.S1'' = [demo_status ''mon0.h1.S1'' TASK_RUNNING]"
proof -
  obtain task where r: "resourceOffers disk_env OSD 7 [(demo_offer ''o1'' ''h1'', 1)] (cl_ag cluster_start) =
      Inr (demo_ag (disk_sm_mon STAGING) [LaunchTasks ''o1'' [task]])"
    and task: "ti_task_id task = ''mon0.h1.S1''"
      "task = node_task disk_env (demo_offer ''o1'' ''h1'') MON 0 1 ''ceph'' (ti_executor task)
        [(mgmtdevKey, ''0.0.0.0/0''), (datadevKey, [])]"
      "ei_command (ti_executor task) = ''./ceph-mesos-executor''"
    using disk_run_mon unfolding cluster_start_def cluster.simps by blast
  let ?c1 = "cluster_start\<lparr>cl_ag := demo_ag (disk_sm_mon STAGING) [LaunchTasks ''o1'' [task]]\<rparr>"
  let ?x = "x_registered (demo_os ''0'') ''h1'' (CephExecutor_new 0 ())"
  obtain x' where x': "x_launchTask (demo_os ''0'') dec_lexcast 0 task ?x = Some (Inr x')"
      "statuses x' = statuses ?x @ [demo_status ''mon0.h1.S1'' TASK_RUNNING]"
    using demo_mon_launch [OF task(2,1)] by blast
  have lc: "ae_lc disk_env = dec_lexcast" by (simp add: disk_env_def)
  have "reach cluster_init (cluster_step disk_env J) ?c1"
    using r cluster_start_init by (blast intro: reach_init reach_step cluster_step.offers)
  moreover have "cluster_step disk_env J ?c1 (ran (x_key task) ?x x' (Alive x') ?c1)"
    by (rule cluster_step.launch [OF _ task(3) _ refl x'(1) [folded lc]])
       (simp_all add: launched_task_def demo_ag_def cluster_start_def)
  ultimately have "reach cluster_init (cluster_step disk_env J) (ran (x_key task) ?x x' (Alive x') ?c1)"
    by (rule reach_step)
  moreover have "cl_net (ran (x_key task) ?x x' (Alive x') ?c1) ''mon0.h1.S1'' = [demo_status ''mon0.h1.S1'' TASK_RUNNING]"
    using x'(2) by (simp add: ran_def post_def cluster_start_def demo_status_def)
  moreover have "ag_sm (cl_ag (ran (x_key task) ?x x' (Alive x') ?c1)) = disk_sm_mon STAGING"
    by (simp add: ran_def cluster_start_def)
  ultimately show ?thesis by blast
qed

section \<open>Results\<close>

text \<open>
  C1: The scheduler with its executors and the Mesos services between them, without any
  assumption on the status updates, is an instance of the scheduler's step relation: in every
  reachable state of the closed system the scheduler is in a state that the step relation
  reaches, and the next status under way for any task is one that the state machine expects.
\<close>

theorem cluster_refines_scheduler:
  assumes "env_ok E" and "reach cluster_init (cluster_step E J) c"
  shows "reach agent_init (agent_step E J) (cl_ag c) \<and>
    (\<forall>tid st sts. cl_net c tid = st # sts \<longrightarrow> status_legal (ag_sm (cl_ag c)) st)"
proof -
  have "cluster_inv E c" using closed.inv_reach [OF assms(2)] assms(1) by blast
  then show ?thesis
    using cluster_reach_agent [OF assms] world_head_legal unfolding cluster_inv_def by blast
qed

theorem cluster_refines_scheduler_witness:
  "\<exists>c :: unit cluster. reach cluster_init (cluster_step disk_env demo_json) c \<and>
     cl_net c ''mon0.h1.S1'' = [demo_status ''mon0.h1.S1'' TASK_RUNNING] \<and>
     reach agent_init (agent_step disk_env demo_json) (cl_ag c) \<and>
     status_legal (ag_sm (cl_ag c)) (demo_status ''mon0.h1.S1'' TASK_RUNNING)"
proof -
  obtain c :: "unit cluster" where c: "reach cluster_init (cluster_step disk_env demo_json) c"
      "cl_net c ''mon0.h1.S1'' = [demo_status ''mon0.h1.S1'' TASK_RUNNING]"
    using cluster_run by blast
  with cluster_refines_scheduler [OF disk_env_ok c(1)] show ?thesis by blast
qed

text \<open>
  C5: The closed system can bring up a cluster. From its initial state, with an offer that the
  scheduler can use, there is a run in which the executors themselves report the status of
  their tasks, and at its end requests are served, at least one MON, three OSDs and one RADOSGW
  run, every task in the table is running and the executor of each of them is alive.
\<close>

theorem cluster_can_bootstrap:
  assumes "env_ok E" and "cluster_init (c :: 'w cluster)" and "usable E (cl_ag c) offer"
  shows "\<exists>c'. (cluster_step E J)\<^sup>*\<^sup>* c c' \<and> currentPhase (ag_sm (cl_ag c')) = WAINTING_REQUEST \<and>
    1 \<le> nRun MON (ag_sm (cl_ag c')) \<and> 3 \<le> nRun OSD (ag_sm (cl_ag c')) \<and> 1 \<le> nRun RADOSGW (ag_sm (cl_ag c')) \<and>
    (\<forall>tid t. map_of (taskMap (ag_sm (cl_ag c'))) tid = Some t \<longrightarrow>
       currentStatus t = RUNNING \<and> (\<exists>x. cl_exec c' (slaveId t, executorId t) = Alive x))"
proof -
  obtain c' where c': "(cluster_step E J)\<^sup>*\<^sup>* c c'" "calm E offer c'" "currentPhase (ag_sm (cl_ag c')) = WAINTING_REQUEST"
    using calm_completes [OF assms(1) calm_init [OF assms(2,3)]] by blast
  then show ?thesis
    using calm_phase [OF c'(2)] calm_idle(2) [OF c'(2)] calm_up [OF c'(2)] by (intro exI [of _ c']) simp
qed

theorem cluster_can_bootstrap_witness:
  "\<exists>c' :: unit cluster. (cluster_step demo_env demo_json)\<^sup>*\<^sup>* cluster_start c' \<and>
     currentPhase (ag_sm (cl_ag c')) = WAINTING_REQUEST \<and> 3 \<le> nRun OSD (ag_sm (cl_ag c'))"
  using cluster_can_bootstrap [OF demo_env_ok cluster_start_init cluster_start_usable, of demo_json] by blast





text \<open>
  C16: Every entry of the task table is well formed in every reachable state of the closed
  system: it is filed under its own id, the id is built from its type, a number below the
  counter of that type, a host and a slave; only OSDs wait for an id or start with one; and no
  other task has its executor.
\<close>

theorem cluster_tasks_well_formed:
  assumes "env_ok E" and "reach cluster_init (cluster_step E J) c"
    and "map_of (taskMap (ag_sm (cl_ag c))) tid = Some t"
  shows "taskId t = tid \<and>
    (\<exists>j (offer :: Offer). tid = createTaskName E (taskType t) j @ ''.'' @ o_hostname offer @ ''.'' @ o_slave_id offer \<and>
       0 \<le> j \<and> j < indexNum (taskType t) (ag_sm (cl_ag c))) \<and>
    (currentStatus t = WAITING_OSDID \<or> currentStatus t = STARTING \<longrightarrow> taskType t = OSD) \<and>
    (\<forall>tid' t'. map_of (taskMap (ag_sm (cl_ag c))) tid' = Some t' \<and> executorId t' = executorId t \<longrightarrow> tid' = tid)"
proof -
  have inv: "agent_inv E (cl_ag c)" "eids_ok E (ag_sm (cl_ag c))"
    using closed.inv_reach [OF assms(2)] assms(1) by (simp_all add: cluster_inv_def world_ok_def)
  have ok: "taskId t = tid" "task_ok t"
    using inv(1) assms(3) by (simp_all add: agent_inv_def core_inv_def sm_inv_def)
  have ids: "\<exists>j offer. tid = task_id_of E (taskType t) j offer \<and> 0 \<le> j \<and> j < indexNum (taskType t) (ag_sm (cl_ag c))"
    using inv(1) assms(3) by (simp add: agent_inv_def core_inv_def ids_ok_def)
  show ?thesis
  proof (intro conjI)
    show "\<forall>tid' t'. map_of (taskMap (ag_sm (cl_ag c))) tid' = Some t' \<and> executorId t' = executorId t \<longrightarrow> tid' = tid"
      using inv(2) assms(3) unfolding eids_ok_def by blast
    show "currentStatus t = WAITING_OSDID \<or> currentStatus t = STARTING \<longrightarrow> taskType t = OSD"
      using ok(2) unfolding task_ok_def by blast
  qed (use ok(1) ids in \<open>simp_all only: task_id_of_def\<close>)
qed

theorem cluster_tasks_well_formed_witness:
  "\<exists>c :: unit cluster. reach cluster_init (cluster_step disk_env demo_json) c \<and>
     (\<exists>t. map_of (taskMap (ag_sm (cl_ag c))) ''mon0.h1.S1'' = Some t \<and> taskId t = ''mon0.h1.S1'')"
proof -
  obtain c :: "unit cluster" where c: "reach cluster_init (cluster_step disk_env demo_json) c"
      "ag_sm (cl_ag c) = disk_sm_mon STAGING"
    using cluster_run by blast
  have "map_of (taskMap (ag_sm (cl_ag c))) ''mon0.h1.S1'' =
      Some (TaskState_new ''mon0.h1.S1'' ''ceph-mesos-executor.0.0.1'' MON ''h1'' ''S1'' STAGING)"
    by (simp add: c(2) disk_sm_mon_def demo_task_def)
  with cluster_tasks_well_formed [OF disk_env_ok c(1) this] c(1) show ?thesis by blast
qed

end
