(* ===== verification/Osd_Identity.thy ===== *)
theory Osd_Identity
  imports Cluster_Refinement Scheduler_Driver
begin

text \<open>
  Which OSD id goes to which executor. The ids come from the initial MON, wait in
  \<open>pendingOSDID\<close> and leave in \<open>LAUNCH_OSD\<close> messages. None is lost or given twice, and no
  executor gets two: \<open>id_ledger\<close> is the balance and \<open>orders_inv\<close> the invariant about the executors.
\<close>

section \<open>Orders\<close>

text \<open>The executor and the OSD id of a call, read the way \<open>CephExecutor::frameworkMessage\<close> does.\<close>

fun order_of :: "lexcast \<Rightarrow> driver_call \<Rightarrow> (string \<times> string) list" where
  "order_of L (SendFrameworkMessage eid sid data) =
     (case explode data CHR ''.'' of
        code # osdId # _ \<Rightarrow> if lexical_cast_int L code = Inr (toExecutor_int LAUNCH_OSD) then [(eid, osdId)] else []
      | _ \<Rightarrow> [])"
| "order_of L _ = []"

definition launch_orders :: "lexcast \<Rightarrow> driver_call list \<Rightarrow> (string \<times> string) list" where
  "launch_orders L calls = concat (map (order_of L) calls)"

lemma launch_orders_simps [simp]:
  "launch_orders L [] = []" "launch_orders L (c # cs) = order_of L c @ launch_orders L cs"
  "launch_orders L (cs @ ds) = launch_orders L cs @ launch_orders L ds"
  by (simp_all add: launch_orders_def)

lemma launch_orders_none: "\<forall>c \<in> set cs. order_of L c = [] \<Longrightarrow> launch_orders L cs = []"
  by (simp add: launch_orders_def)

lemma order_of_launch:
  assumes "lexcast_ok L"
  shows "order_of L (SendFrameworkMessage eid sid (launchOSD_message L n)) = [(eid, show_int n)]"
proof -
  have "explode (launchOSD_message L n) CHR ''.'' = [show_int 21, show_int n]"
    using assms by (simp add: launchOSD_message_def lexcast_strD explode_delim explode_single del: show_int_small)
  moreover have "is_int32 21" by (simp add: is_int32_def)
  ultimately show ?thesis using assms by (simp add: lexical_cast_int_show del: show_int_small)
qed

lemma order_of_register: "lexcast_ok (ae_lc E) \<Longrightarrow> register_call E c \<Longrightarrow> order_of (ae_lc E) c = []"
  by (auto simp: register_call_def lexcast_strD explode_single simp del: show_int_small)

lemma order_of_disk: "disk_call c \<Longrightarrow> order_of L c = []"
  by (cases c) simp_all

lemma launch_orders_calls:
  assumes "lexcast_ok L"
  shows "launch_orders L (launch_calls L ts ids) = map (\<lambda>(t, i). (executorId t, show_int i)) (zip ts (rev ids))"
proof -
  have "launch_orders L (map (\<lambda>(t, i). SendFrameworkMessage (executorId t) (slaveId t) (launchOSD_message L i)) ps) =
      map (\<lambda>(t, i). (executorId t, show_int i)) ps" for ps
    by (induction ps) (auto simp: order_of_launch [OF assms] simp del: order_of.simps)
  then show ?thesis by (simp add: launch_calls_def)
qed

section \<open>The balance\<close>

definition id_ledger :: "'y agent_env \<Rightarrow> agent \<Rightarrow> string multiset" where
  "id_ledger E ag = mset (map snd (launch_orders (ae_lc E) (ag_driver ag))) + mset (map show_int (pendingOSDID (ag_sm ag)))"

lemma ledger_handleWaiting:
  assumes "env_ok E"
  shows "id_ledger E (handleWaitingOSDTasks E ag) = id_ledger E ag"
proof -
  let ?L = "ae_lc E" and ?ts = "getWaitingOSDTask (ae_iter E) (ag_sm ag)" and ?ids = "pendingOSDID (ag_sm ag)"
  have L: "lexcast_ok ?L" using assms by (simp add: env_ok_def)
  note spec = waiting_loop_spec [of ?L ?ts ag]
  have snd_zip: "map snd (zip xs ys) = take (length xs) ys" for xs :: "TaskState list" and ys :: "int list"
    by (induction xs ys rule: list_induct2') auto
  have "map snd (launch_orders ?L (launch_calls ?L ?ts ?ids)) = map show_int (map snd (zip ?ts (rev ?ids)))"
    by (simp add: launch_orders_calls [OF L] split_def)
  also have "\<dots> = map show_int (take (length ?ts) (rev ?ids))" by (simp only: snd_zip)
  finally have "mset (map snd (launch_orders ?L (launch_calls ?L ?ts ?ids))) =
      mset (map show_int (drop (length ?ids - length ?ts) ?ids))"
    by (simp add: take_rev)
  moreover have "mset (map show_int (drop k ?ids)) + mset (map show_int (take k ?ids)) = mset (map show_int ?ids)" for k
    by (metis append_take_drop_id map_append mset_append union_commute)
  ultimately show ?thesis using spec by (simp add: id_ledger_def handleWaitingOSDTasks_def)
qed

text \<open>A round of the loop over the offers touches neither the ids nor the orders.\<close>

lemma pendingOSDID_frame:
  "addConfig C h s = Inr s' \<Longrightarrow> pendingOSDID s' = pendingOSDID s"
  "pendingOSDID (setConfig h hc s) = pendingOSDID s"
  "nextMove ty tok h s = (acc, t1, k, s') \<Longrightarrow> pendingOSDID s' = pendingOSDID s"
  "pendingOSDID (decreaseOSDIndex s) = pendingOSDID s"
  "pendingOSDID (addStagingTask tid eid ty host sid s) = pendingOSDID s"
  by (auto simp: addConfig_def setConfig_def nextMove_def decreaseOSDIndex_def addStagingTask_def res_simps Let_def
      split: option.splits if_splits TaskType.splits)

lemma pendingOSDID_disk:
  assumes "tryLaunchDiskTask E now offer h ag = Inr ag'"
  shows "pendingOSDID (ag_sm ag') = pendingOSDID (ag_sm ag)"
  using assms by (cases rule: tryLaunchDiskTask_cases) (simp_all add: pendingOSDID_frame)

lemma pendingOSDID_accept:
  assumes "accept_offer E offer now (ty, token, ini) ag = Inr (loc', ag')"
  shows "pendingOSDID (ag_sm ag') = pendingOSDID (ag_sm ag)"
  using assms
  by (auto simp: accept_offer_def launchNode_def addHostConfig_def pendingOSDID_frame Let_def
      split: if_splits prod.splits elim!: bind_resE)

lemma pendingOSDID_offer:
  assumes "offer_step E phase (offer, now) ((ty, tok, ini), ag) = Inr (loc', ag')"
  shows "pendingOSDID (ag_sm ag') = pendingOSDID (ag_sm ag)"
proof (cases "hasRole offer (cfg_role (ag_config ag))")
  case True
  obtain sm ag2 where ac: "addConfig (ae_config E) (o_hostname offer) (ag_sm ag) = Inr sm"
    and td: "tryLaunchDiskTask E now offer (o_hostname offer) (ag\<lparr>ag_sm := sm\<rparr>) = Inr ag2"
    using assms True by (auto simp: offer_step_def elim!: bind_resE)
  obtain acc t1 k s3 where nm: "nextMove ty tok (o_hostname offer) (ag_sm ag2) = (acc, t1, k, s3)"
    by (cases "nextMove ty tok (o_hostname offer) (ag_sm ag2)")
  have s3: "pendingOSDID s3 = pendingOSDID (ag_sm ag)"
    using pendingOSDID_frame(3) [OF nm] pendingOSDID_disk [OF td] pendingOSDID_frame(1) [OF ac] by simp
  have "offer_decide E phase offer now acc (t1, k, ini) (ag2\<lparr>ag_sm := s3\<rparr>) = Inr (loc', ag')"
    using assms True ac td nm by (simp add: offer_step_def)
  then show ?thesis
    by (auto simp: offer_decide_def s3 pendingOSDID_frame Let_def split: if_splits prod.splits
        elim!: bind_resE dest!: pendingOSDID_accept)
qed (use assms in \<open>auto simp: offer_step_def\<close>)

lemma ledger_offer:
  assumes "env_ok E" and "offer_step E phase (offer, now) ((ty, tok, ini), ag) = Inr (loc', ag')"
    and "phase = currentPhase (ag_sm ag)"
  shows "launch_orders (ae_lc E) (ag_driver ag') = launch_orders (ae_lc E) (ag_driver ag)"
    "id_ledger E ag' = id_ledger E ag"
proof -
  have L: "lexcast_ok (ae_lc E)" using assms(1) by (simp add: env_ok_def)
  show same: "launch_orders (ae_lc E) (ag_driver ag') = launch_orders (ae_lc E) (ag_driver ag)"
    using assms(2,3)
  proof (cases rule: offer_step_cases)
    case declined
    then show ?thesis using launch_orders_none [of _ "ae_lc E"] order_of_disk by auto
  next
    case (launched t1 k eid ini' executor labels cs ag1 ag0)
    have "launch_orders (ae_lc E) cs = []"
      using launched(11) order_of_register [OF L] by (intro launch_orders_none) blast
    then show ?thesis unfolding launched(10) by simp
  qed
  show "id_ledger E ag' = id_ledger E ag" by (simp add: id_ledger_def same pendingOSDID_offer [OF assms(2)])
qed

lemma ledger_resourceOffers:
  assumes "env_ok E" and "resourceOffers E ty0 tok0 offers ag = Inr ag'"
  shows "id_ledger E ag' = id_ledger E ag"
proof -
  obtain loc' where
    "offers_loop E (currentPhase (ag_sm ag)) offers ((ty0, tok0, 0), handleWaitingOSDTasks E ag) = Inr (loc', ag')"
    using assms(2) by (rule resourceOffers_loop)
  then show ?thesis
  proof (rule offers_loop_induct [where P = "\<lambda>_ _ ag'. id_ledger E ag' = id_ledger E ag"])
    show "id_ledger E ag2 = id_ledger E ag"
      if "offer_step E (currentPhase (ag_sm ag)) (offer, now) ((ty, tok, ini), ag1) = Inr (loc2, ag2)"
        "currentPhase (ag_sm ag) = currentPhase (ag_sm ag1)" "id_ledger E ag1 = id_ledger E ag"
      for offer now ty tok ini ag1 loc2 ag2
      using ledger_offer(2) [OF assms(1) that(1,2)] that(3) by simp
  qed (simp_all add: ledger_handleWaiting [OF assms(1)])
qed

text \<open>The ids that one action of the scheduler brings, and a whole run.\<close>

fun accepted_id :: "'y agent_env \<Rightarrow> sched_action \<Rightarrow> agent \<Rightarrow> int list" where
  "accepted_id E (Callback (FrameworkMessage eid sid data)) ag =
     (if executorId (initialMon E ag) = eid
      then case lexical_cast_int (ae_lc E) data of Inl e \<Rightarrow> [] | Inr n \<Rightarrow> [n]
      else [])"
| "accepted_id E _ ag = []"

fun accepted_ids :: "'y agent_env \<Rightarrow> 'j json_lib \<Rightarrow> sched_action list \<Rightarrow> sched \<Rightarrow> int list" where
  "accepted_ids E J [] s = []"
| "accepted_ids E J (a # as) s = accepted_id E a (sc_agent s) @
     (case sched_act E J a s of Inl e \<Rightarrow> [] | Inr s' \<Rightarrow> accepted_ids E J as s')"

lemma ledger_statusUpdate:
  assumes "statusUpdate E st ag = Inr ag'"
  shows "ag_driver ag' = ag_driver ag" "pendingOSDID (ag_sm ag') = pendingOSDID (ag_sm ag)"
  using assms
  by (cases rule: statusUpdate_cases;
      auto simp: updateTaskToRunning_def updateTaskToWaitingOSDID_def updateTaskToFailed_def pendingOSDID_frame Let_def
        split: option.splits)+

lemma ledger_act:
  assumes "env_ok E" and "sched_act E J a s = Inr s'"
  shows "id_ledger E (sc_agent s') = id_ledger E (sc_agent s) + mset (map show_int (accepted_id E a (sc_agent s)))"
proof (cases a)
  case (Round r stale)
  with assms(2) have "ag_driver (sc_agent s') = ag_driver (sc_agent s) \<and> ag_sm (sc_agent s') = ag_sm (sc_agent s)"
    by (auto simp: event_round_def split: if_splits receive.splits sum.splits elim!: bind_resE)
  with Round show ?thesis by (simp add: id_ledger_def)
next
  case (Callback ev)
  then obtain ag' where ag': "CephScheduler_callback E ev (sc_agent s) = Inr ag'" "s' = s\<lparr>sc_agent := ag'\<rparr>"
    using assms(2) by (auto elim!: bind_resE)
  then show ?thesis
  proof (cases ev)
    case (FrameworkMessage eid sid data)
    with ag' Callback show ?thesis
      by (auto simp: frameworkMessage_def addPendingOSDID_def id_ledger_def split: if_splits elim!: bind_resE)
  next
    case (ResourceOffers ty0 tok0 offers)
    with ag' Callback show ?thesis using ledger_resourceOffers [OF assms(1)] by simp
  qed (use ag' Callback in \<open>auto simp: id_ledger_def ledger_statusUpdate\<close>)
qed

lemma ledger_run:
  assumes "env_ok E" and "run_events (\<lambda>e s. Some (sched_act E J e s)) as s = Some (Inr t)"
  shows "id_ledger E (sc_agent t) = id_ledger E (sc_agent s) + mset (map show_int (accepted_ids E J as s))"
  using assms(2)
proof (induction as arbitrary: s)
  case (Cons a as)
  then obtain s' where "sched_act E J a s = Inr s'" "run_events (\<lambda>e s. Some (sched_act E J e s)) as s' = Some (Inr t)"
    using run_events_Cons by (metis option.inject)
  with Cons.IH [of s'] ledger_act [OF assms(1)] show ?case by (simp add: ac_simps)
qed simp

section \<open>One id for one executor\<close>

text \<open>The task of this executor has left the state in which it waits for an id.\<close>

definition got_order :: "StateMachine \<Rightarrow> string \<Rightarrow> bool" where
  "got_order s eid \<longleftrightarrow> (\<exists>k t. map_of (taskMap s) k = Some t \<and> executorId t = eid \<and>
     currentStatus t \<in> {STARTING, RUNNING, FAILED})"

definition orders_inv :: "'y agent_env \<Rightarrow> agent \<Rightarrow> bool" where
  "orders_inv E ag \<longleftrightarrow> eids_ok E (ag_sm ag) \<and>
     (let eids = map fst (launch_orders (ae_lc E) (ag_driver ag))
      in distinct eids \<and> (\<forall>eid \<in> set eids. got_order (ag_sm ag) eid))"

lemma orders_inv_same:
  assumes "orders_inv E ag" and "eids_ok E (ag_sm ag')"
    and "launch_orders (ae_lc E) (ag_driver ag') = launch_orders (ae_lc E) (ag_driver ag)"
    and "\<And>eid. got_order (ag_sm ag) eid \<Longrightarrow> got_order (ag_sm ag') eid"
  shows "orders_inv E ag'"
  using assms by (auto simp: orders_inv_def Let_def)

lemma orders_same_tasks:
  assumes "orders_inv E ag" and tm: "taskMap (ag_sm ag') = taskMap (ag_sm ag)"
    and "\<forall>ty. indexNum ty (ag_sm ag) \<le> indexNum ty (ag_sm ag')"
    and "launch_orders (ae_lc E) (ag_driver ag') = launch_orders (ae_lc E) (ag_driver ag)"
  shows "orders_inv E ag'"
proof (rule orders_inv_same [OF assms(1) _ assms(4)])
  show "eids_ok E (ag_sm ag')"
    by (rule eids_ok_kept [OF _ tasks_kept_eq [OF tm] _ assms(3)]) (use assms(1) tm in \<open>auto simp: orders_inv_def\<close>)
qed (simp add: got_order_def tm)

lemma orders_handleWaiting:
  assumes env: "env_ok E" and inv: "sm_inv (ag_sm ag)" and ord: "orders_inv E ag"
  shows "orders_inv E (handleWaitingOSDTasks E ag)"
proof -
  let ?ag = "handleWaitingOSDTasks E ag" and ?s = "ag_sm ag" and ?L = "ae_lc E"
  define ts where "ts = take (length (pendingOSDID ?s)) (getWaitingOSDTask (ae_iter E) ?s)"
  have L: "lexcast_ok ?L" and iter: "map_order_ok (ae_iter E)" using env by (simp_all add: env_ok_def)
  have entry: "map_of (taskMap ?s) (taskId t) = Some t \<and> currentStatus t = WAITING_OSDID" if "t \<in> set ts" for t
    using waiting_entry [OF inv iter] that unfolding ts_def by (meson in_set_takeD)
  have eok: "eids_ok E ?s" using ord by (simp add: orders_inv_def)
  have one: "k = k' \<and> t = t'" if "map_of (taskMap ?s) k = Some t" "map_of (taskMap ?s) k' = Some t'" "executorId t = executorId t'"
    for k k' t t' using one_entry [OF eok that] .
  have fst_zip: "map fst (zip xs ys) = take (length ys) xs" for xs :: "TaskState list" and ys :: "int list"
    by (induction xs ys rule: list_induct2') auto
  have tm: "map_of (taskMap (ag_sm ?ag)) k =
      (if k \<in> taskId ` set ts then map_option (currentStatus_update (\<lambda>_. STARTING)) (map_of (taskMap ?s) k)
       else map_of (taskMap ?s) k)" for k
    using waiting_loop_spec [of ?L "getWaitingOSDTask (ae_iter E) ?s" ag] by (simp add: handleWaitingOSDTasks_def ts_def)
  have drv: "map fst (launch_orders ?L (ag_driver ?ag)) = map fst (launch_orders ?L (ag_driver ag)) @ map executorId ts"
  proof -
    have "map fst (launch_orders ?L (launch_calls ?L us ids)) = map executorId (map fst (zip us (rev ids)))" for us ids
      by (simp add: launch_orders_calls [OF L] split_def)
    then show ?thesis
      using waiting_loop_spec [of ?L "getWaitingOSDTask (ae_iter E) ?s" ag]
      by (simp add: handleWaitingOSDTasks_def ts_def fst_zip take_map)
  qed
  have old: "got_order (ag_sm ?ag) eid" if srv: "got_order ?s eid" for eid
  proof -
    obtain k t where t: "map_of (taskMap ?s) k = Some t" "executorId t = eid" "currentStatus t \<in> {STARTING, RUNNING, FAILED}"
      using srv by (auto simp: got_order_def)
    then have "k \<notin> taskId ` set ts" using entry by fastforce
    with t show ?thesis unfolding got_order_def by (metis tm)
  qed
  have new: "got_order (ag_sm ?ag) (executorId t)" if "t \<in> set ts" for t
    using entry [OF that] that unfolding got_order_def
    by (intro exI [of _ "taskId t"] exI [of _ "t\<lparr>currentStatus := STARTING\<rparr>"]) (simp add: tm)
  have "distinct (map executorId ts)"
  proof -
    have "distinct (map taskId ts)"
      using waiting_distinct [OF inv iter] by (simp add: ts_def take_map [symmetric])
    moreover have "inj_on executorId (set ts)" 
      by (rule inj_onI) (use one [OF conjunct1 [OF entry] conjunct1 [OF entry]] in blast)
    ultimately show ?thesis by (simp add: distinct_map)
  qed
  moreover have "\<not> got_order ?s (executorId t)" if "t \<in> set ts" for t
    using one [OF conjunct1 [OF entry [OF that]]] entry [OF that] unfolding got_order_def by force
  moreover have "eids_ok E (ag_sm ?ag)"
  proof (rule eids_ok_kept [OF eok])
    show "tasks_kept ?s (ag_sm ?ag)" by (simp add: handleWaitingOSDTasks_def waiting_loop_kept)
  qed (auto simp: tm split: if_splits)
  ultimately show ?thesis
    using ord old new unfolding orders_inv_def Let_def drv by auto
qed

lemma orders_offer:
  assumes env: "env_ok E" and inv: "agent_inv E ag" and ord: "orders_inv E ag"
    and s: "offer_step E phase (offer, now) ((ty, tok, ini), ag) = Inr (loc', ag')" and ph: "phase = currentPhase (ag_sm ag)"
  shows "orders_inv E ag'"
  using s ph
proof (cases rule: offer_step_cases)
  case declined
  then show ?thesis
    using orders_same_tasks [OF ord _ _ ledger_offer(1) [OF env s ph]] by (simp add: same_tasks_def)
next
  case (launched t1 k eid ini' executor labels cs ag1 ag0)
  have tm: "taskMap (ag_sm ag1) = taskMap (ag_sm ag)" using launched(3) by (simp add: same_tasks_def)
  have fresh: "map_of (taskMap (ag_sm ag)) (task_id_of E t1 k offer) = None"
    using fresh_task_id [OF env] inv launched(2) by (simp add: agent_inv_def core_inv_def)
  show ?thesis
  proof (rule orders_inv_same [OF ord _ ledger_offer(1) [OF env s ph]])
    show "eids_ok E (ag_sm ag')"
      unfolding launched(5,12,2) by (rule eids_ok_launch [OF env _ tm launched(4)]) (use ord in \<open>simp add: orders_inv_def\<close>)
    show "got_order (ag_sm ag') e" if srv: "got_order (ag_sm ag) e" for e
    proof -
      obtain j t where t: "map_of (taskMap (ag_sm ag)) j = Some t" "executorId t = e" "currentStatus t \<in> {STARTING, RUNNING, FAILED}"
        using srv by (auto simp: got_order_def)
      then have "map_of (taskMap (ag_sm ag')) j = Some t" using fresh by (auto simp: launched(5) tm)
      with t(2,3) show ?thesis unfolding got_order_def by blast
    qed
  qed
qed

lemma orders_resourceOffers:
  assumes env: "env_ok E" and inv: "agent_inv E ag" and ord: "orders_inv E ag"
    and "resourceOffers E ty0 tok0 offers ag = Inr ag'"
  shows "orders_inv E ag'"
proof -
  have sm: "sm_inv (ag_sm ag)" using inv by (simp add: agent_inv_def core_inv_def)
  obtain loc' where
    "offers_loop E (currentPhase (ag_sm ag)) offers ((ty0, tok0, 0), handleWaitingOSDTasks E ag) = Inr (loc', ag')"
    using assms(4) by (rule resourceOffers_loop)
  then have "agent_inv E ag' \<and> orders_inv E ag'"
  proof (rule offers_loop_induct [where P = "\<lambda>_ _ ag'. agent_inv E ag' \<and> orders_inv E ag'"])
    show "agent_inv E (handleWaitingOSDTasks E ag) \<and> orders_inv E (handleWaitingOSDTasks E ag)"
      using agent_inv_handleWaiting [OF env inv] orders_handleWaiting [OF env sm ord] by simp
    show "agent_inv E ag2 \<and> orders_inv E ag2"
      if "offer_step E (currentPhase (ag_sm ag)) (offer, now) ((ty, tok, ini), ag1) = Inr (loc2, ag2)"
        "currentPhase (ag_sm ag) = currentPhase (ag_sm ag1)" "agent_inv E ag1 \<and> orders_inv E ag1"
      for offer now ty tok ini ag1 loc2 ag2
      using offer_step_inv(1) [OF env _ that(2,1)] orders_offer [OF env _ _ that(1,2)] that(3) by blast
  qed simp
  then show ?thesis by simp
qed

lemma eids_ok_status_set:
  assumes "eids_ok E s" and u: "status_set tid new s s'"
  shows "eids_ok E s'"
proof (rule eids_ok_kept [OF assms(1)])
  have at: "map_of (taskMap s') k = (if k = tid then map_option (currentStatus_update (\<lambda>_. new)) (map_of (taskMap s) k)
      else map_of (taskMap s) k)" for k
    using u unfolding status_set_def by blast
  then show "dom (map_of (taskMap s')) \<subseteq> dom (map_of (taskMap s))" by (auto simp: dom_def split: if_splits)
  show "tasks_kept s s'"
    using at tasks_kept_eq [OF refl, of s] by (fastforce simp: tasks_kept_def)
qed (use u in \<open>simp add: status_set_def\<close>)

lemma got_order_status:
  assumes "status_set tid new s s'" and "got_order s eid"
    and "\<And>t. map_of (taskMap s) tid = Some t \<Longrightarrow> currentStatus t \<in> {STARTING, RUNNING, FAILED} \<Longrightarrow>
      new \<in> {STARTING, RUNNING, FAILED}"
  shows "got_order s' eid"
proof -
  obtain k t where t: "map_of (taskMap s) k = Some t" "executorId t = eid" "currentStatus t \<in> {STARTING, RUNNING, FAILED}"
    using assms(2) by (auto simp: got_order_def)
  show ?thesis
  proof (cases "k = tid")
    case True
    then have "map_of (taskMap s') k = Some (t\<lparr>currentStatus := new\<rparr>)" using assms(1) t(1) by (simp add: status_set_def)
    moreover have "new \<in> {STARTING, RUNNING, FAILED}" using assms(3) t(1,3) True by blast
    ultimately show ?thesis
      using t(2) unfolding got_order_def by (intro exI [of _ k] exI [of _ "t\<lparr>currentStatus := new\<rparr>"]) simp
  next
    case False
    then have "map_of (taskMap s') k = Some t" using assms(1) t(1) by (simp add: status_set_def)
    with t show ?thesis unfolding got_order_def by blast
  qed
qed

lemma orders_status:
  assumes ord: "orders_inv E ag" and legal: "status_legal (ag_sm ag) st" and s: "statusUpdate E st ag = Inr ag'"
  shows "orders_inv E ag'"
proof -
  let ?tid = "st_task_id st"
  have set: "orders_inv E ag'" if u: "status_set ?tid new (ag_sm ag) (ag_sm ag')"
    and ok: "\<And>t. map_of (taskMap (ag_sm ag)) ?tid = Some t \<Longrightarrow> currentStatus t \<in> {STARTING, RUNNING, FAILED} \<Longrightarrow>
      new \<in> {STARTING, RUNNING, FAILED}" for new
  proof (rule orders_inv_same [OF ord _ _ got_order_status [OF u _ ok]])
    show "eids_ok E (ag_sm ag')" by (rule eids_ok_status_set [OF _ u]) (use ord in \<open>simp add: orders_inv_def\<close>)
  qed (simp add: ledger_statusUpdate(1) [OF s])
  have tasks: "orders_inv E ag'" if "taskMap (ag_sm ag') = taskMap (ag_sm ag)"
      "\<forall>ty. indexNum ty (ag_sm ag') = indexNum ty (ag_sm ag)"
    by (rule orders_same_tasks [OF ord that(1)]) (simp_all add: that(2) ledger_statusUpdate(1) [OF s])
  from s show ?thesis
  proof (cases rule: statusUpdate_cases)
    case running
    then show ?thesis using set [of RUNNING] status_set_updates(1) by simp
  next
    case starting
    show ?thesis
    proof (rule set)
      show "status_set ?tid WAITING_OSDID (ag_sm ag) (ag_sm ag')" using starting(2) status_set_updates(3) by simp
      show "WAITING_OSDID \<in> {STARTING, RUNNING, FAILED}"
        if "map_of (taskMap (ag_sm ag)) ?tid = Some t" "currentStatus t \<in> {STARTING, RUNNING, FAILED}" for t
        using that legal starting(1) by (auto simp: status_legal_def)
    qed
  next
    case failed
    then show ?thesis using set [of FAILED] status_set_updates(2) by simp
  next
    case (disk h hc)
    then show ?thesis
      using tasks same_tasks_setConfig same_index_setConfig by (auto simp: same_tasks_def same_index_def)
  qed (use tasks in simp)
qed

interpretation orders: step_invariant agent_init "agent_step E J" "\<lambda>ag. env_ok E \<longrightarrow> agent_inv E ag \<and> orders_inv E ag"
  for E :: "'y agent_env" and J :: "'j json_lib"
proof unfold_locales
  show "env_ok E \<longrightarrow> agent_inv E ag \<and> orders_inv E ag" if "agent_init ag" for ag
    using that scheduler.inv_init [OF that]
    by (auto simp: agent_init_def orders_inv_def eids_ok_def CephSchedulerAgent_new_def StateMachine_new_def)
next
  fix ag ag' assume inv: "env_ok E \<longrightarrow> agent_inv E ag \<and> orders_inv E ag" and st: "agent_step E J ag ag'"
  have "orders_inv E ag'" if "env_ok E"
    using st
  proof (cases rule: agent_step.cases)
    case offers
    with inv that show ?thesis using orders_resourceOffers by blast
  next
    case (status st)
    with inv that show ?thesis using orders_status by blast
  next
    case (message eid data)
    then have "taskMap (ag_sm ag') = taskMap (ag_sm ag) \<and> (\<forall>ty. indexNum ty (ag_sm ag') = indexNum ty (ag_sm ag)) \<and>
        ag_driver ag' = ag_driver ag"
      by (auto simp: frameworkMessage_def addPendingOSDID_def split: if_splits elim!: bind_resE)
    then show ?thesis using orders_same_tasks [of E ag ag'] inv that by simp
  next
    case (request data p)
    then show ?thesis using orders_same_tasks [of E ag ag'] inv that by simp
  qed
  with inv scheduler.inv_step [OF _ st] show "env_ok E \<longrightarrow> agent_inv E ag' \<and> orders_inv E ag'" by blast
qed

end
