(* ===== verification/Counter_Bounds.thy ===== *)
theory Counter_Bounds
  imports Scheduler_Regions Scheduler_Driver
begin

text \<open>
  The counters and indices of the state machine are of type \<open>int\<close> in the code and unbounded
  integers in the model. This theory shows when that makes no difference: they are never more
  than the number of offers that the scheduler has received.
\<close>

fun offers_in :: "sched_action \<Rightarrow> nat" where
  "offers_in (Callback (ResourceOffers ty0 tok0 offers)) = length offers"
| "offers_in _ = 0"

definition offers_seen :: "sched_action list \<Rightarrow> nat" where
  "offers_seen as = sum_list (map offers_in as)"

definition bounded_by :: "nat \<Rightarrow> StateMachine \<Rightarrow> bool" where
  "bounded_by n s \<longleftrightarrow> length (taskMap s) \<le> n \<and> (\<forall>ty. indexNum ty s \<le> int n)"

lemma length_map_put: "length (map_put k v m) \<le> Suc (length m)" "map_of m k \<noteq> None \<Longrightarrow> length (map_put k v m) = length m"
  by (induction m) auto

lemma length_status:
  "length (taskMap (updateTaskToRunning tid s)) = length (taskMap s)"
  "length (taskMap (updateTaskToFailed tid s)) = length (taskMap s)"
  "length (taskMap (updateTaskToWaitingOSDID tid s)) = length (taskMap s)"
  "length (taskMap (updateTaskToStarting tid s)) = length (taskMap s)"
  by (cases "map_of (taskMap s) tid";
      simp add: updateTaskToRunning_def updateTaskToFailed_def updateTaskToWaitingOSDID_def updateTaskToStarting_def
        length_map_put Let_def)+

lemma index_status:
  "indexNum ty (updateTaskToRunning tid s) = indexNum ty s" "indexNum ty (updateTaskToFailed tid s) = indexNum ty s"
  "indexNum ty (updateTaskToWaitingOSDID tid s) = indexNum ty s"
  by (cases "map_of (taskMap s) tid";
      simp add: updateTaskToRunning_def updateTaskToFailed_def updateTaskToWaitingOSDID_def Let_def)+

lemma length_waiting: "length (taskMap (ag_sm (waiting_loop L ts ag))) = length (taskMap (ag_sm ag))"
  by (induction ts arbitrary: ag) (simp_all add: length_status Let_def)

lemma bounded_handleWaiting: "bounded_by n (ag_sm (handleWaitingOSDTasks E ag)) \<longleftrightarrow> bounded_by n (ag_sm ag)"
  by (simp add: bounded_by_def) (simp add: handleWaitingOSDTasks_def length_waiting)

lemma bounded_offer:
  assumes "bounded_by n (ag_sm ag)" and "offer_step E phase (offer, now) ((ty, tok, ini), ag) = Inr (loc', ag')"
    and "phase = currentPhase (ag_sm ag)"
  shows "bounded_by (Suc n) (ag_sm ag')"
  using assms(2,3)
proof (cases rule: offer_step_cases)
  case declined
  have "indexNum t (ag_sm ag') \<le> int (Suc n)" for t
    using declined(8) assms(1) unfolding bounded_by_def by (smt (verit) of_nat_Suc)
  with declined(1) assms(1) show ?thesis by (simp add: bounded_by_def same_tasks_def)
next
  case (launched t1 k eid ini' executor labels cs ag1 ag0)
  have "length (taskMap (ag_sm ag')) \<le> Suc (length (taskMap (ag_sm ag)))"
    using launched(3) length_map_put(1) unfolding launched(5) by (simp add: same_tasks_def)
  moreover have "indexNum t (ag_sm ag') \<le> indexNum t (ag_sm ag) + 1" for t
    unfolding launched(5) using launched(4) [rule_format, of t] by (cases t; cases t1) (auto simp: addStagingTask_def Let_def)
  ultimately show ?thesis using assms(1) unfolding bounded_by_def by (smt (verit) le_trans of_nat_Suc Suc_le_mono)
qed

lemma bounded_resourceOffers:
  assumes "bounded_by n (ag_sm ag)" and "resourceOffers E ty0 tok0 offers ag = Inr ag'"
  shows "bounded_by (n + length offers) (ag_sm ag')"
proof -
  obtain loc' where
    "offers_loop E (currentPhase (ag_sm ag)) offers ((ty0, tok0, 0), handleWaitingOSDTasks E ag) = Inr (loc', ag')"
    using assms(2) by (rule resourceOffers_loop)
  then show ?thesis
  proof (rule offers_loop_induct [where P = "\<lambda>pre _ ag'. bounded_by (n + length pre) (ag_sm ag')"])
    show "bounded_by (n + length (pre @ [(offer, now)])) (ag_sm ag2)"
      if "offer_step E (currentPhase (ag_sm ag)) (offer, now) ((ty, tok, ini), ag1) = Inr (loc2, ag2)"
        "currentPhase (ag_sm ag) = currentPhase (ag_sm ag1)" "bounded_by (n + length pre) (ag_sm ag1)"
      for offer now pre ty tok ini ag1 loc2 ag2
      using bounded_offer [OF that(3,1,2)] by simp
  qed (simp_all add: bounded_handleWaiting assms(1))
qed

lemma bounded_same:
  assumes "bounded_by n s" and "length (taskMap s') = length (taskMap s)" and "\<And>ty. indexNum ty s' = indexNum ty s"
  shows "bounded_by n s'"
  using assms by (simp add: bounded_by_def)

lemma bounded_statusUpdate:
  assumes "bounded_by n (ag_sm ag)" and "statusUpdate E st ag = Inr ag'"
  shows "bounded_by n (ag_sm ag')"
  using assms(2)
proof (cases rule: statusUpdate_cases)
  case (disk h hc)
  with assms(1) show ?thesis
    using same_tasks_setConfig same_index_setConfig
    by (intro bounded_same [OF assms(1)]) (auto simp: same_tasks_def same_index_def)
qed (use assms(1) in \<open>auto intro!: bounded_same [OF assms(1)] simp: length_status index_status\<close>)

lemma bounded_act:
  assumes "bounded_by n (ag_sm (sc_agent s))" and "sched_act E J a s = Inr s'"
  shows "bounded_by (n + offers_in a) (ag_sm (sc_agent s'))"
proof (cases a)
  case (Round r stale)
  with assms show ?thesis
    by (auto simp: event_round_def split: if_splits receive.splits sum.splits elim!: bind_resE)
next
  case (Callback ev)
  then obtain ag' where ag': "CephScheduler_callback E ev (sc_agent s) = Inr ag'" "s' = s\<lparr>sc_agent := ag'\<rparr>"
    using assms(2) by (auto elim!: bind_resE)
  have idx: "indexNum ty (addPendingOSDID i s) = indexNum ty s" for ty i s
    by (cases ty) (simp_all add: addPendingOSDID_def)
  show ?thesis
  proof (cases ev)
    case (FrameworkMessage eid sid data)
    with ag' Callback assms(1) show ?thesis
      by (auto simp: frameworkMessage_def split: if_splits elim!: bind_resE
          intro!: bounded_same [OF assms(1)] simp: idx) (simp add: addPendingOSDID_def)
  qed (use ag' Callback assms(1) bounded_resourceOffers [OF assms(1)] bounded_statusUpdate [OF assms(1)] in auto)
qed

lemma bounded_run:
  assumes "bounded_by n (ag_sm (sc_agent s))" and "run_events (\<lambda>e s. Some (sched_act E J e s)) as s = Some (Inr t)"
  shows "bounded_by (n + offers_seen as) (ag_sm (sc_agent t))"
  using assms
proof (induction as arbitrary: n s)
  case (Cons a as)
  then obtain s' where "sched_act E J a s = Inr s'" "run_events (\<lambda>e s. Some (sched_act E J e s)) as s' = Some (Inr t)"
    using run_events_Cons by (metis option.inject)
  with Cons.IH [OF bounded_act [OF Cons.prems(1)]] show ?case by (simp add: offers_seen_def ac_simps)
qed (simp add: offers_seen_def)

text \<open>The counters of a type count different tasks.\<close>

lemma count_vals_disjoint:
  assumes "\<And>v. \<not> (P v \<and> Q v)" and "\<And>v. \<not> (P v \<and> R v)" and "\<And>v. \<not> (Q v \<and> R v)"
  shows "count_vals P m + count_vals Q m + count_vals R m \<le> int (length m)"
proof (induction m)
  case (Cons e m)
  then show ?case using assms [of "snd e"] by (cases e) auto
qed simp

lemma counters_le_tasks:
  assumes "sm_inv s"
  shows "0 \<le> stagingNum ty s" "0 \<le> runningNum ty s" "stagingNum ty s + runningNum ty s \<le> int (length (taskMap s))"
proof -
  have "nRun ty s + nPend ty s + nFail ty s \<le> int (length (taskMap s))"
    unfolding n_defs by (rule count_vals_disjoint) (auto simp: is_pending_def)
  moreover have "counters_ok ty s" using assms by (simp add: sm_inv_def)
  ultimately show "stagingNum ty s + runningNum ty s \<le> int (length (taskMap s))"
    unfolding counters_ok_def by linarith
qed (use counters_nonneg [OF assms, of ty] in simp_all)

end
