(* ===== verification/Run_Results.thy ===== *)
theory Run_Results
  imports Osd_Identity Counter_Bounds Demo_Disks
begin

text \<open>
  Results about whole runs of the scheduler, given as sequences of actions: who gets which OSD
  id, and that the counters stay in the range of their type. The concrete run brings up the MON
  of the demo host, three OSDs and one id.
\<close>

section \<open>A run with an OSD id\<close>

definition id_script :: "sched_action list" where
  "id_script =
     [Callback (ResourceOffers OSD 7 [(demo_offer ''o1'' ''h1'', 1)]),
      Callback (StatusUpdate (demo_status ''mon0.h1.S1'' TASK_RUNNING)),
      Callback (ResourceOffers MON 0 demo_osd_offers),
      Callback (StatusUpdate (demo_status ''osd0.h1.S1'' TASK_STARTING)),
      Callback (FrameworkMessage ''ceph-mesos-executor.0.0.1'' ''S1'' (show_int 4)),
      Callback (ResourceOffers MON 0 [])]"

lemma id_run_message:
  "frameworkMessage demo_env ''ceph-mesos-executor.0.0.1'' (show_int 4) (demo_ag (demo_sm_osds WAITING_OSDID STAGING STAGING) ds) =
     Inr (demo_ag ((demo_sm_osds WAITING_OSDID STAGING STAGING)\<lparr>pendingOSDID := [4]\<rparr>) ds)"
  "executorId (initialMon demo_env (demo_ag (demo_sm_osds WAITING_OSDID STAGING STAGING) ds)) = ''ceph-mesos-executor.0.0.1''"
proof -
  have m: "executorId (initialMon demo_env (demo_ag (demo_sm_osds WAITING_OSDID STAGING STAGING) ds)) = ''ceph-mesos-executor.0.0.1''"
    by (simp add: initialMon_def getInitialMon_def demo_states TaskState_new_def demo_defs)
  show "executorId (initialMon demo_env (demo_ag (demo_sm_osds WAITING_OSDID STAGING STAGING) ds)) = ''ceph-mesos-executor.0.0.1''" by (rule m)
  have "lexcast_ok (ae_lc demo_env)" by (rule demo_lexcast_ok)
  then show "frameworkMessage demo_env ''ceph-mesos-executor.0.0.1'' (show_int 4) (demo_ag (demo_sm_osds WAITING_OSDID STAGING STAGING) ds) =
     Inr (demo_ag ((demo_sm_osds WAITING_OSDID STAGING STAGING)\<lparr>pendingOSDID := [4]\<rparr>) ds)"
    using m by (simp add: frameworkMessage_def lexical_cast_int_show is_int32_def addPendingOSDID_def onSM_def demo_ag_def
        demo_sm_osds_def StateMachine_new_def del: show_int_small)
qed

lemma id_run_given:
  "resourceOffers demo_env MON 0 [] (demo_ag ((demo_sm_osds WAITING_OSDID STAGING STAGING)\<lparr>pendingOSDID := [4]\<rparr>) ds) =
     Inr (demo_ag (demo_sm_osds STARTING STAGING STAGING)
       (ds @ [SendFrameworkMessage ''ceph-mesos-executor.1.0.1'' ''S1'' (launchOSD_message (ae_lc demo_env) 4)]))"
  by (simp add: demo_states agent_eval demo_defs updateTaskToStarting_def getPendingOSDID_def)

lemma id_run:
  "\<exists>s ds. run_events (\<lambda>e s. Some (sched_act demo_env J e s)) id_script (CephScheduler_new 4 demo_config) = Some (Inr s) \<and>
     legal_run demo_env J id_script (CephScheduler_new 4 demo_config) \<and>
     accepted_ids demo_env J id_script (CephScheduler_new 4 demo_config) = [4] \<and>
     sc_agent s = demo_ag (demo_sm_osds STARTING STAGING STAGING) ds"
proof -
  have start: "CephScheduler_new 4 demo_config = \<lparr>sc_agent = demo_start, sc_loop = True\<rparr>"
    by (simp add: CephScheduler_new_def demo_start_def)
  obtain ds where r1: "resourceOffers demo_env OSD 7 [(demo_offer ''o1'' ''h1'', 1)] demo_start = Inr (demo_ag demo_sm_mon ds)"
    using demo_run_mon by blast
  obtain ds' where r3: "resourceOffers demo_env MON 0 demo_osd_offers (demo_ag demo_sm_up ds) =
      Inr (demo_ag (demo_sm_osds STAGING STAGING STAGING) ds')"
    using demo_run_osds by blast
  have id: "lexical_cast_int (ae_lc demo_env) (show_int 4) = Inr 4"
    using lexical_cast_int_show [OF demo_lexcast_ok, of 4] by (simp add: is_int32_def)
  show ?thesis
    by (simp add: id_script_def start r1 demo_run_up r3 demo_run_waiting(1) id_run_message id_run_given id demo_legal
        del: show_int_small) blast
qed

section \<open>Results\<close>

text \<open>
  C7: In every run of the scheduler the OSD ids are neither lost nor multiplied: those given to
  executors and those that wait are, as multisets, the ids that the initial MON has sent. No
  executor is given two, and when the MON never sends an id twice, no id is given to two.
\<close>

theorem osd_ids_given_once:
  assumes "env_ok E"
    and "run_events (\<lambda>e s. Some (sched_act E J e s)) es (CephScheduler_new indet config) = Some (Inr s)"
    and "legal_run E J es (CephScheduler_new indet config)"
  shows "let orders = launch_orders (ae_lc E) (ag_driver (sc_agent s));
             ids = accepted_ids E J es (CephScheduler_new indet config)
         in mset (map snd orders) + mset (map show_int (pendingOSDID (ag_sm (sc_agent s)))) = mset (map show_int ids) \<and>
            distinct (map fst orders) \<and> (distinct ids \<longrightarrow> distinct (map snd orders))"
proof -
  let ?s0 = "CephScheduler_new indet config" and ?orders = "launch_orders (ae_lc E) (ag_driver (sc_agent s))"
  let ?ids = "accepted_ids E J es ?s0"
  have "id_ledger E (sc_agent ?s0) = {#}"
    by (simp add: id_ledger_def CephScheduler_new_def CephSchedulerAgent_new_def StateMachine_new_def)
  then have sum: "mset (map snd ?orders) + mset (map show_int (pendingOSDID (ag_sm (sc_agent s)))) = mset (map show_int ?ids)"
    using ledger_run [OF assms(1,2)] by (simp add: id_ledger_def)
  have "orders_inv E (sc_agent s)"
    using orders.inv_reach [OF sched_run_reach [OF assms(2,3) sched_new_reach]] assms(1) by blast
  then have "distinct (map fst ?orders)" by (simp add: orders_inv_def Let_def)
  moreover have "distinct (map snd ?orders)" if "distinct ?ids"
  proof -
    have "distinct (map show_int ?ids)" using that by (simp add: distinct_map inj_on_def)
    then have "distinct (map snd ?orders @ map show_int (pendingOSDID (ag_sm (sc_agent s))))"
      using sum by (metis mset_append mset_eq_imp_distinct_iff)
    then show ?thesis by simp
  qed
  ultimately show ?thesis using sum unfolding Let_def by blast
qed

theorem osd_ids_given_once_witness:
  "\<exists>s. run_events (\<lambda>e s. Some (sched_act demo_env demo_json e s)) id_script (CephScheduler_new 4 demo_config) = Some (Inr s) \<and>
     map snd (launch_orders (ae_lc demo_env) (ag_driver (sc_agent s))) = [show_int 4]"
proof -
  obtain s ds where s: "run_events (\<lambda>e s. Some (sched_act demo_env demo_json e s)) id_script (CephScheduler_new 4 demo_config) = Some (Inr s)"
      "legal_run demo_env demo_json id_script (CephScheduler_new 4 demo_config)"
      "accepted_ids demo_env demo_json id_script (CephScheduler_new 4 demo_config) = [4]"
      "sc_agent s = demo_ag (demo_sm_osds STARTING STAGING STAGING) ds"
    using id_run by blast
  have "pendingOSDID (ag_sm (sc_agent s)) = []"
    unfolding s(4) by (simp add: demo_sm_osds_def StateMachine_new_def)
  with osd_ids_given_once [OF demo_env_ok s(1,2)] s(3)
  have "mset (map snd (launch_orders (ae_lc demo_env) (ag_driver (sc_agent s)))) = {#show_int 4#}"
    by (simp add: Let_def)
  then have "map snd (launch_orders (ae_lc demo_env) (ag_driver (sc_agent s))) = [show_int 4]"
    by (simp only: mset_single_iff)
  with s(1) show ?thesis by (intro exI [of _ s] conjI)
qed

text \<open>
  C19: As long as the scheduler has received fewer than \<open>2\<^sup>3\<^sup>1\<close> offers, every counter and index
  of the state machine, and every sum of two counters that the code forms, is in the range of
  \<open>int\<close>: none of them is more than the number of offers. So the model may count without bound.
\<close>

theorem counters_fit_int:
  assumes "env_ok E"
    and "run_events (\<lambda>e s. Some (sched_act E J e s)) es (CephScheduler_new indet config) = Some (Inr s)"
    and "legal_run E J es (CephScheduler_new indet config)" and "offers_seen es < 2 ^ 31"
  shows "let sm = ag_sm (sc_agent s)
         in is_int32 (indexNum ty sm) \<and> is_int32 (stagingNum ty sm) \<and> is_int32 (runningNum ty sm) \<and>
            is_int32 (stagingNum ty sm + runningNum ty sm) \<and>
            indexNum ty sm \<le> int (offers_seen es) \<and> stagingNum ty sm + runningNum ty sm \<le> int (offers_seen es)"
proof -
  let ?sm = "ag_sm (sc_agent s)" and ?s0 = "CephScheduler_new indet config"
  have "indexNum ty (StateMachine_new indet config) = 0" for ty by (cases ty) (simp_all add: StateMachine_new_def)
  then have "bounded_by 0 (ag_sm (sc_agent ?s0))"
    by (simp add: bounded_by_def CephScheduler_new_def CephSchedulerAgent_new_def) (simp add: StateMachine_new_def)
  from bounded_run [OF this assms(2)] have b: "length (taskMap ?sm) \<le> offers_seen es" "indexNum ty ?sm \<le> int (offers_seen es)"
    by (simp_all add: bounded_by_def)
  have "agent_inv E (sc_agent s)"
    using scheduler.inv_reach [OF sched_run_reach [OF assms(2,3) sched_new_reach]] assms(1) by blast
  then have inv: "sm_inv ?sm" "0 \<le> indexNum ty ?sm" by (simp_all add: agent_inv_def core_inv_def ids_ok_def)
  have "int (offers_seen es) < 2 ^ 31" using assms(4) by (simp add: zless_nat_eq_int_zless)
  then show ?thesis
    unfolding Let_def is_int32_def using b inv(2) counters_le_tasks [OF inv(1), of ty] by (intro conjI) linarith+
qed

theorem counters_fit_int_witness:
  "\<exists>s. run_events (\<lambda>e s. Some (sched_act demo_env demo_json e s)) id_script (CephScheduler_new 4 demo_config) = Some (Inr s) \<and>
     stagingNum OSD (ag_sm (sc_agent s)) = 3 \<and> stagingNum OSD (ag_sm (sc_agent s)) + runningNum OSD (ag_sm (sc_agent s)) \<le> 4"
proof -
  obtain s ds where s: "run_events (\<lambda>e s. Some (sched_act demo_env demo_json e s)) id_script (CephScheduler_new 4 demo_config) = Some (Inr s)"
      "legal_run demo_env demo_json id_script (CephScheduler_new 4 demo_config)"
      "sc_agent s = demo_ag (demo_sm_osds STARTING STAGING STAGING) ds"
    using id_run by blast
  have "offers_seen id_script = 4" by (simp add: offers_seen_def id_script_def demo_osd_offers_def)
  moreover have "stagingNum OSD (ag_sm (sc_agent s)) = 3" unfolding s(3) by (simp add: demo_sm_osds_def)
  ultimately show ?thesis
    using counters_fit_int [OF demo_env_ok s(1,2), of OSD] s(1) by (simp add: Let_def)
qed

end
