(* ===== verification/Executor_Driver.thy ===== *)
theory Executor_Driver
  imports Ceph_Executor Disk_Executor Driver_Loop
begin

text \<open>
  The callbacks of the two executors as one interface, with those whose body is empty or only
  logs, and their \<open>main\<close> functions: \<^verbatim>\<open>src/executor/CephExecutor.cpp\<close>,
  \<^verbatim>\<open>src/executor/DiskExecutor.cpp\<close>. What a whole life of an executor reports, whatever
  Mesos asks of it.
\<close>

section \<open>Events\<close>

datatype exec_event =
    X_Registered string        \<comment> \<open>host name\<close>
  | X_Reregistered
  | X_Disconnected
  | X_LaunchTask TaskInfo
  | X_KillTask string
  | X_FrameworkMessage string
  | X_Shutdown
  | X_Error string

section \<open>Callbacks\<close>

fun CephExecutor_callback ::
  "'w os \<Rightarrow> lexcast \<Rightarrow> int \<Rightarrow> exec_event \<Rightarrow> 'w ceph_exec \<Rightarrow> 'w ceph_exec res option" where
  "CephExecutor_callback os L indet (X_Registered hostname) x = Some (Inr (x_registered os hostname x))"
| "CephExecutor_callback os L indet X_Reregistered x = Some (Inr x)"
| "CephExecutor_callback os L indet X_Disconnected x = Some (Inr x)"
| "CephExecutor_callback os L indet (X_LaunchTask task) x = x_launchTask os L indet task x"
| "CephExecutor_callback os L indet (X_KillTask tid) x = Some (Inr x)"
| "CephExecutor_callback os L indet (X_FrameworkMessage data) x = x_frameworkMessage os L data x"
| "CephExecutor_callback os L indet X_Shutdown x = Some (Inr (x_shutdown os x))"
| "CephExecutor_callback os L indet (X_Error message) x = Some (Inr x)"

fun DiskExecutor_callback ::
  "'w popen \<Rightarrow> lexcast \<Rightarrow> exec_event \<Rightarrow> 'w disk_exec \<Rightarrow> 'w disk_exec res option" where
  "DiskExecutor_callback popen L (X_Registered hostname) x = Some (Inr (de_registered hostname x))"
| "DiskExecutor_callback popen L X_Reregistered x = Some (Inr x)"
| "DiskExecutor_callback popen L X_Disconnected x = Some (Inr x)"
| "DiskExecutor_callback popen L (X_LaunchTask task) x = Some (de_launchTask popen L task x)"
| "DiskExecutor_callback popen L (X_KillTask tid) x = Some (Inr x)"
| "DiskExecutor_callback popen L (X_FrameworkMessage data) x = Some (Inr x)"
| "DiskExecutor_callback popen L X_Shutdown x = Some (Inr x)"
| "DiskExecutor_callback popen L (X_Error message) x = Some (Inr x)"

definition ceph_executor_main ::
  "'w os \<Rightarrow> lexcast \<Rightarrow> int \<Rightarrow> (exec_event, 'w ceph_exec) driver \<Rightarrow> int \<Rightarrow> 'w \<Rightarrow> int res option" where
  "ceph_executor_main os L indet D pid w =
     map_option (\<lambda>r. bind_res r (\<lambda>(st, x). Inr (run_code st)))
       (driver_run (CephExecutor_callback os L indet) D 0 (CephExecutor_new pid w))"

definition disk_executor_main ::
  "'w popen \<Rightarrow> lexcast \<Rightarrow> (exec_event, 'w disk_exec) driver \<Rightarrow> 'w \<Rightarrow> int res option" where
  "disk_executor_main popen L D w =
     map_option (\<lambda>r. bind_res r (\<lambda>(st, x). Inr (run_code st)))
       (driver_run (DiskExecutor_callback popen L) D 0 (DiskExecutor_new w))"

section \<open>What the Ceph executor reports\<close>

lemma task_data_type:
  assumes "task_data os L indet task x = Inr (c, ty, x')" and "task_data os L indet task y = Inr (c', ty', y')"
  shows "ty' = ty"
  using assms by (auto simp: task_data_def Let_def split: option.splits elim!: bind_resE)

lemma x_launchTask_reports:
  assumes "x_launchTask os L indet task x = Some (Inr x')"
  shows "\<exists>st. statuses x' = statuses x @ [st] \<and> st_task_id st = ti_task_id task \<and>
    (x_myTaskId x' = ti_task_id task \<or> x_myTaskId x' = x_myTaskId x)"
proof -
  obtain t where "\<forall>y c ty y'. task_data os L indet task y = Inr (c, ty, y') \<longrightarrow> ty = t"
    using task_data_type by (metis (no_types, lifting))
  from x_launchTask_status [OF assms this] show ?thesis by auto
qed

text \<open>Tasks an event brings, and the events that report.\<close>

fun event_task :: "exec_event \<Rightarrow> string set" where
  "event_task (X_LaunchTask task) = {ti_task_id task}"
| "event_task _ = {}"

lemma ceph_callback_reports:
  assumes "CephExecutor_callback os L indet e x = Some (Inr x')"
  shows "\<exists>sts. statuses x' = statuses x @ sts \<and> length sts \<le> 1 \<and>
    (\<forall>st \<in> set sts. st_task_id st \<in> insert (x_myTaskId x) (event_task e)) \<and>
    x_myTaskId x' \<in> insert (x_myTaskId x) (event_task e)"
proof (cases e)
  case (X_LaunchTask task)
  with assms x_launchTask_reports [of os L indet task x x'] show ?thesis by force
next
  case (X_FrameworkMessage data)
  with assms have "statuses x' = statuses x \<and> x_myTaskId x' = x_myTaskId x \<or>
      (\<exists>osdId. launchOSD os L osdId x = Some (Inr x'))"
    by (auto simp: x_frameworkMessage_def registerOSD_def Let_def statuses_def x_emit_def
        split: sum.splits if_splits prod.splits dest!: quiet_shell) (simp_all add: quiet_def statuses_def)
  then show ?thesis using launchOSD_status [of os L _ x x'] X_FrameworkMessage by fastforce
next
  case X_Shutdown
  with assms show ?thesis by (auto simp: x_shutdown_def Let_def)
qed (use assms in \<open>auto simp: x_registered_def statuses_def\<close>)

definition reports_in :: "string set \<Rightarrow> 'w ceph_exec \<Rightarrow> bool" where
  "reports_in T x \<longleftrightarrow> x_myTaskId x \<in> insert [] T \<and> (\<forall>st \<in> set (statuses x). st_task_id st \<in> insert [] T)"

interpretation node: driven "CephExecutor_callback os L indet" "\<lambda>e. event_task e \<subseteq> T" "reports_in T"
  for os :: "'w os" and L indet T
proof unfold_locales
  fix e and x x' :: "'w ceph_exec"
  assume ok: "event_task e \<subseteq> T" and inv: "reports_in T x"
    and run: "CephExecutor_callback os L indet e x = Some (Inr x')"
  from ceph_callback_reports [OF run] obtain sts where "statuses x' = statuses x @ sts"
      "\<forall>st \<in> set sts. st_task_id st \<in> insert (x_myTaskId x) (event_task e)"
      "x_myTaskId x' \<in> insert (x_myTaskId x) (event_task e)" by blast
  with ok inv show "reports_in T x'" unfolding reports_in_def by auto
qed

lemma ceph_events_count:
  "run_events (CephExecutor_callback os L indet) es x = Some (Inr x') \<Longrightarrow>
     length (statuses x') \<le> length (statuses x) + length es"
proof (induction es arbitrary: x)
  case (Cons e es)
  from Cons.prems obtain y where y: "CephExecutor_callback os L indet e x = Some (Inr y)"
      "run_events (CephExecutor_callback os L indet) es y = Some (Inr x')"
    by (rule run_events_ConsE)
  from ceph_callback_reports [OF y(1)] have "length (statuses y) \<le> length (statuses x) + 1" by auto
  with Cons.IH [OF y(2)] show ?case by simp
qed simp

section \<open>What the disk executor reports\<close>

text \<open>The reports that one event causes.\<close>

fun disk_reports :: "exec_event \<Rightarrow> (string \<times> task_state) list" where
  "disk_reports (X_LaunchTask task) =
     (if ti_labels task \<in> {None, Some []} then [(ti_task_id task, TASK_FAILED)] else []) @ [(ti_task_id task, TASK_FINISHED)]"
| "disk_reports _ = []"

lemma disk_events_reports:
  "run_events (DiskExecutor_callback popen L) es x = Some (Inr x') \<Longrightarrow>
     map (\<lambda>st. (st_task_id st, st_state st)) (de_sent x') =
     map (\<lambda>st. (st_task_id st, st_state st)) (de_sent x) @ concat (map disk_reports es)"
proof (induction es arbitrary: x)
  case (Cons e es)
  from Cons.prems obtain y where y: "DiskExecutor_callback popen L e x = Some (Inr y)"
      "run_events (DiskExecutor_callback popen L) es y = Some (Inr x')"
    by (rule run_events_ConsE)
  have "map (\<lambda>st. (st_task_id st, st_state st)) (de_sent y) =
      map (\<lambda>st. (st_task_id st, st_state st)) (de_sent x) @ disk_reports e"
  proof (cases e)
    case (X_LaunchTask task)
    with y(1) have "de_launchTask popen L task x = Inr y" by simp
    from de_launchTask_reports [OF this] obtain msg where "de_sent y = de_sent x @
        (if ti_labels task \<in> {None, Some []}
         then [\<lparr>st_task_id = ti_task_id task, st_state = TASK_FAILED, st_message = None\<rparr>] else []) @
        [\<lparr>st_task_id = ti_task_id task, st_state = TASK_FINISHED, st_message = Some msg\<rparr>]" ..
    then show ?thesis by (simp add: X_LaunchTask)
  qed (use y(1) in \<open>auto simp: de_registered_def\<close>)
  with Cons.IH [OF y(2)] show ?case by simp
qed simp

end
