(* ===== verification/Rest_Server.thy ===== *)
theory Rest_Server
  imports Event_Loop
begin

text \<open>
  \<^verbatim>\<open>src/httpserver/RestServer.cpp\<close>: validation of a flex-up request and the handler
  that libmicrohttpd calls repeatedly for one connection. The message queue is a
  parameter \<open>mq_send\<close> that says which messages can be sent (the queue exists and takes
  the message); the messages sent are an output.
\<close>

section \<open>jsonCheck\<close>

definition maxInstancesSize :: int where "maxInstancesSize = 1024"

definition jsonCheck ::
  "'j json_lib \<Rightarrow> (string \<Rightarrow> bool) \<Rightarrow> string \<Rightarrow> (string \<times> string list) res" where
  "jsonCheck J mq_send json =
     (case j_parse J json of
        Some v \<Rightarrow>
          bind_res (json_instances J v) (\<lambda>instances.
            if instances < 1 \<or> instances > maxInstancesSize
            then Inr (''[error]:instances'', [])
            else bind_res (json_profile J v) (\<lambda>profile.
              if \<not> (profile = ''osd'' \<or> profile = ''mon'')
              then Inr (''[error]:profile'', [])
              else if mq_send json then Inr (''[success]'', [json])
              else Inl Interprocess_Exception))
      | None \<Rightarrow> Inr (''[error]:json'', []))"

section \<open>rest_request\<close>

record ConnectionData =
  is_parsing :: bool
  read_post_data :: string

datatype mhd_ret =
    Ret_NO                     \<comment> \<open>\<open>MHD_NO\<close>\<close>
  | Ret_YES                    \<comment> \<open>\<open>MHD_YES\<close>\<close>
  | Ret_HTTP_NOT_FOUND         \<comment> \<open>the status code returned in place of a result\<close>
  | Ret_queue string           \<comment> \<open>result of queueing a response with status 200 and this body\<close>

text \<open>
  One call: method, URL, the uploaded chunk and \<open>*con_cls\<close>; the result is the value
  returned, the new \<open>*con_cls\<close> and the messages sent.
\<close>

definition rest_request ::
  "'j json_lib \<Rightarrow> (string \<Rightarrow> bool) \<Rightarrow> string \<Rightarrow> string \<Rightarrow> string \<Rightarrow> ConnectionData option \<Rightarrow>
   (mhd_ret \<times> ConnectionData option \<times> string list) res" where
  "rest_request J mq_send url method upload_data con_cls =
     (if method \<noteq> ''POST'' then Inr (Ret_NO, con_cls, [])
      else if url \<noteq> ''/api/cluster/flexup'' then Inr (Ret_HTTP_NOT_FOUND, con_cls, [])
      else
        (let connection_data =
               (case con_cls of
                  None \<Rightarrow> \<lparr>is_parsing = False, read_post_data = []\<rparr>
                | Some cd \<Rightarrow> cd)
         in if \<not> is_parsing connection_data
            then Inr (Ret_YES, Some (connection_data\<lparr>is_parsing := True\<rparr>), [])
            else if upload_data \<noteq> []
            then Inr (Ret_YES,
                   Some (connection_data\<lparr>read_post_data := read_post_data connection_data @ upload_data\<rparr>),
                   [])
            else
              (let outpost = read_post_data connection_data
               in bind_res (jsonCheck J mq_send (c_str outpost)) (\<lambda>(answer, sent).
                    Inr (Ret_queue (c_str (''Received data:'' @ [CHR 0x0A] @ outpost @ [CHR 0x0A] @ answer)),
                         None, sent)))))"

text \<open>A connection: the handler is called for every element in turn.\<close>

fun rest_connection ::
  "'j json_lib \<Rightarrow> (string \<Rightarrow> bool) \<Rightarrow> string list \<Rightarrow> ConnectionData option \<Rightarrow>
   (mhd_ret list \<times> ConnectionData option \<times> string list) res" where
  "rest_connection J mq_send [] c = Inr ([], c, [])"
| "rest_connection J mq_send (u # us) c =
     bind_res (rest_request J mq_send ''/api/cluster/flexup'' ''POST'' u c) (\<lambda>(r, c', sent).
     bind_res (rest_connection J mq_send us c') (\<lambda>(rs, c'', sent').
       Inr (r # rs, c'', sent @ sent')))"

section \<open>RestServer\<close>

text \<open>
  \<open>start\<close> says for which ports \<open>MHD_start_daemon\<close> succeeds; a server is the port of its daemon,
  or none. The destructor gives the port back.
\<close>

type_synonym rest_server = "int option"

definition RestServer_port :: "(int \<Rightarrow> bool) \<Rightarrow> int \<Rightarrow> rest_server" where
  "RestServer_port start port = (if start port then Some port else None)"

definition RestServer_new :: "(int \<Rightarrow> bool) \<Rightarrow> rest_server" where
  "RestServer_new start = (let port = 8889 in if start port then Some port else None)"

definition RestServer_check :: "rest_server \<Rightarrow> bool" where
  "RestServer_check daemon \<longleftrightarrow> daemon \<noteq> None"

definition RestServer_delete :: "rest_server \<Rightarrow> rest_server" where
  "RestServer_delete daemon = None"

definition restServer :: "(int \<Rightarrow> bool) \<Rightarrow> int \<Rightarrow> int option" where
  "restServer start port =
     (let server = RestServer_port start port
      in if \<not> RestServer_check server then Some 1 else sleep_forever 0)"

text \<open>
  The server is a local variable: when \<open>restServer\<close> returns it is destroyed, and it returns only when
  there is no daemon to stop.
\<close>

lemma restServer_returns_destroyed:
  assumes "restServer start port = Some n"
  shows "RestServer_delete (RestServer_port start port) = RestServer_port start port"
  using assms by (auto simp: restServer_def RestServer_port_def RestServer_check_def RestServer_delete_def split: if_splits)

lemma restServer_returns: "restServer start port = Some n \<longleftrightarrow> \<not> start port \<and> n = 1"
  by (auto simp: restServer_def RestServer_port_def RestServer_check_def)

section \<open>Properties\<close>

lemma jsonCheck_sent:
  assumes "jsonCheck J mq_send json = Inr (answer, sent)"
  shows "sent = (if answer = ''[success]'' then [json] else [])"
  using assms by (auto simp: jsonCheck_def res_simps split: option.splits if_splits)

lemma jsonCheck_success_iff:
  "(jsonCheck J mq_send json = Inr (''[success]'', sent)) =
    (sent = [json] \<and> mq_send json \<and>
     (\<exists>v n p. j_parse J json = Some v \<and> json_instances J v = Inr n \<and> json_profile J v = Inr p \<and>
        1 \<le> n \<and> n \<le> maxInstancesSize \<and> (p = ''osd'' \<or> p = ''mon'')))"
  (is "?l = ?r")
proof
  assume ?l
  then show ?r by (auto simp: jsonCheck_def res_simps split: option.splits if_splits)
next
  assume ?r
  then show ?l by (auto simp: jsonCheck_def)
qed

lemma rest_chunks:
  assumes "\<forall>c \<in> set chunks. c \<noteq> []"
  shows "rest_connection J mq_send (chunks @ us) (Some \<lparr>is_parsing = True, read_post_data = acc\<rparr>) =
     bind_res (rest_connection J mq_send us
                 (Some \<lparr>is_parsing = True, read_post_data = acc @ concat chunks\<rparr>))
       (\<lambda>(rs, c, sent). Inr (replicate (length chunks) Ret_YES @ rs, c, sent))"
  using assms
proof (induction chunks arbitrary: acc)
  case Nil
  then show ?case
    by (cases "rest_connection J mq_send us (Some \<lparr>is_parsing = True, read_post_data = acc\<rparr>)") auto
next
  case (Cons ch chunks)
  then show ?case
    by (auto simp: rest_request_def Let_def bind_res_assoc intro!: bind_res_cong split: prod.splits)
qed

section \<open>Results\<close>

text \<open>
  C36: However the body of a request is cut into chunks, the handler answers it as a whole: it
  checks the concatenation of the chunks once, at the end, and its answer echoes the body.
\<close>

theorem rest_request_chunks:
  assumes "\<forall>c \<in> set chunks. c \<noteq> []"
  shows "rest_connection J mq_send ([] # chunks @ [[]]) None =
    bind_res (jsonCheck J mq_send (c_str (concat chunks))) (\<lambda>(answer, sent).
      Inr (replicate (Suc (length chunks)) Ret_YES @
             [Ret_queue (c_str (''Received data:'' @ [CHR 0x0A] @ concat chunks @ [CHR 0x0A] @ answer))],
           None, sent))"
proof -
  let ?c = "Some \<lparr>is_parsing = True, read_post_data = concat chunks\<rparr>"
  have last: "rest_connection J mq_send [[]] ?c =
      bind_res (jsonCheck J mq_send (c_str (concat chunks))) (\<lambda>(answer, sent).
        Inr ([Ret_queue (c_str (''Received data:'' @ [CHR 0x0A] @ concat chunks @ [CHR 0x0A] @ answer))], None, sent))"
    by (cases "jsonCheck J mq_send (c_str (concat chunks))") (auto simp: rest_request_def Let_def split: prod.splits)
  have "rest_connection J mq_send ([] # chunks @ [[]]) None =
      bind_res (rest_connection J mq_send (chunks @ [[]]) (Some \<lparr>is_parsing = True, read_post_data = []\<rparr>))
        (\<lambda>(rs, c, sent). Inr (Ret_YES # rs, c, sent))"
    by (simp add: rest_request_def Let_def)
  then show ?thesis
    using rest_chunks [OF assms, of J mq_send "[[]]" "[]"] last
    by (cases "jsonCheck J mq_send (c_str (concat chunks))") (auto split: prod.splits)
qed

theorem rest_request_chunks_witness:
  "\<exists>r. rest_connection demo_json (\<lambda>m. True) ([] # [take 5 demo_body, drop 5 demo_body] @ [[]]) None =
     Inr ([Ret_YES, Ret_YES, Ret_YES, r], None, [demo_body])"
proof -
  have ne: "\<forall>c \<in> set [take 5 demo_body, drop 5 demo_body]. c \<noteq> []" by (simp add: demo_body_def)
  have cat: "c_str (concat [take 5 demo_body, drop 5 demo_body]) = demo_body" using demo_body_no_nul by simp
  have "jsonCheck demo_json (\<lambda>m. True) demo_body = Inr (''[success]'', [demo_body])"
    by (simp add: jsonCheck_def demo_json_def json_instances_def json_profile_def maxInstancesSize_def)
  then show ?thesis
    using rest_request_chunks [OF ne, of demo_json "\<lambda>m. True"] unfolding cat by simp
qed

text \<open>
  A request is accepted, and its text sent to the event loop, exactly when it parses, asks
  for 1 to 1024 instances of the profile \<open>osd\<close> or \<open>mon\<close> and the queue takes it; every other
  answer leaves the queue alone.
\<close>

lemma jsonCheck_accepts:
  "jsonCheck J mq_send json = Inr (answer, sent) \<longrightarrow>
     (answer = ''[success]'' \<longleftrightarrow>
        mq_send json \<and> (\<exists>v n p. j_parse J json = Some v \<and> json_instances J v = Inr n \<and> json_profile J v = Inr p \<and>
          1 \<le> n \<and> n \<le> 1024 \<and> (p = ''osd'' \<or> p = ''mon''))) \<and>
     sent = (if answer = ''[success]'' then [json] else [])"
proof
  assume r: "jsonCheck J mq_send json = Inr (answer, sent)"
  have "answer = ''[success]'' \<longleftrightarrow> mq_send json \<and> (\<exists>v n p. j_parse J json = Some v \<and> json_instances J v = Inr n \<and>
      json_profile J v = Inr p \<and> 1 \<le> n \<and> n \<le> 1024 \<and> (p = ''osd'' \<or> p = ''mon''))"
    using r jsonCheck_success_iff [of J mq_send json "[json]"]
    by (auto simp: jsonCheck_def maxInstancesSize_def res_simps split: option.splits if_splits)
  with jsonCheck_sent [OF r] show "(answer = ''[success]'' \<longleftrightarrow>
        mq_send json \<and> (\<exists>v n p. j_parse J json = Some v \<and> json_instances J v = Inr n \<and> json_profile J v = Inr p \<and>
          1 \<le> n \<and> n \<le> 1024 \<and> (p = ''osd'' \<or> p = ''mon''))) \<and>
     sent = (if answer = ''[success]'' then [json] else [])" by simp
qed

end
