(* ===== verification/File_Server.thy ===== *)
theory File_Server
  imports Ceph_Prelude
begin

text \<open>
  \<^verbatim>\<open>src/httpserver/FileServer.cpp\<close>: the HTTP server that hands the executors and the Ceph
  configuration files to the hosts. The file system is a parameter. The handler keeps the
  address of a path whose string is gone (\<open>filepath\<close>); what is read through that pointer is
  the parameter \<open>freed\<close>.
\<close>

section \<open>Model\<close>

record file_system =
  fs_stat :: "string \<Rightarrow> nat option"         \<comment> \<open>\<open>st_size\<close> when \<open>stat\<close> succeeds\<close>
  fs_open :: "string \<Rightarrow> string option"      \<comment> \<open>contents when \<open>fopen\<close> succeeds\<close>

text \<open>\<open>fseek\<close> and \<open>fread\<close> of at most \<open>max'\<close> characters.\<close>

definition file_reader :: "string \<Rightarrow> nat \<Rightarrow> nat \<Rightarrow> string" where
  "file_reader file pos max' = take max' (drop pos file)"

datatype file_ret =
    File_NO
  | File_YES
  | File_NotFound string         \<comment> \<open>queued response: status 404 with this body\<close>
  | File_OK nat string           \<comment> \<open>queued response: status 200, size, file read by \<open>file_reader\<close>\<close>

text \<open>
  \<open>con_cls\<close> is whether \<open>*con_cls\<close> holds the address of the static variable \<open>aptr\<close>;
  \<open>created\<close> whether the library could create the response.
\<close>

definition file_request ::
  "file_system \<Rightarrow> (string \<Rightarrow> string) \<Rightarrow> bool \<Rightarrow> string \<Rightarrow> string \<Rightarrow> string \<Rightarrow> bool \<Rightarrow> file_ret \<times> bool" where
  "file_request fs freed created path url method con_cls =
     (if method \<noteq> ''GET'' then (File_NO, con_cls)
      else if \<not> con_cls then (File_YES, True)
      else
        (let surl = drop 1 url;
             filepath = freed (c_str (path @ surl));
             file = (if fs_stat fs filepath \<noteq> None then fs_open fs filepath else None)
         in case file of
              None \<Rightarrow> (File_NotFound filepath, False)
            | Some contents \<Rightarrow>
                if \<not> created then (File_NO, False)
                else (File_OK (the (fs_stat fs filepath)) contents, False)))"

text \<open>The library calls the reader at increasing positions, at most 32 KiB at a time.\<close>

definition page_size :: nat where "page_size = 32 * 1024"

function served :: "nat \<Rightarrow> string \<Rightarrow> nat \<Rightarrow> string" where
  "served sz cs pos =
     (if sz \<le> pos then []
      else let got = file_reader cs pos (min page_size (sz - pos))
           in if got = [] then [] else got @ served sz cs (pos + length got))"
  by pat_completeness auto
termination
proof (relation "measure (\<lambda>(sz, cs, pos). sz - pos)", goal_cases)
  case (2 sz cs pos got)
  then have "0 < length got" by simp
  with 2(1) have "sz - (pos + length got) < sz - pos" by linarith
  then show ?case by simp
qed simp

declare served.simps [simp del]

text \<open>The server itself: it returns only when the daemon does not start.\<close>

definition fileServer :: "(int \<Rightarrow> bool) \<Rightarrow> int \<Rightarrow> int option" where
  "fileServer start port = (if \<not> start port then Some 1 else sleep_forever 0)"

section \<open>Properties\<close>

lemma served_eq: "served sz cs pos = drop pos (take sz cs)"
proof (induction sz cs pos rule: served.induct)
  case (1 sz cs pos)
  let ?n = "min page_size (sz - pos)"
  let ?got = "file_reader cs pos ?n"
  show ?case
  proof (cases "sz \<le> pos \<or> ?got = []")
    case True
    then show ?thesis
      by (subst served.simps) (auto simp: file_reader_def page_size_def Let_def min_def split: if_splits)
  next
    case False
    then have IH: "served sz cs (pos + length ?got) = drop (pos + length ?got) (take sz cs)"
      using 1 by simp
    have len: "length ?got = min ?n (length cs - pos)" by (simp add: file_reader_def)
    have "?got = take (length ?got) (drop pos (take sz cs))"
    proof -
      have "take ?n (drop pos (take sz cs)) = take ?n (take (sz - pos) (drop pos cs))" by (simp add: drop_take)
      also have "\<dots> = ?got" by (simp add: file_reader_def min.commute)
      finally have "?got = take ?n (drop pos (take sz cs))" by simp
      then show ?thesis by (rule take_length_self)
    qed
    then show ?thesis
      using False IH by (subst served.simps)
        (simp add: Let_def, metis add.commute append_take_drop_id drop_drop)
  qed
qed

lemma fileServer_returns: "fileServer start port = Some n \<longleftrightarrow> \<not> start port \<and> n = 1"
  by (auto simp: fileServer_def)

text \<open>
  Two calls of the handler answer one request, and the pages that the library then reads are the
  contents of the file. (The path is used after its string is gone; this is for memory that still
  holds it.)
\<close>

lemma file_request_serves:
  assumes "fs_stat fs (dir @ name) = Some (length contents)" and "fs_open fs (dir @ name) = Some contents"
    and "NUL \<notin> set (dir @ name)"
  shows "file_request fs (\<lambda>s. s) True dir (CHR ''/'' # name) ''GET'' False = (File_YES, True) \<and>
     file_request fs (\<lambda>s. s) True dir (CHR ''/'' # name) ''GET'' True = (File_OK (length contents) contents, False) \<and>
     served (length contents) contents 0 = contents"
  using assms by (simp add: file_request_def served_eq)

end
