(* ===== verification/Main_Process.thy ===== *)
theory Main_Process
  imports Scheduler_Driver Rest_Server File_Server
begin

text \<open>
  \<^verbatim>\<open>src/scheduler/main.cpp\<close>: the process that reads the configuration, starts the file
  server, the REST server and the framework, each in a thread of its own, and waits for the
  three.
\<close>

section \<open>Model\<close>

text \<open>
  What becomes of a thread: it never returns (\<open>None\<close>), an exception leaves its function, or it
  returns a value, which \<open>std::thread\<close> drops. An exception that leaves a thread ends the whole
  process.
\<close>

type_synonym thread = "int res option"

datatype process = Exits int | Terminates cpp_error

fun join_threads :: "thread list \<Rightarrow> process option" where
  "join_threads [] = Some (Exits 0)"
| "join_threads (Some (Inl e) # ts) = Some (Terminates e)"
| "join_threads (Some (Inr n) # ts) = join_threads ts"
| "join_threads (None # ts) =
     (case join_threads ts of Some (Terminates e) \<Rightarrow> Some (Terminates e) | _ \<Rightarrow> None)"

definition scheduler_main ::
  "'y agent_env \<Rightarrow> 'j json_lib \<Rightarrow> int \<Rightarrow> (FrameworkInfo \<Rightarrow> string \<Rightarrow> (sched_action, sched) driver) \<Rightarrow>
   (int \<Rightarrow> bool) \<Rightarrow> process option" where
  "scheduler_main E J indet D start =
     (case get_config (ae_config E) of
        Inl e \<Rightarrow> Some (Terminates e)
      | Inr config \<Rightarrow>
          (let fileServerThread = map_option Inr (fileServer start (cfg_fileport config));
               restServerThread = map_option Inr (restServer start (cfg_restport config));
               frameworkThread = framework E J indet D config
           in join_threads [fileServerThread, restServerThread, frameworkThread]))"

section \<open>Properties\<close>

lemma join_threads_exits:
  "join_threads ts = Some (Exits n) \<longleftrightarrow> n = 0 \<and> (\<forall>t \<in> set ts. \<exists>k. t = Some (Inr k))"
  by (induction ts rule: join_threads.induct) (auto split: option.splits process.splits)

lemma join_threads_terminates:
  "(\<exists>e. join_threads ts = Some (Terminates e)) \<longleftrightarrow> (\<exists>e. Some (Inl e) \<in> set ts)"
  by (induction ts rule: join_threads.induct) (auto split: option.splits process.splits)

lemma map_Inr_option: "map_option Inr t = Some r \<longleftrightarrow> (\<exists>n. r = Inr n \<and> t = Some n)"
  by auto

end
