(* ===== verification/Program_Results.thy ===== *)
theory Program_Results
  imports Executor_Driver Main_Process Demo_Disks
begin

text \<open>
  Results about the programs as a whole: the framework under its driver, the process around
  it and the executors over their whole life.
\<close>

section \<open>Results about the programs\<close>




text \<open>
  C25: The process returns only with 0, whatever the framework returned, and only when neither
  the file server nor the REST server could be started: as long as one of the two serves, it
  never returns.
\<close>

theorem scheduler_main_returns:
  "scheduler_main E J indet D start = Some (Exits n) \<longleftrightarrow>
     n = 0 \<and> (\<exists>config code. get_config (ae_config E) = Inr config \<and>
       \<not> start (cfg_fileport config) \<and> \<not> start (cfg_restport config) \<and>
       framework E J indet D config = Some (Inr code))"
  by (cases "get_config (ae_config E)")
     (auto simp: scheduler_main_def join_threads_exits fileServer_returns restServer_returns map_Inr_option)

section \<open>Results about the executors\<close>



text \<open>
  C28: A disk executor reports exactly once per task that it is finished, after a failure when
  the task has no labels; it reports nothing else, and neither \<open>killTask\<close> nor \<open>shutdown\<close> has
  any effect on what it reports.
\<close>

theorem disk_executor_reports:
  assumes "run_events (DiskExecutor_callback popen L) es (DiskExecutor_new w) = Some (Inr x)"
  shows "map (\<lambda>st. (st_task_id st, st_state st)) (de_sent x) =
    concat (map (\<lambda>e. case e of
        X_LaunchTask task \<Rightarrow>
          (if ti_labels task = None \<or> ti_labels task = Some [] then [(ti_task_id task, TASK_FAILED)] else []) @
          [(ti_task_id task, TASK_FINISHED)]
      | _ \<Rightarrow> []) es)"
proof -
  have "disk_reports = (\<lambda>e. case e of
        X_LaunchTask task \<Rightarrow>
          (if ti_labels task = None \<or> ti_labels task = Some [] then [(ti_task_id task, TASK_FAILED)] else []) @
          [(ti_task_id task, TASK_FINISHED)]
      | _ \<Rightarrow> [])"
    by (rule ext) (auto split: exec_event.splits)
  with disk_events_reports [OF assms] show ?thesis by (simp add: DiskExecutor_new_def)
qed

theorem disk_executor_reports_witness:
  "\<exists>x. run_events (DiskExecutor_callback (\<lambda>w cmd. (Some [], w)) dec_lexcast)
       [X_Registered ''h1'', X_KillTask ''t1'', X_LaunchTask bare_task, X_Shutdown] (DiskExecutor_new ()) = Some (Inr x) \<and>
     map (\<lambda>st. (st_task_id st, st_state st)) (de_sent x) =
       [(ti_task_id bare_task, TASK_FAILED), (ti_task_id bare_task, TASK_FINISHED)]"
proof -
  obtain x where r: "run_events (DiskExecutor_callback (\<lambda>w cmd. (Some [], w)) dec_lexcast)
       [X_Registered ''h1'', X_KillTask ''t1'', X_LaunchTask bare_task, X_Shutdown] (DiskExecutor_new ()) = Some (Inr x)"
    by (simp add: de_launchTask_def addPendingDisks_def de_prepareDisks_def bare_task_def de_registered_def
        DiskExecutor_new_def de_send_def Let_def)
  with disk_executor_reports [OF r] show ?thesis by (auto simp: bare_task_def)
qed

end
