(* ===== verification/Event_Thread.thy ===== *)
theory Event_Thread
  imports Event_Loop
begin

text \<open>
  \<^verbatim>\<open>src/scheduler/EventLoop.hpp\<close> and the constructor and destructor of
  \<^verbatim>\<open>src/scheduler/EventLoop.cpp\<close>: the object that owns the thread. A step of the thread is
  one test of \<open>loopTag\<close> or one round of the loop body; the destructor clears the tag and waits
  for the thread. \<open>recvData\<close> of the theory \<open>Event_Loop\<close> is the thread run to its end.
\<close>

section \<open>The object\<close>

datatype loop_pc = Loop_Test | Loop_Body | Loop_Ended

record EventLoop =
  loopTag :: bool
  pendingOSD :: "int list"
  recvThread :: "loop_pc option"    \<comment> \<open>\<open>None\<close>: the null pointer\<close>

definition EventLoop_new :: EventLoop where
  "EventLoop_new = \<lparr>loopTag = True, pendingOSD = [], recvThread = Some Loop_Test\<rparr>"

definition getPendingOSD :: "EventLoop \<Rightarrow> int list" where
  "getPendingOSD l = pendingOSD l"

text \<open>One step of the thread; \<open>r\<close> is what \<open>try_receive\<close> gives and what the array held before.\<close>

definition loop_step :: "'j json_lib \<Rightarrow> receive \<times> string \<Rightarrow> EventLoop \<Rightarrow> EventLoop res" where
  "loop_step J r l =
     (case recvThread l of
        Some Loop_Test \<Rightarrow>
          Inr (l\<lparr>recvThread := Some (if loopTag l then Loop_Body else Loop_Ended)\<rparr>)
      | Some Loop_Body \<Rightarrow>
          (case r of
             (MQ_Empty, stale) \<Rightarrow> Inr (l\<lparr>recvThread := Some Loop_Test\<rparr>)
           | (MQ_Exception, stale) \<Rightarrow> Inr (l\<lparr>recvThread := Some Loop_Ended\<rparr>)
           | (MQ_Message msg, stale) \<Rightarrow>
               bind_res (buffer_string msg stale) (\<lambda>data.
                 case processData J data (pendingOSD l) of
                   Inl e \<Rightarrow> Inr (l\<lparr>recvThread := Some Loop_Ended\<rparr>)
                 | Inr p \<Rightarrow> Inr (l\<lparr>pendingOSD := p, recvThread := Some Loop_Test\<rparr>)))
      | _ \<Rightarrow> Inr l)"

definition thread_live :: "EventLoop \<Rightarrow> bool" where
  "thread_live l \<longleftrightarrow> recvThread l = Some Loop_Test \<or> recvThread l = Some Loop_Body"

text \<open>\<open>join\<close>: \<open>w i\<close> is what the thread meets in its \<open>i\<close>th step; \<open>None\<close> if it never ends.\<close>

partial_function (option) join_thread ::
  "'j json_lib \<Rightarrow> (nat \<Rightarrow> receive \<times> string) \<Rightarrow> nat \<Rightarrow> EventLoop \<Rightarrow> EventLoop res option" where
  "join_thread J w i l =
     (if thread_live l
      then (case loop_step J (w i) l of
              Inl e \<Rightarrow> Some (Inl e)
            | Inr l' \<Rightarrow> join_thread J w (Suc i) l')
      else Some (Inr l))"

definition EventLoop_delete ::
  "'j json_lib \<Rightarrow> (nat \<Rightarrow> receive \<times> string) \<Rightarrow> EventLoop \<Rightarrow> EventLoop res option" where
  "EventLoop_delete J w l =
     map_option (\<lambda>r. bind_res r (\<lambda>l. Inr (l\<lparr>recvThread := None\<rparr>))) (join_thread J w 0 (l\<lparr>loopTag := False\<rparr>))"

section \<open>The thread runs recvData\<close>

lemma loop_step_simps [simp]:
  "recvThread l = Some Loop_Test \<Longrightarrow>
     loop_step J r l = Inr (l\<lparr>recvThread := Some (if loopTag l then Loop_Body else Loop_Ended)\<rparr>)"
  by (simp add: loop_step_def)

text \<open>
  With the tag set, one test and one body are one round of \<open>recvData\<close>; the thread that meets the
  rounds \<open>rs\<close> and then finds the tag cleared leaves what \<open>recvData\<close> computes.
\<close>

fun loop_rounds :: "'j json_lib \<Rightarrow> (receive \<times> string) list \<Rightarrow> EventLoop \<Rightarrow> EventLoop res" where
  "loop_rounds J [] l = Inr l"
| "loop_rounds J (r # rs) l = bind_res (loop_step J r l) (\<lambda>l1. bind_res (loop_step J r l1) (loop_rounds J rs))"

lemma loop_rounds_ended:
  "recvThread l = Some Loop_Ended \<Longrightarrow> loop_rounds J rs l = Inr l"
  by (induction rs) (simp_all add: loop_step_def)

lemma loop_rounds_recvData:
  assumes "loopTag l" and "recvThread l = Some Loop_Test"
  shows "map_sum id pendingOSD (loop_rounds J rs l) = recvData J rs (pendingOSD l)"
  using assms
proof (induction rs arbitrary: l)
  case (Cons r rs)
  let ?l = "l\<lparr>recvThread := Some Loop_Body\<rparr>"
  obtain m stale where r: "r = (m, stale)" by fastforce
  have step: "loop_rounds J (r # rs) l = bind_res (loop_step J r ?l) (loop_rounds J rs)"
    using Cons.prems by simp
  show ?case
  proof (cases m)
    case MQ_Empty
    then show ?thesis using Cons.IH [of "l\<lparr>recvThread := Some Loop_Test\<rparr>"] Cons.prems
      unfolding step by (simp add: r loop_step_def)
  next
    case (MQ_Message msg)
    show ?thesis
    proof (cases "buffer_string msg stale")
      case (Inr data)
      then show ?thesis
        using Cons.IH [of "l\<lparr>pendingOSD := p, recvThread := Some Loop_Test\<rparr>" for p] Cons.prems
        unfolding step
        by (cases "processData J data (pendingOSD l)") (simp_all add: r MQ_Message loop_step_def loop_rounds_ended)
    qed (unfold step, simp add: r MQ_Message loop_step_def)
  next
    case MQ_Exception
    then show ?thesis unfolding step by (simp add: r loop_step_def loop_rounds_ended)
  qed
qed simp

section \<open>The destructor\<close>

lemma join_thread_ended [simp]: "\<not> thread_live l \<Longrightarrow> join_thread J w i l = Some (Inr l)"
  by (subst join_thread.simps) simp

lemma join_thread_step:
  "thread_live l \<Longrightarrow> join_thread J w i l =
     (case loop_step J (w i) l of Inl e \<Rightarrow> Some (Inl e) | Inr l' \<Rightarrow> join_thread J w (Suc i) l')"
  by (subst join_thread.simps) simp

lemma join_thread_test:
  assumes "recvThread l = Some Loop_Test" and "\<not> loopTag l"
  shows "join_thread J w i l = Some (Inr (l\<lparr>recvThread := Some Loop_Ended\<rparr>))"
  using assms by (simp add: join_thread_step thread_live_def)

text \<open>What the body in progress leaves in the vector.\<close>

lemma loop_body_cases:
  assumes "recvThread l = Some Loop_Body" and "loop_step J r l = Inr l'"
  shows "\<exists>p st. l' = l\<lparr>pendingOSD := p, recvThread := Some st\<rparr> \<and> st \<noteq> Loop_Body \<and>
    (p = pendingOSD l \<or> (\<exists>n. p = pendingOSD l @ [n]))"
proof -
  obtain m stale where r: "r = (m, stale)" by fastforce
  show ?thesis
  proof (cases m)
    case MQ_Empty
    then show ?thesis using assms by (intro exI [of _ "pendingOSD l"] exI [of _ Loop_Test]) (auto simp: loop_step_def r)
  next
    case (MQ_Message msg)
    obtain data where data: "buffer_string msg stale = Inr data"
      using assms MQ_Message by (auto simp: loop_step_def r elim!: bind_resE)
    show ?thesis
    proof (cases "processData J data (pendingOSD l)")
      case (Inl e)
      then show ?thesis using assms MQ_Message data
        by (intro exI [of _ "pendingOSD l"] exI [of _ Loop_Ended]) (auto simp: loop_step_def r)
    next
      case (Inr p)
      then show ?thesis using assms MQ_Message data processData_appends [OF Inr]
        by (intro exI [of _ p] exI [of _ Loop_Test]) (auto simp: loop_step_def r)
    qed
  next
    case MQ_Exception
    then show ?thesis using assms by (intro exI [of _ "pendingOSD l"] exI [of _ Loop_Ended]) (auto simp: loop_step_def r)
  qed
qed

lemma join_thread_body:
  assumes "recvThread l = Some Loop_Body" and "\<not> loopTag l"
  shows "\<exists>r. join_thread J w i l = Some r \<and> (\<forall>l'. r = Inr l' \<longrightarrow>
    recvThread l' = Some Loop_Ended \<and> (pendingOSD l' = pendingOSD l \<or> (\<exists>n. pendingOSD l' = pendingOSD l @ [n])))"
proof (cases "loop_step J (w i) l")
  case (Inr l1)
  obtain p st where l1: "l1 = l\<lparr>pendingOSD := p, recvThread := Some st\<rparr>" "st \<noteq> Loop_Body"
    and p: "p = pendingOSD l \<or> (\<exists>n. p = pendingOSD l @ [n])"
    using loop_body_cases [OF assms(1) Inr] by blast
  have "join_thread J w i l = join_thread J w (Suc i) l1"
    using assms(1) Inr by (simp add: join_thread_step thread_live_def)
  moreover have "join_thread J w (Suc i) l1 = Some (Inr (l1\<lparr>recvThread := Some Loop_Ended\<rparr>))"
    using l1 assms(2) by (cases st) (simp_all add: join_thread_test thread_live_def)
  ultimately show ?thesis using p l1(1) by auto
qed (use assms(1) in \<open>simp add: join_thread_step thread_live_def\<close>)

text \<open>With the tag still set and nothing received, the thread never ends.\<close>

lemma join_thread_tag_round:
  assumes IH: "\<And>J w i l r. rec J w i l = Some r \<Longrightarrow> (\<forall>i. fst (w i) = MQ_Empty) \<longrightarrow> \<not> (loopTag l \<and> thread_live l)"
    and round: "(if thread_live l
      then (case loop_step J (w i) l of Inl e \<Rightarrow> Some (Inl e) | Inr l' \<Rightarrow> rec J w (Suc i) l')
      else Some (Inr l)) = Some r"
  shows "(\<forall>i. fst (w i) = MQ_Empty) \<longrightarrow> \<not> (loopTag l \<and> thread_live l)"
proof (intro impI notI)
  assume quiet: "\<forall>i. fst (w i) = MQ_Empty" and l: "loopTag l \<and> thread_live l"
  obtain stale where wi: "w i = (MQ_Empty, stale)" using quiet by (metis prod.collapse)
  have "\<exists>l'. loop_step J (w i) l = Inr l' \<and> loopTag l' \<and> thread_live l'"
    using l by (auto simp: thread_live_def loop_step_def wi)
  with round l IH quiet show False by auto
qed

lemma join_thread_tag:
  assumes "\<forall>i. fst (w i) = MQ_Empty" and "loopTag l" and "thread_live l"
  shows "join_thread J w i l = None"
proof (cases "join_thread J w i l")
  case (Some r)
  have "(\<forall>i. fst (w i) = MQ_Empty) \<longrightarrow> \<not> (loopTag l \<and> thread_live l)"
    by (rule join_thread.raw_induct [OF join_thread_tag_round Some])
  with assms show ?thesis by blast
qed simp

lemma EventLoop_delete_returns:
  "\<exists>r. EventLoop_delete J w l = Some r \<and> (\<forall>l'. r = Inr l' \<longrightarrow> recvThread l' = None \<and>
     (pendingOSD l' = pendingOSD l \<or> (\<exists>n. pendingOSD l' = pendingOSD l @ [n])))"
proof (cases "recvThread l")
  case (Some pc)
  then show ?thesis
  proof (cases pc)
    case Loop_Body
    with Some join_thread_body [of "l\<lparr>loopTag := False\<rparr>" J w 0] show ?thesis
      by (fastforce simp: EventLoop_delete_def elim!: bind_resE)
  qed (auto simp: EventLoop_delete_def join_thread_test thread_live_def)
qed (auto simp: EventLoop_delete_def thread_live_def)

section \<open>Results\<close>

text \<open>
  C26: The destructor of the event loop returns in whatever state the thread is: unless the round
  in progress reads past its array, the thread is joined, the pointer to it is null, and at
  most one more request was appended to those that were pending.
\<close>

theorem event_loop_joins:
  "\<exists>r. EventLoop_delete J w l = Some r \<and> (\<forall>l'. r = Inr l' \<longrightarrow> recvThread l' = None \<and>
     (pendingOSD l' = pendingOSD l \<or> (\<exists>n. pendingOSD l' = pendingOSD l @ [n])))"
  by (rule EventLoop_delete_returns)

theorem event_loop_joins_witness:
  "\<exists>l'. EventLoop_delete demo_json (\<lambda>_. (MQ_Message demo_body, demo_body @ [NUL]))
     (EventLoop_new\<lparr>recvThread := Some Loop_Body\<rparr>) = Some (Inr l') \<and> pendingOSD l' = [2] \<and> recvThread l' = None"
proof -
  let ?w = "\<lambda>_ :: nat. (MQ_Message demo_body, demo_body @ [NUL])"
  let ?l = "EventLoop_new\<lparr>recvThread := Some Loop_Body\<rparr>"
  have b: "buffer_string demo_body (demo_body @ [NUL]) = Inr demo_body"
    by (rule buffer_string_clean [OF demo_body_no_nul]) simp_all
  have d: "EventLoop_delete demo_json ?w ?l = Some (Inr (?l\<lparr>loopTag := False, pendingOSD := [2], recvThread := None\<rparr>))"
    using processData_osd [OF demo_osd_request demo_body_no_nul, of "[]"]
    by (simp add: EventLoop_delete_def join_thread_step thread_live_def loop_step_def b EventLoop_new_def join_thread_test)
  from event_loop_joins [of demo_json ?w ?l] d show ?thesis by auto
qed

end
