(* ===== verification/Request_Pipeline.thy ===== *)
theory Request_Pipeline
  imports Rest_Server Scheduler_Steps Event_Thread
begin

text \<open>
  The way of a flex-up request through three threads: a connection of the REST server checks it
  and sends it to the message queue (\<^verbatim>\<open>src/httpserver/RestServer.cpp\<close>), the event loop takes it
  from there (\<^verbatim>\<open>src/scheduler/EventLoop.cpp\<close>), and the scheduler uses up its instances
  (\<^verbatim>\<open>fetchPendingRESTfulRequest\<close> of \<^verbatim>\<open>src/scheduler/CephSchedulerAgent.hpp\<close>). The first part
  shows that the scheduler's fetch, read as several accesses to the vector that the event loop
  also writes, has the effect of one step.
\<close>

section \<open>The fetch in small steps\<close>

text \<open>
  Where the scheduler is in \<open>fetchPendingRESTfulRequest\<close>: before \<open>empty()\<close>, before the read of the
  first element, before the erase or the write back, returned. Each step is one access to the
  vector; between any two of them the event loop may append a request.
\<close>

datatype fetch_pc = Fetch_Test | Fetch_Read | Fetch_Store int | Fetch_Done bool

fun fetch_step :: "fetch_pc \<times> int list \<Rightarrow> fetch_pc \<times> int list" where
  "fetch_step (Fetch_Test, OSDRequests) =
     (if OSDRequests = [] then (Fetch_Done False, OSDRequests) else (Fetch_Read, OSDRequests))"
| "fetch_step (Fetch_Read, OSDRequests) = (Fetch_Store (hd OSDRequests - 1), OSDRequests)"
| "fetch_step (Fetch_Store OSDInstanceCount, OSDRequests) =
     (if 0 = OSDInstanceCount then (Fetch_Done True, tl OSDRequests)
      else (Fetch_Done True, OSDRequests[0 := OSDInstanceCount]))"
| "fetch_step (Fetch_Done b, OSDRequests) = (Fetch_Done b, OSDRequests)"

datatype access = Scheduler_Step | Loop_Push int

fun interleaved :: "access list \<Rightarrow> fetch_pc \<times> int list \<Rightarrow> fetch_pc \<times> int list" where
  "interleaved [] s = s"
| "interleaved (Scheduler_Step # as) s = interleaved as (fetch_step s)"
| "interleaved (Loop_Push n # as) (pc, v) = interleaved as (pc, v @ [n])"

fun pushed :: "access list \<Rightarrow> int list" where
  "pushed [] = []"
| "pushed (Scheduler_Step # as) = pushed as"
| "pushed (Loop_Push n # as) = n # pushed as"

lemma interleaved_done: "interleaved as (Fetch_Done b, v) = (Fetch_Done b, v @ pushed as)"
proof (induction as arbitrary: v)
  case (Cons a as)
  then show ?case by (cases a) simp_all
qed simp

definition steps_of :: "access list \<Rightarrow> nat" where
  "steps_of as = length (filter (\<lambda>a. a = Scheduler_Step) as)"

lemma steps_of_simps [simp]:
  "steps_of [] = 0" "steps_of (Scheduler_Step # as) = Suc (steps_of as)" "steps_of (Loop_Push n # as) = steps_of as"
  by (simp_all add: steps_of_def)

text \<open>On a vector that is not empty the fetch leaves the end alone.\<close>

lemma fetch_append:
  "v \<noteq> [] \<Longrightarrow> fetchPendingRESTfulRequest v = (True, q) \<Longrightarrow> fetchPendingRESTfulRequest (v @ ns) = (True, q @ ns)"
  by (cases v) (auto simp: fetchPendingRESTfulRequest_def Let_def split: if_splits)

lemma fetch_nonempty: "v \<noteq> [] \<Longrightarrow> \<exists>q. fetchPendingRESTfulRequest v = (True, q)"
  by (cases v) (simp_all add: fetchPendingRESTfulRequest_def Let_def)

lemma interleaved_store:
  assumes "fetchPendingRESTfulRequest v = (True, q)" and "v \<noteq> []" and "1 \<le> steps_of as"
  shows "interleaved as (Fetch_Store (hd v - 1), v) = (Fetch_Done True, q @ pushed as)"
  using assms
proof (induction as arbitrary: v q)
  case (Cons a as)
  show ?case
  proof (cases a)
    case Scheduler_Step
    obtain n ns where "v = n # ns" using Cons.prems(2) by (cases v) auto
    with Cons.prems(1) Scheduler_Step show ?thesis
      by (auto simp: interleaved_done fetchPendingRESTfulRequest_def Let_def split: if_splits)
  next
    case (Loop_Push m)
    from Cons.IH [OF fetch_append [OF Cons.prems(2,1), of "[m]"]] Cons.prems(2,3) Loop_Push
    show ?thesis by simp
  qed
qed simp

lemma interleaved_read:
  assumes "fetchPendingRESTfulRequest v = (True, q)" and "v \<noteq> []" and "2 \<le> steps_of as"
  shows "interleaved as (Fetch_Read, v) = (Fetch_Done True, q @ pushed as)"
  using assms
proof (induction as arbitrary: v q)
  case (Cons a as)
  show ?case
  proof (cases a)
    case Scheduler_Step
    with Cons.prems show ?thesis using interleaved_store [of v q as] by simp
  next
    case (Loop_Push m)
    from Cons.IH [OF fetch_append [OF Cons.prems(2,1), of "[m]"]] Cons.prems(2,3) Loop_Push
    show ?thesis by simp
  qed
qed simp



text \<open>
  The event loop does not check the count. One that is not positive, which the REST server never
  sends, is never used up.
\<close>

lemma nonpositive_request_stays:
  "n \<le> 0 \<Longrightarrow> fetchPendingRESTfulRequest (n # ns) = (True, (n - 1) # ns)"
  by (simp add: fetchPendingRESTfulRequest_def)

section \<open>One request\<close>

text \<open>
  A flex-up request from end to end: the body of an OSD request, in whatever chunks it
  arrives, is sent to the queue once; the event loop, when the array behind the message holds a
  NUL, appends its instances to the pending requests; and in the request phase as many of the
  scheduler's fetches succeed as instances are pending.
\<close>

lemma flexup_end_to_end:
  assumes "\<forall>c \<in> set chunks. c \<noteq> []" and "NUL \<notin> set (concat chunks)" and "mq_send (concat chunks)"
    and "osd_request J (concat chunks) n" and "1 \<le> n" and "n \<le> 1024"
    and "length (concat chunks) < length stale" and "stale ! length (concat chunks) = NUL"
    and "\<forall>m \<in> set pending. 1 \<le> m"
  shows "\<exists>rs. rest_connection J mq_send ([] # chunks @ [[]]) None = Inr (rs, None, [concat chunks]) \<and>
    recvData J [(MQ_Message (concat chunks), stale)] pending = Inr (pending @ [n]) \<and>
    (\<exists>q. fetchPendingRESTfulRequest (pending @ [n]) = (True, q) \<and> sum_list q = sum_list pending + n - 1)"
proof -
  have "jsonCheck J mq_send (concat chunks) = Inr (''[success]'', [concat chunks])"
    using assms(3-6) by (auto simp: jsonCheck_def osd_request_def maxInstancesSize_def)
  then have "\<exists>rs. rest_connection J mq_send ([] # chunks @ [[]]) None = Inr (rs, None, [concat chunks])"
    using rest_chunks [OF assms(1), of J mq_send "[[]]" "[]"] assms(2)
    by (simp add: rest_request_def Let_def)
  moreover have "recvData J [(MQ_Message (concat chunks), stale)] pending = Inr (pending @ [n])"
    using recvData_osd_requests [of J "[(concat chunks, stale)]" "[n]" "[]" pending] assms(2,4,7,8) by simp
  moreover have "\<exists>q. fetchPendingRESTfulRequest (pending @ [n]) = (True, q) \<and> sum_list q = sum_list pending + n - 1"
    using requests.fetch_some [OF requests.ok_push [OF assms(9,5)]] requests.amount_nonneg [OF assms(9)] assms(5) by auto
  ultimately show ?thesis by blast
qed

section \<open>The scheduler's objects\<close>

text \<open>
  The agent owns a state machine and an event loop: its constructor makes both, which starts the
  thread, and its destructor deletes both, which joins the thread.
\<close>

record agent_objects =
  ao_stateMachine :: "StateMachine option"
  ao_eventLoop :: "EventLoop option"

definition agent_objects_new :: "int \<Rightarrow> Config \<Rightarrow> agent_objects" where
  "agent_objects_new indet config =
     \<lparr>ao_stateMachine = Some (StateMachine_new indet config), ao_eventLoop = Some EventLoop_new\<rparr>"

definition CephSchedulerAgent_delete ::
  "'j json_lib \<Rightarrow> (nat \<Rightarrow> receive \<times> string) \<Rightarrow> agent_objects \<Rightarrow> agent_objects res option" where
  "CephSchedulerAgent_delete J w a =
     (let a = a\<lparr>ao_stateMachine := None\<rparr>
      in case ao_eventLoop a of
           None \<Rightarrow> Some (Inr a)
         | Some l \<Rightarrow> map_option (\<lambda>r. bind_res r (\<lambda>_. Inr (a\<lparr>ao_eventLoop := None\<rparr>))) (EventLoop_delete J w l))"

lemma agent_delete_returns:
  "\<exists>r. CephSchedulerAgent_delete J w a = Some r \<and>
     (\<forall>a'. r = Inr a' \<longrightarrow> a' = \<lparr>ao_stateMachine = None, ao_eventLoop = None\<rparr>)"
proof (cases "ao_eventLoop a")
  case (Some l)
  obtain r where "EventLoop_delete J w l = Some r" using EventLoop_delete_returns [of J w l] by blast
  with Some show ?thesis by (cases r) (auto simp: CephSchedulerAgent_delete_def Let_def)
qed (auto simp: CephSchedulerAgent_delete_def Let_def)

section \<open>The queue\<close>

text \<open>\<open>message_queue flexUpMQ(open_or_create, "flexUp", 1014, 256)\<close>\<close>

definition max_messages :: nat where "max_messages = 1014"
definition max_message_size :: nat where "max_message_size = 256"

definition mq_takes :: "string list \<Rightarrow> string \<Rightarrow> bool" where
  "mq_takes q m \<longleftrightarrow> length q < max_messages \<and> length m \<le> max_message_size"

text \<open>
  The state: the queue, the event loop's vector, the number of instances that were accepted for
  OSDs and the number of fetches that succeeded.
\<close>

record pipeline =
  pl_queue :: "string list"
  pl_pending :: "int list"
  pl_accepted :: int
  pl_fetched :: int

definition pipeline_init :: "pipeline \<Rightarrow> bool" where
  "pipeline_init s \<longleftrightarrow> s = \<lparr>pl_queue = [], pl_pending = [], pl_accepted = 0, pl_fetched = 0\<rparr>"

definition osd_instances :: "'j json_lib \<Rightarrow> string \<Rightarrow> int" where
  "osd_instances J m =
     (case j_parse J m of
        None \<Rightarrow> 0
      | Some v \<Rightarrow>
          (case (json_profile J v, json_instances J v) of
             (Inr p, Inr n) \<Rightarrow> (if p = ''osd'' then n else 0)
           | _ \<Rightarrow> 0))"

text \<open>The array behind a message as the event loop needs it: the byte after the message is a NUL.\<close>

definition clean_array :: "string \<Rightarrow> string \<Rightarrow> bool" where
  "clean_array m stale \<longleftrightarrow> length stale = 256 \<and> length m < 256 \<and> stale ! length m = NUL"

inductive pipeline_step :: "'j json_lib \<Rightarrow> pipeline \<Rightarrow> pipeline \<Rightarrow> bool" for J where
  rest: "rest_request J (mq_takes (pl_queue s)) url method up con = Inr (r, con', sent) \<Longrightarrow>
    pipeline_step J s (s\<lparr>pl_queue := pl_queue s @ sent,
      pl_accepted := pl_accepted s + sum_list (map (osd_instances J) sent)\<rparr>)"
| receive: "pl_queue s = m # ms \<Longrightarrow> clean_array m stale \<Longrightarrow>
    recvData J [(MQ_Message m, stale)] (pl_pending s) = Inr p \<Longrightarrow>
    pipeline_step J s (s\<lparr>pl_queue := ms, pl_pending := p\<rparr>)"
| fetch: "fetchPendingRESTfulRequest (pl_pending s) = (b, p) \<Longrightarrow>
    pipeline_step J s (s\<lparr>pl_pending := p, pl_fetched := pl_fetched s + (if b then 1 else 0)\<rparr>)"

section \<open>Nothing is lost\<close>

definition accepted :: "'j json_lib \<Rightarrow> string \<Rightarrow> bool" where
  "accepted J m \<longleftrightarrow> NUL \<notin> set m \<and> length m \<le> max_message_size \<and>
     (\<exists>v n p. j_parse J m = Some v \<and> json_instances J v = Inr n \<and> json_profile J v = Inr p \<and>
        1 \<le> n \<and> n \<le> maxInstancesSize \<and> (p = ''osd'' \<or> p = ''mon''))"

definition pipeline_inv :: "'j json_lib \<Rightarrow> pipeline \<Rightarrow> bool" where
  "pipeline_inv J s \<longleftrightarrow>
     length (pl_queue s) \<le> max_messages \<and> (\<forall>m \<in> set (pl_queue s). accepted J m) \<and>
     (\<forall>n \<in> set (pl_pending s). 1 \<le> n \<and> n \<le> maxInstancesSize) \<and>
     pl_fetched s + sum_list (pl_pending s) + sum_list (map (osd_instances J) (pl_queue s)) = pl_accepted s"

lemma rest_request_sent:
  assumes "rest_request J (mq_takes q) url method up con = Inr (r, con', sent)"
  shows "sent = [] \<or> (\<exists>m. sent = [m] \<and> accepted J m \<and> length q < max_messages)"
proof -
  have "sent = [] \<or> (\<exists>body. jsonCheck J (mq_takes q) (c_str body) = Inr (''[success]'', sent))"
  proof (cases "sent = []")
    case False
    obtain body answer where j: "jsonCheck J (mq_takes q) (c_str body) = Inr (answer, sent)"
      using assms False by (auto simp: rest_request_def Let_def split: if_splits elim!: bind_resE)
    have "answer = ''[success]''" using jsonCheck_sent [OF j] False by (auto split: if_splits)
    with j show ?thesis by blast
  qed simp
  then show ?thesis
    by (auto simp: jsonCheck_success_iff accepted_def mq_takes_def)
qed

lemma accepted_received:
  assumes "accepted J m" and "clean_array m stale" and "recvData J [(MQ_Message m, stale)] p = Inr p'"
  shows "p' = p \<and> osd_instances J m = 0 \<or>
    p' = p @ [osd_instances J m] \<and> 1 \<le> osd_instances J m \<and> osd_instances J m \<le> maxInstancesSize"
proof -
  obtain v n pr where v: "j_parse J m = Some v" "json_instances J v = Inr n" "json_profile J v = Inr pr"
    "1 \<le> n" "n \<le> maxInstancesSize" "pr = ''osd'' \<or> pr = ''mon''" and nn: "NUL \<notin> set m"
    using assms(1) by (auto simp: accepted_def)
  have "buffer_string m stale = Inr m"
    by (rule buffer_string_clean [OF nn]) (use assms(2) in \<open>simp_all add: clean_array_def\<close>)
  then show ?thesis using assms(3) v nn by (auto simp: processData_def osd_instances_def)
qed

interpretation pipe: step_invariant pipeline_init "pipeline_step J" "pipeline_inv J" for J :: "'j json_lib"
proof unfold_locales
  show "pipeline_inv J s" if "pipeline_init s" for s
    using that by (simp add: pipeline_init_def pipeline_inv_def)
next
  fix s s' assume inv: "pipeline_inv J s" and "pipeline_step J s s'"
  from this(2) show "pipeline_inv J s'"
  proof (cases rule: pipeline_step.cases)
    case (rest u mth up con r con' sent)
    then show ?thesis using rest_request_sent [OF rest(2)] inv by (auto simp: pipeline_inv_def)
  next
    case (receive m ms stale p)
    then show ?thesis
      using accepted_received [OF _ receive(3,4)] inv by (auto simp: pipeline_inv_def)
  next
    case (fetch b p)
    have ok: "\<forall>n \<in> set (pl_pending s). 1 \<le> n" using inv by (simp add: pipeline_inv_def)
    show ?thesis
    proof (cases b)
      case True
      have "\<forall>n \<in> set p. n \<le> maxInstancesSize"
        using fetch(2) True inv
        by (auto simp: pipeline_inv_def fetchPendingRESTfulRequest_def Let_def split: list.splits if_splits)
      then show ?thesis
        using requests.fetch_True [OF ok] fetch True inv by (auto simp: pipeline_inv_def)
    next
      case False
      then have "p = pl_pending s"
        using fetch(2) by (auto simp: fetchPendingRESTfulRequest_def Let_def split: list.splits if_splits)
      then show ?thesis using fetch(1) False inv by (simp add: pipeline_inv_def)
    qed
  qed
qed

section \<open>Everything arrives\<close>

lemma pipeline_receives:
  assumes "pipeline_inv J s" and q: "pl_queue s = m # ms" and "length m < 256"
  shows "\<exists>p. pipeline_step J s (s\<lparr>pl_queue := ms, pl_pending := p\<rparr>)"
proof -
  let ?stale = "replicate 256 NUL"
  have m: "accepted J m" using assms(1) q by (simp add: pipeline_inv_def)
  have clean: "clean_array m ?stale" using assms(3) by (simp add: clean_array_def)
  have "buffer_string m ?stale = Inr m"
    by (rule buffer_string_clean) (use m assms(3) in \<open>simp_all add: accepted_def\<close>)
  then obtain p where "recvData J [(MQ_Message m, ?stale)] (pl_pending s) = Inr p"
    by (cases "processData J m (pl_pending s)") simp_all
  from pipeline_step.receive [OF q clean this] show ?thesis by blast
qed

lemma pipeline_empties:
  assumes "pipeline_inv J s" and "\<forall>m \<in> set (pl_queue s). length m < 256"
  shows "\<exists>s'. (pipeline_step J)\<^sup>*\<^sup>* s s' \<and> pl_queue s' = [] \<and> pl_accepted s' = pl_accepted s"
  using assms
proof (induction "pl_queue s" arbitrary: s)
  case (Cons m ms)
  obtain p where st: "pipeline_step J s (s\<lparr>pl_queue := ms, pl_pending := p\<rparr>)"
    using pipeline_receives [OF Cons.prems(1) Cons.hyps(2) [symmetric]] Cons.prems(2) Cons.hyps(2) by (metis list.set_intros(1))
  let ?s1 = "s\<lparr>pl_queue := ms, pl_pending := p\<rparr>"
  have "\<forall>m \<in> set (pl_queue ?s1). length m < 256" using Cons.prems(2) unfolding Cons.hyps(2) [symmetric] by simp
  then obtain s' where "(pipeline_step J)\<^sup>*\<^sup>* ?s1 s'" "pl_queue s' = []" "pl_accepted s' = pl_accepted ?s1"
    using Cons.hyps(1) [of ?s1] pipe.inv_step [OF Cons.prems(1) st] by auto
  then show ?case using converse_rtranclp_into_rtranclp [of "pipeline_step J", OF st] by auto
qed auto

lemma pipeline_fetches:
  assumes "pipeline_inv J s" and "pl_queue s = []"
  shows "\<exists>s'. (pipeline_step J)\<^sup>*\<^sup>* s s' \<and> pl_queue s' = [] \<and> pl_pending s' = [] \<and> pl_accepted s' = pl_accepted s"
  using assms
proof (induction "nat (sum_list (pl_pending s))" arbitrary: s rule: less_induct)
  case less
  have ok: "\<forall>n \<in> set (pl_pending s). 1 \<le> n" using less(2) by (simp add: pipeline_inv_def)
  show ?case
  proof (cases "pl_pending s")
    case (Cons n ns)
    have pos: "0 < sum_list (pl_pending s)" using ok sum_list_pos_nonneg [of ns] Cons by auto
    obtain p where f: "fetchPendingRESTfulRequest (pl_pending s) = (True, p)"
      and p: "sum_list p = sum_list (pl_pending s) - 1"
      using requests.fetch_some [OF ok pos] by blast
    let ?s1 = "s\<lparr>pl_pending := p, pl_fetched := pl_fetched s + 1\<rparr>"
    have st: "pipeline_step J s ?s1" using pipeline_step.fetch [OF f] by simp
    obtain s' where "(pipeline_step J)\<^sup>*\<^sup>* ?s1 s'" "pl_queue s' = []" "pl_pending s' = []" "pl_accepted s' = pl_accepted s"
      using less(1) [of ?s1] pipe.inv_step [OF less(2) st] less(3) p pos by auto
    then show ?thesis using converse_rtranclp_into_rtranclp [of "pipeline_step J", OF st] by blast
  qed (use less(3) in blast)
qed

text \<open>A message that fills the array is accepted, and reading it runs past the array.\<close>

lemma full_message_overread:
  assumes "jsonCheck J (mq_takes q) m = Inr (''[success]'', sent)" and "NUL \<notin> set m"
    and "length m = 256" and "length stale = 256"
  shows "sent = [m] \<and> recvData J [(MQ_Message m, stale)] p = Inl Buffer_Overread"
  using assms by (simp add: jsonCheck_success_iff buffer_string_eq)

section \<open>Results\<close>


definition demo_queued :: pipeline where
  "demo_queued = \<lparr>pl_queue = [demo_body], pl_pending = [], pl_accepted = 2, pl_fetched = 0\<rparr>"

lemma demo_instances: "osd_instances demo_json demo_body = 2"
  by (simp add: osd_instances_def demo_json_def json_profile_def json_instances_def)

lemma demo_queued_reach: "reach pipeline_init (pipeline_step demo_json) demo_queued"
proof -
  let ?s = "\<lparr>pl_queue = [], pl_pending = [], pl_accepted = 0, pl_fetched = 0\<rparr>"
  have r0: "reach pipeline_init (pipeline_step demo_json) ?s"
    by (rule reach_init) (simp add: pipeline_init_def)
  have "jsonCheck demo_json (mq_takes []) demo_body = Inr (''[success]'', [demo_body])"
    by (simp add: jsonCheck_def demo_json_def json_instances_def json_profile_def maxInstancesSize_def mq_takes_def
        max_messages_def max_message_size_def) (simp add: demo_body_def)
  then have "\<exists>r. rest_request demo_json (mq_takes (pl_queue ?s)) ''/api/cluster/flexup'' ''POST'' []
      (Some \<lparr>is_parsing = True, read_post_data = demo_body\<rparr>) = Inr (r, None, [demo_body])"
    using demo_body_no_nul by (simp add: rest_request_def Let_def)
  then obtain r where "rest_request demo_json (mq_takes (pl_queue ?s)) ''/api/cluster/flexup'' ''POST'' []
      (Some \<lparr>is_parsing = True, read_post_data = demo_body\<rparr>) = Inr (r, None, [demo_body])" by blast
  from reach_step [OF r0 pipeline_step.rest [OF this]] show ?thesis
    by (simp add: demo_queued_def demo_instances)
qed




end
