(* ===== verification/Curl_Http.thy ===== *)
theory Curl_Http
  imports Ceph_Prelude
begin

text \<open>
  \<^verbatim>\<open>src/common/CurlHttp.hpp\<close> and \<^verbatim>\<open>src/common/CurlHttp.cpp\<close>: an HTTP client that
  stores what it downloads. libcurl is a parameter: whether a handle can be made, and the
  transfer, which passes the body to the write callback of the program. The class keeps the
  address of its handle, so the model says what the handle behind that address is.
\<close>

section \<open>Model\<close>

datatype curl_handle = Curl_Null | Curl_Live | Curl_Freed

record CurlHttp =
  cu_curl :: curl_handle

text \<open>
  A file open for writing is the text written so far. \<open>cl_perform url wr file\<close> gives the result code
  and the file; it is documented to call \<open>wr\<close> with elements of size 1. \<open>cl_fits\<close> is how many
  characters \<open>fwrite\<close> can add.
\<close>

record curl_lib =
  cl_easy_init :: bool
  cl_perform :: "string \<Rightarrow> (string \<Rightarrow> nat \<Rightarrow> nat \<Rightarrow> string \<Rightarrow> nat \<times> string) \<Rightarrow> string \<Rightarrow> int \<times> string"
  cl_fits :: "string \<Rightarrow> string \<Rightarrow> nat"
  cl_writable :: "string \<Rightarrow> bool"

definition CURLE_BAD_FUNCTION_ARGUMENT :: int where "CURLE_BAD_FUNCTION_ARGUMENT = 43"

definition CurlHttp_new :: CurlHttp where
  "CurlHttp_new = \<lparr>cu_curl = Curl_Null\<rparr>"

text \<open>
  \<open>initialize\<close> sets up the library and makes a handle, the destructor undoes one set-up of the
  library. The number counts the set-ups in force, for all clients together.
\<close>

definition curl_initialize :: "curl_lib \<Rightarrow> CurlHttp \<times> nat \<Rightarrow> CurlHttp \<times> nat" where
  "curl_initialize C = (\<lambda>(c, inits).
     (c\<lparr>cu_curl := (if cl_easy_init C then Curl_Live else Curl_Null)\<rparr>, Suc inits))"

definition CurlHttp_destroy :: "CurlHttp \<times> nat \<Rightarrow> nat" where
  "CurlHttp_destroy = (\<lambda>(c, inits). inits - 1)"

text \<open>\<open>fwrite\<close> returns the number of complete elements it wrote.\<close>

definition writeCallback :: "curl_lib \<Rightarrow> string \<Rightarrow> nat \<Rightarrow> nat \<Rightarrow> string \<Rightarrow> nat \<times> string" where
  "writeCallback C ptr sz nmemb stream =
     (let n = min (cl_fits C stream ptr) (sz * nmemb)
      in (if sz = 0 then 0 else n div sz, stream @ take n ptr))"

definition curl_get ::
  "curl_lib \<Rightarrow> string \<Rightarrow> string \<Rightarrow> CurlHttp \<Rightarrow> (string \<Rightarrow> string option) \<Rightarrow>
   (int \<times> CurlHttp \<times> (string \<Rightarrow> string option)) res" where
  "curl_get C url filepath c files =
     (let fp = (if cl_writable C filepath then Some [] else None)
      in case cu_curl c of
           Curl_Freed \<Rightarrow> Inl Use_After_Free
         | Curl_Null \<Rightarrow>
             (case fp of
                None \<Rightarrow> Inl Null_Dereference
              | Some file \<Rightarrow> Inr (CURLE_BAD_FUNCTION_ARGUMENT, c, files(filepath \<mapsto> file)))
         | Curl_Live \<Rightarrow>
             (case fp of
                None \<Rightarrow> Inl Null_Dereference
              | Some file \<Rightarrow>
                  (let (res, file) = cl_perform C url (writeCallback C) file
                   in Inr (res, c\<lparr>cu_curl := Curl_Freed\<rparr>, files(filepath \<mapsto> file)))))"

section \<open>Properties\<close>

lemma writeCallback_all:
  assumes "length ptr \<le> cl_fits C stream ptr"
  shows "writeCallback C ptr 1 (length ptr) stream = (length ptr, stream @ ptr)"
  using assms by (simp add: writeCallback_def)

text \<open>
  What libcurl documents of a transfer: the body comes in pieces, and the transfer goes on as
  long as the callback takes each piece as a whole.
\<close>

definition delivers :: "curl_lib \<Rightarrow> string \<Rightarrow> string list \<Rightarrow> bool" where
  "delivers C url pieces \<longleftrightarrow>
     (\<forall>wr file. (\<forall>p \<in> set pieces. \<forall>s. wr p 1 (length p) s = (length p, s @ p)) \<longrightarrow>
        cl_perform C url wr file = (0, file @ concat pieces))"

lemma curl_get_live:
  assumes "cu_curl c = Curl_Live" and "cl_writable C path" and "delivers C url pieces"
    and "\<forall>p \<in> set pieces. \<forall>s. length p \<le> cl_fits C s p"
  shows "curl_get C url path c files = Inr (0, c\<lparr>cu_curl := Curl_Freed\<rparr>, files(path \<mapsto> concat pieces))"
proof -
  have "cl_perform C url (writeCallback C) [] = (0, concat pieces)"
    using assms(3,4) writeCallback_all unfolding delivers_def by (metis append_Nil)
  with assms(1,2) show ?thesis by (simp add: curl_get_def)
qed

text \<open>
  One \<open>initialize\<close> is undone by the destructor; a client that was never initialised undoes the
  set-up of another one.
\<close>

lemma CurlHttp_balanced:
  "CurlHttp_destroy (curl_initialize C (c, inits)) = inits"
  "CurlHttp_destroy (CurlHttp_new, snd (curl_initialize C (c, 0))) = 0"
  by (simp_all add: CurlHttp_destroy_def curl_initialize_def)

section \<open>Results\<close>

text \<open>
  On an initialised client the first \<open>get\<close> stores the body that the server sends and
  returns 0; every further \<open>get\<close> uses the handle that the first one has freed.
\<close>

lemma curl_get_once:
  assumes "cl_easy_init C" and "cl_writable C path" and "delivers C url pieces"
    and "\<forall>p \<in> set pieces. \<forall>s. length p \<le> cl_fits C s p"
  shows "\<exists>c'. curl_get C url path (fst (curl_initialize C (CurlHttp_new, 0))) files = Inr (0, c', files(path \<mapsto> concat pieces)) \<and>
    (\<forall>url' path' files'. curl_get C url' path' c' files' = Inl Use_After_Free)"
  using curl_get_live [OF _ assms(2-4), of "fst (curl_initialize C (CurlHttp_new, 0))" files] assms(1)
  by (simp add: curl_initialize_def) (simp add: curl_get_def)

text \<open>A server with one document in two pieces and a disk that is never full.\<close>

definition demo_curl :: curl_lib where
  "demo_curl = \<lparr>cl_easy_init = True,
     cl_perform = (\<lambda>url wr file.
       (let (n1, f1) = wr ''ab'' 1 2 file
        in if n1 \<noteq> 2 then (23, f1)
           else let (n2, f2) = wr ''c'' 1 1 f1 in (if n2 \<noteq> 1 then 23 else 0, f2))),
     cl_fits = (\<lambda>file p. length p), cl_writable = (\<lambda>path. True)\<rparr>"

lemma demo_curl_delivers: "delivers demo_curl url [''ab'', ''c'']"
  unfolding delivers_def
proof (intro allI impI)
  fix wr :: "string \<Rightarrow> nat \<Rightarrow> nat \<Rightarrow> string \<Rightarrow> nat \<times> string" and f
  assume w: "\<forall>p \<in> set [''ab'', ''c'']. \<forall>s. wr p 1 (length p) s = (length p, s @ p)"
  from w have "wr ''ab'' 1 2 s = (2, s @ ''ab'')" "wr ''c'' 1 1 s = (1, s @ ''c'')" for s
    by (force simp: numeral_2_eq_2)+
  then show "cl_perform demo_curl url wr f = (0, f @ concat [''ab'', ''c''])"
    by (simp add: demo_curl_def)
qed

lemma demo_curl_get:
  "\<exists>c'. curl_get demo_curl ''http://m/monmap'' ''/tmp/monmap'' (fst (curl_initialize demo_curl (CurlHttp_new, 0))) (\<lambda>_. None) =
       Inr (0, c', [''/tmp/monmap'' \<mapsto> ''abc'']) \<and>
     curl_get demo_curl ''http://m/ceph.conf'' ''/tmp/ceph.conf'' c' (\<lambda>_. None) = Inl Use_After_Free"
  using curl_get_once [OF _ _ demo_curl_delivers, of "''/tmp/monmap''" "''http://m/monmap''" "\<lambda>_. None"]
  by (auto simp: demo_curl_def)

end
