(* ===== verification/Unit_Tests.thy ===== *)
theory Unit_Tests
  imports Rest_Server Demo_Cluster
begin

text \<open>
  \<^verbatim>\<open>src/tests/RestServerTest.cpp\<close>, \<^verbatim>\<open>src/tests/ConfigTest.cpp\<close> and
  \<^verbatim>\<open>src/tests/CephSchedulerAgentTest.cpp\<close> on the model: the inputs of every test case, what the
  libraries read in them, and the expected outcome. The mock driver of
  \<^verbatim>\<open>src/tests/MockMesosSchedulerDriver.hpp\<close> is the recorded list of driver calls.
\<close>

section \<open>RestServerTest\<close>

datatype json_leaf = Json_Int int | Json_Str string

datatype json_node = Json_Leaf json_leaf | Json_Object "(string \<times> json_leaf) list"

definition quoted :: "string \<Rightarrow> string" where
  "quoted s = [CHR 0x22] @ s @ [CHR 0x22]"

fun print_leaf :: "json_leaf \<Rightarrow> string" where
  "print_leaf (Json_Int n) = show_int n"
| "print_leaf (Json_Str s) = quoted s"

fun print_members :: "(string \<times> json_leaf) list \<Rightarrow> string" where
  "print_members [] = []"
| "print_members [(k, v)] = quoted k @ '':'' @ print_leaf v"
| "print_members ((k, v) # m # ms) = quoted k @ '':'' @ print_leaf v @ '','' @ print_members (m # ms)"

fun print_json :: "json_node \<Rightarrow> string" where
  "print_json (Json_Leaf v) = print_leaf v"
| "print_json (Json_Object members) = ''{'' @ print_members members @ ''}''"

text \<open>The documents of the six test cases.\<close>

definition doc_right :: "string \<Rightarrow> json_node" where
  "doc_right profile = Json_Object [(''instances'', Json_Int 1), (''profile'', Json_Str profile)]"

definition doc_no_instances :: json_node where
  "doc_no_instances = Json_Object [(''error'', Json_Int 1), (''profile'', Json_Str ''osd'')]"

definition doc_many_instances :: json_node where
  "doc_many_instances = Json_Object [(''instances'', Json_Int 2222), (''profile'', Json_Str ''osd'')]"

definition doc_no_profile :: json_node where
  "doc_no_profile = Json_Object [(''instances'', Json_Int 1), (''error'', Json_Str ''osd'')]"

definition test_docs :: "json_node list" where
  "test_docs = [doc_right ''mon'', doc_right ''osd'', doc_no_instances, doc_many_instances, doc_no_profile, doc_right ''error'']"

text \<open>A JSON library that reads exactly these documents.\<close>

fun node_get :: "json_node \<Rightarrow> string \<Rightarrow> json_node option res" where
  "node_get (Json_Object members) key = Inr (map_option Json_Leaf (map_of members key))"
| "node_get _ key = Inl Json_Exception"

fun node_int :: "json_node \<Rightarrow> int option" where
  "node_int (Json_Leaf (Json_Int n)) = Some n"
| "node_int _ = None"

fun node_str :: "json_node \<Rightarrow> string option" where
  "node_str (Json_Leaf (Json_Str s)) = Some s"
| "node_str _ = None"

definition test_json :: "json_node json_lib" where
  "test_json = \<lparr>j_parse = (\<lambda>s. find (\<lambda>d. print_json d = s) test_docs), j_get = node_get,
     j_asInt = node_int, j_asString = node_str\<rparr>"

lemma test_parse:
  "d \<in> set test_docs \<Longrightarrow> j_parse test_json (print_json d) = Some d"
proof -
  have dist: "distinct (map print_json test_docs)" by code_simp
  assume "d \<in> set test_docs"
  then obtain i where "i < length test_docs" "test_docs ! i = d" by (auto simp: in_set_conv_nth)
  with dist show ?thesis
    by (auto simp: test_json_def find_Some_iff distinct_conv_nth)
qed

lemma test_docs_members [simp]:
  "doc_right ''mon'' \<in> set test_docs" "doc_right ''osd'' \<in> set test_docs" "doc_right ''error'' \<in> set test_docs"
  "doc_no_instances \<in> set test_docs" "doc_many_instances \<in> set test_docs" "doc_no_profile \<in> set test_docs"
  by (simp_all add: test_docs_def)

lemma test_json_sel [simp]: "j_get test_json = node_get" "j_asInt test_json = node_int" "j_asString test_json = node_str"
  by (simp_all add: test_json_def)

lemma test_docs_read:
  "json_instances test_json (doc_right p) = Inr 1" "json_profile test_json (doc_right p) = Inr p"
  "json_instances test_json doc_no_instances = Inr 0"
  "json_instances test_json doc_many_instances = Inr 2222"
  "json_instances test_json doc_no_profile = Inr 1" "json_profile test_json doc_no_profile = Inr ''error''"
  by (simp_all add: json_instances_def json_profile_def doc_right_def doc_no_instances_def doc_many_instances_def
      doc_no_profile_def)

lemmas json_test_eval = jsonCheck_def maxInstancesSize_def test_parse test_docs_read

text \<open>The answers the test cases expect, when the queue exists and has room.\<close>

lemma jsonCheckTest:
  "jsonCheck test_json (\<lambda>m. True) (print_json (doc_right ''mon'')) = Inr (''[success]'', [print_json (doc_right ''mon'')])"
  "jsonCheck test_json (\<lambda>m. True) (print_json (doc_right ''osd'')) = Inr (''[success]'', [print_json (doc_right ''osd'')])"
  "jsonCheck test_json (\<lambda>m. True) (print_json doc_no_instances) = Inr (''[error]:instances'', [])"
  "jsonCheck test_json (\<lambda>m. True) (print_json doc_many_instances) = Inr (''[error]:instances'', [])"
  "jsonCheck test_json (\<lambda>m. True) (print_json doc_no_profile) = Inr (''[error]:profile'', [])"
  "jsonCheck test_json (\<lambda>m. True) (print_json (doc_right ''error'')) = Inr (''[error]:profile'', [])"
  by (simp_all add: json_test_eval)

text \<open>
  The test creates no queue and \<open>jsonCheck\<close> only opens one: without a queue left by a scheduler the
  two cases that expect success end in an exception.
\<close>

lemma jsonCheckTest_no_queue:
  assumes "p = ''mon'' \<or> p = ''osd''"
  shows "jsonCheck test_json (\<lambda>m. False) (print_json (doc_right p)) = Inl Interprocess_Exception"
  using assms by (auto simp: json_test_eval)

section \<open>ConfigTest\<close>

text \<open>A YAML library that reads \<open>id: ceph\<close>: a mapping with one member.\<close>

definition test_yaml :: "string option yaml_lib" where
  "test_yaml = \<lparr>y_load = (\<lambda>s. if s = ''id: ceph'' then Some None else None),
     y_index = (\<lambda>n k. Inr (if n = None \<and> k = ''id'' then Some (Some ''ceph'') else None)),
     y_string = (\<lambda>n. n), y_int = (\<lambda>n. None), y_strings = (\<lambda>n. None)\<rparr>"

definition test_config_env :: "string option config_env" where
  "test_config_env = \<lparr>ce_flags = default_flags, ce_yaml = test_yaml, ce_file = (\<lambda>f. None)\<rparr>"

lemma ConfigEmptyFlag_test:
  "\<exists>config. parse_config_string test_config_env ''id: ceph'' = Inr config \<and> cfg_id config = ''ceph''"
  by (simp add: parse_config_string_def test_config_env_def test_yaml_def yaml_get_def Let_def)

section \<open>CephSchedulerAgentTest\<close>

text \<open>The aggregate initialiser gives eleven of twelve members; the last is zero.\<close>

definition test_agent_config :: Config where
  "test_agent_config = \<lparr>cfg_id = ''ceph'', cfg_role = ''*'', cfg_master = ''cmsnmh:2181/mesos'', cfg_zookeeper = [],
     cfg_restport = 8889, cfg_fileport = 8888, cfg_fileroot = ''./'', cfg_mgmtdev = ''ens2f0'',
     cfg_datadev = [], cfg_osddevs = [], cfg_jnldevs = [], cfg_jnlparts = 0\<rparr>"

definition createOffer :: "string \<Rightarrow> string \<Rightarrow> real \<Rightarrow> real \<Rightarrow> Offer" where
  "createOffer hostname role cpu mem = \<lparr>o_id = [], o_hostname = hostname, o_slave_id = [],
     o_resources = [\<lparr>r_name = ''cpus'', r_role = role, r_scalar = cpu\<rparr>, \<lparr>r_name = ''mem'', r_role = role, r_scalar = mem\<rparr>]\<rparr>"

text \<open>Every offer of another role gets exactly one answer, the refusal with a filter, and nothing else happens.\<close>

lemma decline_offer_from_wrong_role:
  assumes "map_order_ok (ae_iter E)" and "role \<noteq> cfg_role config"
  shows "\<exists>ag'. resourceOffers E ty tok [(createOffer host role cpu mem, now)] (CephSchedulerAgent_new indet config) = Inr ag' \<and>
    ag_driver ag' = [DeclineOfferFor [] 86400] \<and> ag_sm ag' = StateMachine_new indet config"
proof -
  have "ae_iter E [] = []" using assms(1) unfolding map_order_ok_def by (metis mset.simps(1) mset_zero_iff)
  then show ?thesis
    using assms(2)
    by (simp add: resourceOffers_def handleWaitingOSDTasks_def getWaitingOSDTask_def CephSchedulerAgent_new_def
        StateMachine_new_def offer_step_def hasRole_def createOffer_def callDriver_def Let_def)
qed

lemma decline_offer_from_wrong_role_test:
  "\<exists>ag'. resourceOffers demo_env ty tok [(createOffer ''cmsnmh'' ''ceph'' 8 4096, now)]
       (CephSchedulerAgent_new indet test_agent_config) = Inr ag' \<and>
     ag_driver ag' = [DeclineOfferFor [] 86400]"
  using decline_offer_from_wrong_role [of demo_env "''ceph''" test_agent_config ty tok "''cmsnmh''" 8 4096 now indet]
  by (auto simp: test_agent_config_def demo_env_def map_order_ok_def)

end
