(* ===== verification/Spec2Isabelle.thy ===== *)
theory Spec2Isabelle
  imports Scheduler_Results Cluster_Results Run_Results Program_Results Protocol Request_Pipeline File_Server Curl_Http Unit_Tests
begin

text \<open>
  A verification development for ceph-mesos, a Mesos framework that starts and grows a Ceph
  cluster in containers.

  \<^bold>\<open>The program.\<close> The scheduler (\<^verbatim>\<open>src/scheduler\<close>, \<^verbatim>\<open>src/state\<close>) answers the offers of
  Mesos: it first starts one MON, then three OSDs, then one RADOSGW, and from then on one OSD
  for every instance asked for by a REST request. It keeps a table of tasks with counters per
  type, from which it derives its phase (\<^verbatim>\<open>StateMachine\<close>), and the devices of every host
  (\<^verbatim>\<open>HostConfig\<close>). Raw devices are partitioned by a task of their own, run by the disk executor
  (\<^verbatim>\<open>src/executor/DiskExecutor.cpp\<close>); the Ceph nodes are run by the Ceph executor
  (\<^verbatim>\<open>src/executor/CephExecutor.cpp\<close>). Scheduler and executors talk through task labels, task
  data, framework messages and status updates, all of them text. The REST server
  (\<^verbatim>\<open>src/httpserver/RestServer.cpp\<close>) puts requests into a message queue that the event loop
  (\<^verbatim>\<open>src/scheduler/EventLoop.cpp\<close>) empties; a file server (\<^verbatim>\<open>src/httpserver/FileServer.cpp\<close>)
  hands out the executors and the configuration files.

  \<^bold>\<open>The theories\<close>, in the order of the components:

  \<^item> \<open>Ceph_Prelude\<close>: errors as values (\<open>cpp_error\<close>, \<open>res\<close>, \<open>bind_res\<close>), vectors, decimal
    text, C strings, unordered maps, loops without an exit, transition systems and the locale
    \<open>step_invariant\<close>.
  \<^item> \<open>String_Util\<close>: \<^verbatim>\<open>src/common/StringUtil.hpp\<close>; the locale \<open>delimited_format\<close> with one
    interpretation per delimiter.
  \<^item> \<open>Task_State\<close>: the enumerations, label keys and \<^verbatim>\<open>TaskState.hpp\<close>.
  \<^item> \<open>Config_File\<close>: \<^verbatim>\<open>src/common/Config.cpp\<close>. \<open>Host_Config\<close>: \<^verbatim>\<open>src/state/HostConfig.hpp\<close>; the
    locale \<open>partition_pool\<close>, interpreted for OSD and journal partitions.
  \<^item> \<open>State_Machine\<close>: \<^verbatim>\<open>src/state/StateMachine.cpp\<close>, one definition per method. \<open>Task_Counters\<close>:
    what its counters mean (\<open>sm_inv\<close>), and that every operation keeps it.
  \<^item> \<open>Event_Loop\<close>, \<open>Rest_Server\<close>, \<open>File_Server\<close>: the event loop and the two HTTP servers.
    \<open>Event_Thread\<close>: the object that owns the event loop's thread, with the destructor that joins
    it. \<open>Curl_Http\<close>: \<^verbatim>\<open>src/common/CurlHttp.cpp\<close>.
  \<^item> \<open>Mesos_Messages\<close>: the protocol buffers and driver calls the program uses.
    \<open>Scheduler_Agent\<close>: \<^verbatim>\<open>src/scheduler/CephSchedulerAgent.hpp\<close>. The state is the record \<open>agent\<close>;
    \<open>resourceOffers\<close>, \<open>statusUpdate\<close> and \<open>frameworkMessage\<close> are the callbacks, \<open>offer_step\<close>,
    \<open>offer_decide\<close> and \<open>accept_offer\<close> the parts of the loop over the offers.
  \<^item> \<open>Scheduler_Steps\<close>: what each helper changes; \<open>offer_step_cases\<close> sums up a round of the
    loop; the locale \<open>request_queue\<close>. \<open>Scheduler_Invariants\<close>: the callbacks as the step
    relation \<open>agent_step\<close>, and the invariant \<open>agent_inv\<close>. \<open>Scheduler_Props\<close>: whole batches of
    offers. \<open>Scheduler_Regions\<close>: runs, and the region in which the initial MON is lost.
    \<open>Bootstrap_Progress\<close>: the region in which an OSD is lost (\<open>osd_stuck\<close>), and that the
    bootstrap can complete from every other state, by the measure \<open>remaining\<close>.
    \<open>Demo_Cluster\<close>: a concrete environment and a run. \<open>Scheduler_Results\<close>: the results.
  \<^item> \<open>Request_Pipeline\<close>: REST server, message queue, event loop and scheduler as one transition
    system for the flex-up requests (\<open>pipeline_step\<close>), and the scheduler's fetch in single accesses
    to the shared vector.
  \<^item> \<open>Shell\<close>: \<^verbatim>\<open>runShellCommand\<close> of both executors. \<open>Disk_Executor\<close>, \<open>Ceph_Executor\<close>: the
    executors, with the shell commands, forks, messages and status updates they cause, in order.
  \<^item> \<open>Protocol\<close>: what one side writes and the other reads.
  \<^item> \<open>Cluster_Model\<close>: scheduler, executors and the Mesos services between them as one closed
    transition system (\<open>cluster_step\<close>), with what may be under way for one task (\<open>chan_ok\<close>).
    \<open>Cluster_Refinement\<close>: every step keeps that, and is a step of \<open>agent_step\<close> or invisible to
    the scheduler. \<open>Working_Host\<close>: the executors on a host where every command works.
    \<open>Cluster_Bootstrap\<close>: a run of the closed system that brings every task up, one task after the
    other, through the bootstrap and through the requests. \<open>Partition_Safety\<close>: the partitions of a
    host along a run (\<open>parts_inv\<close>). \<open>Osd_Identity\<close>: the OSD ids along a run, with the balance
    \<open>id_ledger\<close> and the invariant \<open>orders_inv\<close> about their owners. \<open>Counter_Bounds\<close>: the size of the
    counters along a run.
  \<^item> \<open>Driver_Loop\<close>: the loop of a Mesos driver that chooses the callbacks, and the locale
    \<open>driven\<close>. \<open>Scheduler_Driver\<close>: \<^verbatim>\<open>src/scheduler/CephScheduler.cpp\<close>, the callbacks as events and
    \<open>framework\<close>. \<open>Executor_Driver\<close>: the same for the two executors. \<open>Main_Process\<close>:
    \<^verbatim>\<open>src/scheduler/main.cpp\<close>.
  \<^item> \<open>Demo_Disks\<close>: a second environment, with disks, and a script of events. \<open>Cluster_Results\<close>,
    \<open>Run_Results\<close>, \<open>Program_Results\<close>: the results about the closed system, about runs of the scheduler
    and about the programs. \<open>Unit_Tests\<close>: the
    inputs and expectations of \<^verbatim>\<open>src/tests\<close> on the model. This theory: the results that span
    components.

  \<^bold>\<open>What is shown.\<close> For the scheduler: in every reachable state the counters describe the task
  table and the phase is the right one, there is at most one MON and one RADOSGW, and task ids
  are never reused (C2, C9, C15); one batch of offers respects the bound of the bootstrap and the
  budget of the requests, answers every offer and marks exactly \<open>mon0\<close> as initial (C17, C18, C20,
  C21); no partition is given to two OSDs (C3); the ids of the OSDs are handed out one by one (C22),
  and along every run none is lost or given twice and no executor gets two (C7). C4 says exactly when
  the cluster can still come up: an OSD that failed while it waited or started stays in the staging
  counter, and one is enough to stop the bootstrap for good (C10). C5 and C6 say the same of the
  executors and Mesos: with an offer that can be used, the closed system has a run, executors
  reporting and initial MON registering the OSDs, at whose end every task is up, and a request for
  \<open>n\<close> instances can then bring exactly \<open>n\<close> more OSDs. The step relation
  assumes of status updates only that they follow the recorded status (\<open>status_legal\<close>). C1
  removes the assumption: with the executors and Mesos modelled as well, whatever the order of
  deliveries and losses, every status that the scheduler gets is of that kind, so all results
  about \<open>agent_step\<close> hold of the closed system; C16 adds that its task table is well formed. The
  two ends of the protocol that carry it are \<open>first_status_legal\<close> and \<open>launched_status_legal\<close>.
  For the flex-up requests: through REST server, queue, event loop and scheduler no instance is lost
  or made up and every one can be served (C8, C13), and the scheduler's fetch may be taken as one
  step although the event loop appends to the same vector (C14).
  For the messages: round trips for disk preparation and node labels (C12, C32). For the programs: a
  run of the framework under any driver is a run of the scheduler (C23), when the process returns
  (C25), that the event loop can be joined (C26), and what the executors report over their whole life
  (C27, C28). For the parts: the end of the wait for a container, the layout of partitions, the
  handling of chunks and of output buffers, and the configuration (C33 to C40), and what the file
  server answers (\<open>file_request_serves\<close>). Several results
  state what the code does where that is not what it means to do: OSDs lost to the staging counter
  (C10), the number of the initial MON given away (C11), losses that are ignored (C24), a process that
  outlives its framework (C25), a disk task reported twice (C28), an offer that is used and declined
  (C29), failed devices that are used (C30), host names with dots (C31), the timeout that does not
  end a wait (C33), stale bytes behind a message (C37) and prefixes compared by full octets only
  (C38); \<open>curl_get_once\<close>, a handle used after it was freed, and \<open>full_message_overread\<close>, a request
  that fills the array, are of this kind as well.

  \<^bold>\<open>Modelling choices.\<close> Reading a missing vector element, a failed \<open>lexical_cast\<close> and the
  exceptions the code throws are values of \<open>cpp_error\<close>; an operation that fails has no state,
  since the exceptions are not caught where they occur. Counters and indices are integers
  without bound: C19 shows that they stay in the range of \<open>int\<close> as long as fewer than \<open>2\<^sup>3\<^sup>1\<close> offers
  have been received. Indeterminate values
  (default-constructed enumerators, \<open>jnlPartsCount\<close> of the default host, locals of
  \<open>resourceOffers\<close>, the bytes of \<open>event_data\<close>, memory behind a dangling pointer) are arguments.
  Libraries and the operating system are records of functions that the definitions take as
  arguments: conversions (\<open>lexcast\<close>, with the contract \<open>lexcast_ok\<close>), YAML, JSON, Mesos
  resources, host names, the file system, \<open>popen\<close>, \<open>fork\<close>, the clock and the iteration order of
  the hash map (\<open>map_order_ok\<close>: every entry once). The wait for a container, the sleep of the
  servers and the loop of a driver may not end; they are partial functions into \<open>option\<close>, and
  \<open>None\<close> means that they do not return. No fuel is used: all other loops are structural or have a
  measure. A Mesos driver is a function that says which callback comes next, from the number of
  callbacks so far and the state of the program, so results about a driver hold for every one. In the
  closed system Mesos delivers the status updates of a task in order, every framework message at
  most once and in any order, and may lose an executor at any time.

  The requests of C8 and C13 pass the event loop with a clean array, that is with a NUL behind each
  message; C37 says what happens otherwise. A queue that is full blocks the sender, which then
  takes no step.

  \<^bold>\<open>Not modelled.\<close> Log output other than \<^verbatim>\<open>printCounters\<close>; destructors that free memory only; the
  test framework behind the unit tests. Threads are interleaved at whole callbacks; for the one
  vector that two of them change, C14 shows that this is no restriction when every access to it is
  atomic, which the C++ memory model does not promise for code without locks.
\<close>

section \<open>Scheduler and Ceph executor\<close>

text \<open>
  C32: The executor reads from the labels of a node task what the scheduler wrote: the two
  networks of the host, and for an OSD the partitions that were taken from the host's pools.
\<close>

theorem node_labels_round_trip:
  assumes "addHostConfig ty h ag = (labels, ag')" and "hc = getConfig (ag_sm ag) h"
  shows "\<exists>y. parseHostConfig (node_task E offer ty k ini role executor labels) x = (True, y) \<and>
    x_mgmtNIC y = getMgmtDev hc \<and> x_dataNIC y = getDataDev hc \<and>
    (if ty = OSD
     then x_osddisk y = fst (popOSDPartition hc) \<and>
          x_jnldisk y = fst (popJournalPartition (snd (popOSDPartition hc))) \<and>
          getConfig (ag_sm ag') h = snd (popJournalPartition (snd (popOSDPartition hc)))
     else x_osddisk y = x_osddisk x \<and> x_jnldisk y = x_jnldisk x \<and> ag' = ag)"
proof -
  have "if ty = OSD then getConfig (ag_sm ag') h = snd (popJournalPartition (snd (popOSDPartition hc))) else ag' = ag"
    using assms by (auto simp: addHostConfig_def Let_def split: prod.splits)
  then show ?thesis
    using node_labels_read [OF assms(1), of E offer k ini role executor x] assms(2) by (simp split: if_splits)
qed

theorem node_labels_round_trip_witness:
  "\<exists>labels ag' y. addHostConfig OSD ''h1'' demo_disks = (labels, ag') \<and>
     parseHostConfig (node_task demo_env (demo_offer ''o2'' ''h1'') OSD 0 0 ''ceph'' (ti_executor bare_task) labels)
       (CephExecutor_new 0 ()) = (True, y) \<and> x_osddisk y = []"
proof -
  obtain labels ag' where a: "addHostConfig OSD ''h1'' demo_disks = (labels, ag')" by fastforce
  have "fst (popOSDPartition (getConfig (ag_sm demo_disks) ''h1'')) = []"
    by (simp add: popOSDPartition_def getConfig_def demo_disks_def)
  then show ?thesis
    using a node_labels_round_trip [OF a refl, of demo_env "demo_offer ''o2'' ''h1''" 0 0 "''ceph''" "ti_executor bare_task"
        "CephExecutor_new 0 ()"] by auto
qed

section \<open>Scheduler and disk executor\<close>

lemma accepted_config:
  "getConfig (ag_sm (disks_accepted E h ag)) h =
     (let hc = getConfig (ag_sm ag) h
      in setDiskPreparationDone (updateDiskPartition (ae_lc E) [] (jnlPartsCount hc) hc))"
  by (simp add: disks_accepted_def Let_def)


definition demo_disk_host :: HostConfig where
  "demo_disk_host = demo_hc\<lparr>hc_pendingOSDDevs := [''sdb''], hc_pendingJNLDevs := [''sdc''], jnlPartsCount := 4\<rparr>"

definition demo_disk_agent :: agent where
  "demo_disk_agent = demo_ag (demo_sm_up\<lparr>hostConfigMap := [''h1'' \<mapsto> demo_disk_host]\<rparr>) []"


text \<open>
  C30: The devices that a disk executor reports as failed are treated like the others: the
  scheduler makes partitions of every pending device and records no failure.
\<close>

theorem failed_devices_become_partitions:
  assumes "lexcast_ok (ae_lc E)" and "plain_name (de_myHostname x)"
    and "\<forall>d \<in> set (de_failedOSDDevs x) \<union> set (de_failedJNLDevs x). CHR ''.'' \<notin> set d"
    and "hc = getConfig (ag_sm ag) (de_myHostname x)"
  shows "\<exists>ag' hc'. statusUpdate E \<lparr>st_task_id = tid, st_state = TASK_FINISHED,
             st_message = Some (prepareReturnValue (ae_lc E) x)\<rparr> ag = Inr ag' \<and>
    hc' = getConfig (ag_sm ag') (de_myHostname x) \<and>
    osdPartitions hc' = osdPartitions hc @ map (\<lambda>d. d @ ''1'') (hc_pendingOSDDevs hc) \<and>
    hc_failedOSDDevs hc' = hc_failedOSDDevs hc \<and> hc_failedJNLDevs hc' = hc_failedJNLDevs hc"
  using disk_ready_read [OF assms(1-3), of tid ag] accepted_config [of E "de_myHostname x" ag] assms(4)
  by (simp add: disk_ready_status_def Let_def setDiskPreparationDone_def updateDiskPartition_eq)

definition demo_failed :: "unit disk_exec" where
  "demo_failed = (DiskExecutor_new ())\<lparr>de_myHostname := ''h1'', de_failedOSDDevs := [''sdb'']\<rparr>"

theorem failed_devices_become_partitions_witness:
  "\<exists>ag'. statusUpdate demo_env \<lparr>st_task_id = ''t'', st_state = TASK_FINISHED,
       st_message = Some (prepareReturnValue (ae_lc demo_env) demo_failed)\<rparr> demo_disk_agent = Inr ag' \<and>
     osdPartitions (getConfig (ag_sm ag') ''h1'') = [''sdb1'']"
proof -
  have h: "plain_name (de_myHostname demo_failed)"
      "\<forall>d \<in> set (de_failedOSDDevs demo_failed) \<union> set (de_failedJNLDevs demo_failed). CHR ''.'' \<notin> set d"
    by (simp_all add: plain_name_def demo_failed_def DiskExecutor_new_def)
  have n: "de_myHostname demo_failed = ''h1''" by (simp add: demo_failed_def)
  have hc: "getConfig (ag_sm demo_disk_agent) ''h1'' = demo_disk_host"
    by (simp add: demo_disk_agent_def getConfig_def)
  from failed_devices_become_partitions [OF demo_lexcast_ok h refl, of "''t''" demo_disk_agent]
  show ?thesis unfolding n hc by (auto simp: demo_disk_host_def)
qed

text \<open>
  C31: A host whose name contains a dot cannot report its disks: the message is cut at the dot
  and reading it fails.
\<close>

theorem disk_ready_of_dotted_host_fails:
  assumes "lexcast_ok (ae_lc E)" and "de_myHostname x = h @ ''.'' @ domain"
    and "CHR ''.'' \<notin> set h" and "CHR '':'' \<notin> set h"
  shows "statusUpdate E \<lparr>st_task_id = tid, st_state = TASK_FINISHED,
             st_message = Some (prepareReturnValue (ae_lc E) x)\<rparr> ag = Inl Out_Of_Range"
  using disk_ready_fqdn [OF assms, of tid ag] by (simp add: disk_ready_status_def)

theorem disk_ready_of_dotted_host_fails_witness:
  "statusUpdate demo_env \<lparr>st_task_id = ''t'', st_state = TASK_FINISHED,
     st_message = Some (prepareReturnValue (ae_lc demo_env) (demo_failed\<lparr>de_myHostname := ''h1.example.com''\<rparr>))\<rparr>
     demo_disk_agent = Inl Out_Of_Range"
  using disk_ready_of_dotted_host_fails [OF demo_lexcast_ok, of "demo_failed\<lparr>de_myHostname := ''h1.example.com''\<rparr>"
      "''h1''" "''example.com''" "''t''" demo_disk_agent] by simp

end
